theory Spec2Isabelle
  imports Main "HOL-Library.Word" "HOL-Library.Signed_Division"
begin

unbundle bit_operations_syntax

section \<open>Stefan's tiny BASIC interpreter (basic.c): data model\<close>

text \<open>
  The embedding follows the desktop configuration of basic.c (\<open>ARDUINO\<close> undefined, all
  \<open>HAS*\<close> features but \<open>HASFLOAT\<close> defined): \<open>number_t\<close> is a 32-bit \<open>int\<close>,
  \<open>address_t\<close> a 16-bit \<open>unsigned short\<close>, \<open>char\<close> a signed byte and \<open>long\<close> has 64 bits.
  The working memory \<open>mem\<close> is a map from indices to bytes; an index expression of the C
  code is computed in \<open>int\<close>, hence as a natural number here, and a post-increment of an
  \<open>address_t\<close> variable wraps at 16 bits.  A function of the C code that may fail to return
  a defined result (a token scan that does not terminate, a message index outside the
  message table) has an \<open>option\<close> result, \<open>None\<close> standing for "no defined result".
\<close>

type_synonym byte = "8 word"
type_synonym address_t = "16 word"
type_synonym number_t = "32 word"

text \<open>Buffer sizes and stack depths (lines 168--174).\<close>

abbreviation BUFSIZE :: nat where "BUFSIZE \<equiv> 92"
abbreviation SBUFSIZE :: nat where "SBUFSIZE \<equiv> 32"
abbreviation VARSIZE :: nat where "VARSIZE \<equiv> 26"
abbreviation STACKSIZE :: address_t where "STACKSIZE \<equiv> 15"
abbreviation GOSUBDEPTH :: nat where "GOSUBDEPTH \<equiv> 4"
abbreviation FORDEPTH :: nat where "FORDEPTH \<equiv> 4"

text \<open>Token codes (lines 185--265).\<close>

abbreviation EOL :: byte where "EOL \<equiv> 0"
abbreviation NUMBER :: byte where "NUMBER \<equiv> - 127"
abbreviation LINENUMBER :: byte where "LINENUMBER \<equiv> - 126"
abbreviation STRING :: byte where "STRING \<equiv> - 125"
abbreviation VARIABLE :: byte where "VARIABLE \<equiv> - 124"
abbreviation STRINGVAR :: byte where "STRINGVAR \<equiv> - 123"
abbreviation ARRAYVAR :: byte where "ARRAYVAR \<equiv> - 122"
abbreviation GREATEREQUAL :: byte where "GREATEREQUAL \<equiv> - 121"
abbreviation LESSEREQUAL :: byte where "LESSEREQUAL \<equiv> - 120"
abbreviation NOTEQUAL :: byte where "NOTEQUAL \<equiv> - 119"
abbreviation TFOR :: byte where "TFOR \<equiv> - 111"
abbreviation TNEXT :: byte where "TNEXT \<equiv> - 108"
abbreviation UNKNOWN :: byte where "UNKNOWN \<equiv> - 2"
abbreviation BASEKEYWORD :: byte where "BASEKEYWORD \<equiv> - 121"
abbreviation NKEYWORDS :: nat where "NKEYWORDS \<equiv> 3 + 19 + 14 + 11 + 10 + 4 + 2"

text \<open>Interpreter states and stream selectors (lines 281--297).\<close>

abbreviation SINT :: byte where "SINT \<equiv> 0"
abbreviation SRUN :: byte where "SRUN \<equiv> 1"
abbreviation SERUN :: byte where "SERUN \<equiv> 2"
abbreviation OSERIAL :: byte where "OSERIAL \<equiv> 1"
abbreviation ODSP :: byte where "ODSP \<equiv> 2"
abbreviation OPRT :: byte where "OPRT \<equiv> 4"
abbreviation OFILE :: byte where "OFILE \<equiv> 16"
abbreviation ISERIAL :: byte where "ISERIAL \<equiv> 1"
abbreviation IFILE :: byte where "IFILE \<equiv> 16"

text \<open>Message and error numbers (lines 401--423).\<close>

abbreviation EGENERAL :: byte where "EGENERAL \<equiv> 3"
abbreviation EUNKNOWN :: byte where "EUNKNOWN \<equiv> 4"
abbreviation ELINE :: byte where "ELINE \<equiv> 7"
abbreviation ENEXT :: byte where "ENEXT \<equiv> 9"
abbreviation EFOR :: byte where "EFOR \<equiv> 11"
abbreviation EOUTOFMEMORY :: byte where "EOUTOFMEMORY \<equiv> 12"
abbreviation ESTACK :: byte where "ESTACK \<equiv> 13"
abbreviation ERANGE :: byte where "ERANGE \<equiv> 15"
abbreviation EVARIABLE :: byte where "EVARIABLE \<equiv> 17"

text \<open>Sizes of the numeric types (lines 474--477).\<close>

abbreviation numsize :: nat where "numsize \<equiv> 4"
abbreviation addrsize :: nat where "addrsize \<equiv> 2"
abbreviation eheadersize :: address_t where "eheadersize \<equiv> 3"
abbreviation strindexsize :: nat where "strindexsize \<equiv> 2"

text \<open>
  A \<open>char *\<close> of the interpreter points into the working memory, into the input buffer or
  at a keyword of the keyword table, or is the null pointer.
\<close>

datatype ptr = Null | MemP nat | BufP nat | KwP byte

text \<open>An element of \<open>forstack\<close> (line 550).\<close>

record forrec =
  varx :: byte
  vary :: byte
  fhere :: address_t
  fto :: number_t
  fstep :: number_t

text \<open>
  The global variables of the interpreter (lines 530--602).  \<open>z\<close> is the union
  \<open>accunumber\<close>, held as its 32-bit member \<open>z.i\<close>; the other members are views of its
  bytes (little endian).  \<open>bi\<close> is the offset of the pointer \<open>bi\<close> in \<open>ibuffer\<close>.
  \<open>idd\<close> and \<open>odd'\<close> are the default streams \<open>idd\<close> and \<open>odd\<close> (lines 589--590), which
  \<open>SET 5\<close> and \<open>SET 3\<close> change.
  \<open>sout\<close> collects what \<open>putchar\<close> wrote, \<open>sin\<close> is what \<open>getchar\<close> will deliver,
  \<open>ofd\<close> and \<open>ifd\<close> are the files open for writing and reading (if any), and
  \<open>elen\<close>, \<open>eeprom\<close> stand for the EEPROM behind \<open>elength\<close>, \<open>eread\<close> and
  \<open>eupdate\<close> (the stubs of the desktop build are the device of length 0 that reads 0).
\<close>

record istate =
  mem :: "nat \<Rightarrow> byte"
  memsize :: address_t
  himem :: address_t
  top' :: address_t
  here :: address_t
  nvars :: address_t
  stack :: "nat \<Rightarrow> number_t"
  sp :: address_t
  forstack :: "nat \<Rightarrow> forrec"
  forsp :: nat
  fnc :: byte
  gosubstack :: "nat \<Rightarrow> address_t"
  gosubsp :: nat
  x :: number_t
  y :: number_t
  xc :: byte
  yc :: byte
  z :: number_t
  ir :: ptr
  ir2 :: ptr
  token :: byte
  er :: byte
  ert :: byte
  st :: byte
  rd :: address_t
  id' :: byte
  od :: byte
  idd :: byte
  odd' :: byte
  form :: byte
  vars :: "nat \<Rightarrow> number_t"
  ibuffer :: "nat \<Rightarrow> byte"
  bi :: nat
  sout :: "byte list"
  sin :: "byte list"
  ofd :: "byte list option"
  ifd :: "byte list option"
  elen :: address_t
  eeprom :: "nat \<Rightarrow> byte"

section \<open>Layer 0: memory, accumulator, output\<close>

text \<open>The members \<open>z.a\<close> (16 bits) and \<open>z.c[i]\<close> (byte \<open>i\<close>) of the accumulator.\<close>

definition za :: "istate \<Rightarrow> address_t" where
  "za s = ucast (z s)"

definition set_za :: "address_t \<Rightarrow> istate \<Rightarrow> istate" where
  "set_za v s = s\<lparr>z := (z s AND NOT 65535) OR ucast v\<rparr>"

definition zc :: "istate \<Rightarrow> nat \<Rightarrow> byte" where
  "zc s i = ucast (drop_bit (8 * i) (z s))"

definition set_zc :: "nat \<Rightarrow> byte \<Rightarrow> istate \<Rightarrow> istate" where
  "set_zc i v s = s\<lparr>z := (z s AND NOT (push_bit (8 * i) 255)) OR push_bit (8 * i) (ucast v)\<rparr>"

text \<open>\<open>getnumber\<close> (lines 1573--1588); \<open>n\<close> is 1, 2 or \<open>numsize\<close>.\<close>

fun getbytes :: "nat \<Rightarrow> address_t \<Rightarrow> nat \<Rightarrow> istate \<Rightarrow> istate" where
  "getbytes i m 0 s = s"
| "getbytes i m (Suc k) s = getbytes (Suc i) (m + 1) k (set_zc i (mem s (unat m)) s)"

definition getnumber :: "address_t \<Rightarrow> nat \<Rightarrow> istate \<Rightarrow> istate" where
  "getnumber m n s =
     (if n = 1 then s\<lparr>z := scast (mem s (unat m))\<rparr>
      else if n = 2 then set_zc 1 (mem s (unat (m + 1))) (set_zc 0 (mem s (unat m)) (s\<lparr>z := 0\<rparr>))
      else getbytes 0 m n (s\<lparr>z := 0\<rparr>))"

text \<open>\<open>egetnumber\<close> (lines 1591--1606), reading through \<open>eread\<close>.\<close>

definition eread :: "istate \<Rightarrow> address_t \<Rightarrow> byte" where
  "eread s i = eeprom s (unat i)"

fun egetbytes :: "nat \<Rightarrow> address_t \<Rightarrow> nat \<Rightarrow> istate \<Rightarrow> istate" where
  "egetbytes i m 0 s = s"
| "egetbytes i m (Suc k) s = egetbytes (Suc i) (m + 1) k (set_zc i (eread s m) s)"

definition egetnumber :: "address_t \<Rightarrow> nat \<Rightarrow> istate \<Rightarrow> istate" where
  "egetnumber m n s =
     (if n = 1 then s\<lparr>z := scast (eread s m)\<rparr>
      else if n = 2 then set_zc 1 (eread s (m + 1)) (set_zc 0 (eread s m) (s\<lparr>z := 0\<rparr>))
      else egetbytes 0 m n (s\<lparr>z := 0\<rparr>))"

text \<open>\<open>setnumber\<close> (lines 1609--1622).\<close>

fun setbytes :: "nat \<Rightarrow> address_t \<Rightarrow> nat \<Rightarrow> istate \<Rightarrow> istate" where
  "setbytes i m 0 s = s"
| "setbytes i m (Suc k) s = setbytes (Suc i) (m + 1) k (s\<lparr>mem := (mem s)(unat m := zc s i)\<rparr>)"

definition setnumber :: "address_t \<Rightarrow> nat \<Rightarrow> istate \<Rightarrow> istate" where
  "setnumber m n s =
     (if n = 1 then s\<lparr>mem := (mem s)(unat m := ucast (z s))\<rparr>
      else if n = 2 then s\<lparr>mem := (mem s)(unat m := zc s 0, unat (m + 1) := zc s 1)\<rparr>
      else setbytes 0 m n s)"

text \<open>
  Output (lines 2160--2211 and 2411--2450): \<open>outch\<close> sends a character to the stream
  selected by \<open>od\<close>; the printer and the display are absent in this configuration.
\<close>

definition filewrite :: "byte \<Rightarrow> istate \<Rightarrow> istate" where
  "filewrite c s = (case ofd s of Some f \<Rightarrow> s\<lparr>ofd := Some (f @ [c])\<rparr> | None \<Rightarrow> s\<lparr>ert := 1\<rparr>)"

definition serialwrite :: "byte \<Rightarrow> istate \<Rightarrow> istate" where
  "serialwrite c s = s\<lparr>sout := sout s @ [c]\<rparr>"

definition outch :: "byte \<Rightarrow> istate \<Rightarrow> istate" where
  "outch c s =
     (if od s = OSERIAL then serialwrite c s
      else if od s = OFILE then filewrite c s
      else s)"

definition outcr :: "istate \<Rightarrow> istate" where
  "outcr s = outch 10 s"

definition outspc :: "istate \<Rightarrow> istate" where
  "outspc s = outch 32 s"

fun outsc :: "byte list \<Rightarrow> istate \<Rightarrow> istate" where
  "outsc [] s = s"
| "outsc (c # cs) s = outsc cs (outch c s)"

text \<open>
  \<open>writenumber\<close> (lines 2512--2546): the decimal digits of the number, produced last
  digit first by the \<open>do \<dots> while\<close> loop, a minus sign appended, and the whole reversed.
\<close>

function digits_rev :: "nat \<Rightarrow> byte list" where
  "digits_rev v = (of_nat (v mod 10) + 48) # (if 0 < v div 10 then digits_rev (v div 10) else [])"
  by pat_completeness auto
termination
  by (relation "measure (\<lambda>v. v)") auto

definition writenumber :: "number_t \<Rightarrow> byte list" where
  "writenumber vi =
     (if sint vi < 0 then rev (digits_rev (nat (- sint vi)) @ [45])
      else rev (digits_rev (nat (sint vi))))"

text \<open>
  \<open>outnumber\<close> (lines 2640--2654): the number, padded with spaces up to the field width
  \<open>form\<close>; \<open>number_text\<close> is what it prints.
\<close>

definition number_text :: "byte \<Rightarrow> number_t \<Rightarrow> byte list" where
  "number_text f n = writenumber n @ replicate (nat (sint f - int (length (writenumber n)))) 32"

definition outnumber :: "number_t \<Rightarrow> istate \<Rightarrow> istate" where
  "outnumber n s = outsc (number_text (form s) n) s"

text \<open>The message table (lines 425--459) and \<open>getmessage\<close>, \<open>printmessage\<close> (lines 1895--1912).\<close>

definition message :: "string list" where
  "message = [''file.bas'', ''> '', ''Stefan's Basic 1.2'', ''Error'',
     ''Syntax'', ''Number'', ''Div by 0'', ''Unknown Line'', ''Return'', ''Next'', ''GOSUB'',
     ''FOR'', ''Memory'', ''Stack'', ''DIM'', ''Range'', ''String'', ''Variable'', ''File'',
     ''Function'', ''Args'', ''EEPROM'', ''SD card'']"

text \<open>
  The table has 23 entries and \<open>getmessage\<close> only refuses an index from \<open>NKEYWORDS\<close>
  on: a negative index or one from 23 on reads outside the table (or prints the null
  pointer), which has no defined result.
\<close>

definition getmessage :: "byte \<Rightarrow> byte list option" where
  "getmessage i =
     (if 0 \<le>s i \<and> unat i < length message then Some (map of_char (message ! unat i)) else None)"

definition printmessage :: "byte \<Rightarrow> istate \<Rightarrow> istate option" where
  "printmessage i s = (case getmessage i of Some m \<Rightarrow> Some (outsc m s) | None \<Rightarrow> None)"

section \<open>Reading tokens from the program store\<close>

text \<open>\<open>memread\<close> (lines 2972--2982); \<open>ARDUINOEEPROM\<close> is defined.\<close>

definition memread :: "istate \<Rightarrow> address_t \<Rightarrow> byte" where
  "memread s i = (if st s \<noteq> SERUN then mem s (unat i) else eread s (i + eheadersize))"

text \<open>\<open>gettoken\<close> (lines 2986--3030), the branch for \<open>ARDUINO\<close> undefined.\<close>

definition gettoken :: "istate \<Rightarrow> istate" where
  "gettoken s =
     (if top' s \<le> here s then s\<lparr>token := EOL\<rparr>
      else
        let t = memread s (here s);
            s1 = s\<lparr>token := t, here := here s + 1\<rparr>
        in
          if t = LINENUMBER then
            (let s2 = (if st s1 \<noteq> SERUN then getnumber (here s1) addrsize s1
                       else egetnumber (here s1 + eheadersize) addrsize s1)
             in s2\<lparr>x := ucast (za s2), here := here s2 + 2\<rparr>)
          else if t = NUMBER then
            (let s2 = (if st s1 \<noteq> SERUN then getnumber (here s1) numsize s1
                       else egetnumber (here s1 + eheadersize) numsize s1)
             in s2\<lparr>x := z s2, here := here s2 + 4\<rparr>)
          else if t = ARRAYVAR \<or> t = VARIABLE \<or> t = STRINGVAR then
            s1\<lparr>xc := memread s1 (here s1), yc := memread s1 (here s1 + 1), here := here s1 + 2\<rparr>
          else if t = STRING then
            (let n = memread s1 (here s1);
                 s2 = s1\<lparr>x := ucast n, here := here s1 + 1\<rparr>
             in s2\<lparr>ir := MemP (unat (here s2)), here := here s2 + ucast n\<rparr>)
          else s1)"

text \<open>
  The \<open>switch\<close> of \<open>gettoken\<close> (lines 2997--3029) as a function of the state in which the
  token byte has been read into \<open>token\<close> and \<open>here\<close> advanced past it, and the number of
  argument bytes that it reads from \<open>here\<close> on (a string token has its length byte there,
  followed by the characters, which \<open>gettoken\<close> skips).
\<close>

definition gettoken_args :: "istate \<Rightarrow> istate" where
  "gettoken_args u =
     (if token u = LINENUMBER then
        (let s2 = (if st u \<noteq> SERUN then getnumber (here u) addrsize u
                   else egetnumber (here u + eheadersize) addrsize u)
         in s2\<lparr>x := ucast (za s2), here := here s2 + 2\<rparr>)
      else if token u = NUMBER then
        (let s2 = (if st u \<noteq> SERUN then getnumber (here u) numsize u
                   else egetnumber (here u + eheadersize) numsize u)
         in s2\<lparr>x := z s2, here := here s2 + 4\<rparr>)
      else if token u = ARRAYVAR \<or> token u = VARIABLE \<or> token u = STRINGVAR then
        u\<lparr>xc := memread u (here u), yc := memread u (here u + 1), here := here u + 2\<rparr>
      else if token u = STRING then
        (let n = memread u (here u);
             s2 = u\<lparr>x := ucast n, here := here u + 1\<rparr>
         in s2\<lparr>ir := MemP (unat (here s2)), here := here s2 + ucast n\<rparr>)
      else u)"

definition args_len :: "istate \<Rightarrow> nat" where
  "args_len u =
     (if token u = LINENUMBER then addrsize
      else if token u = NUMBER then numsize
      else if token u = ARRAYVAR \<or> token u = VARIABLE \<or> token u = STRINGVAR then 2
      else if token u = STRING then 1
      else 0)"

text \<open>
  Whole tokens.  \<open>token_len s a\<close> is the number of bytes of the token that starts at the
  address \<open>a\<close> of the program (its token byte, its argument bytes and, for a string, its
  characters), and \<open>complete n s a\<close> says that the program from \<open>a\<close> to \<open>top\<close> consists of
  at most \<open>n\<close> tokens, each of which ends at or below \<open>top\<close>.
\<close>

definition token_len :: "istate \<Rightarrow> address_t \<Rightarrow> nat" where
  "token_len s a =
     (let t = memread s a in
      if t = LINENUMBER then 1 + addrsize
      else if t = NUMBER then 1 + numsize
      else if t = ARRAYVAR \<or> t = VARIABLE \<or> t = STRINGVAR then 3
      else if t = STRING then 2 + unat (memread s (a + 1))
      else 1)"

fun complete :: "nat \<Rightarrow> istate \<Rightarrow> address_t \<Rightarrow> bool" where
  "complete 0 s a = (a = top' s)"
| "complete (Suc n) s a =
     (a = top' s \<or> (unat a + token_len s a \<le> unat (top' s) \<and> complete n s (a + of_nat (token_len s a))))"

text \<open>
  \<open>myline\<close> (lines 3066--3087): the number of the line that holds the address \<open>h\<close>.
  The loop state is the interpreter state with the locals \<open>l\<close> and \<open>l1\<close>.
\<close>

partial_function (option) myline_loop ::
  "address_t \<Rightarrow> istate \<Rightarrow> address_t \<Rightarrow> address_t \<Rightarrow> (istate \<times> address_t \<times> address_t) option" where
  "myline_loop h s l l1 =
     (if here s < top' s then
        (if h \<le> here s then
           Some (s, if token s = LINENUMBER then (ucast (x s), l) else (l, l1))
         else myline_loop h (gettoken s)
                (if token s = LINENUMBER then ucast (x s) else l)
                (if token s = LINENUMBER then l else l1))
      else Some (s, l, l1))"

definition myline :: "address_t \<Rightarrow> istate \<Rightarrow> (address_t \<times> istate) option" where
  "myline h s =
     (case myline_loop h (gettoken (s\<lparr>here := 0\<rparr>)) 0 0 of
        None \<Rightarrow> None
      | Some (s1, l, l1) \<Rightarrow>
          Some (if token s1 = LINENUMBER then l1 else l, s1\<lparr>here := here s\<rparr>))"

section \<open>Error handling and the stacks\<close>

definition clearst :: "istate \<Rightarrow> istate" where
  "clearst s = s\<lparr>sp := 0\<rparr>"

definition clrforstack :: "istate \<Rightarrow> istate" where
  "clrforstack s = s\<lparr>forsp := 0, fnc := 0\<rparr>"

definition clrgosubstack :: "istate \<Rightarrow> istate" where
  "clrgosubstack s = s\<lparr>gosubsp := 0\<rparr>"

definition iodefaults :: "istate \<Rightarrow> istate" where
  "iodefaults s = s\<lparr>od := odd' s, id' := idd s\<rparr>"

text \<open>\<open>error\<close> (lines 1928--1953).\<close>

definition error_prefix :: "istate \<Rightarrow> istate option" where
  "error_prefix s =
     (if st s \<noteq> SINT then
        (case myline (here s) s of
           None \<Rightarrow> None
         | Some (ln, s1) \<Rightarrow> Some (outspc (outch 58 (outnumber (ucast ln) s1))))
      else Some s)"

definition error :: "byte \<Rightarrow> istate \<Rightarrow> istate option" where
  "error e s =
     (case error_prefix (s\<lparr>er := e, od := odd' s, id' := idd s\<rparr>) of
        None \<Rightarrow> None
      | Some s1 \<Rightarrow>
          (case printmessage e s1 of
             None \<Rightarrow> None
           | Some s2 \<Rightarrow>
               (case printmessage EGENERAL (outspc s2) of
                  None \<Rightarrow> None
                | Some s3 \<Rightarrow> Some (iodefaults (clrgosubstack (clrforstack (clearst (outcr s3))))))))"

text \<open>What \<open>error\<close> prints after the line number: the message, a space, "Error" and a newline.\<close>

definition error_text :: "byte \<Rightarrow> byte list" where
  "error_text e = map of_char (message ! unat e) @ [32] @ map of_char ''Error'' @ [10]"

text \<open>\<open>push\<close> and \<open>pop\<close> (lines 2018--2034).\<close>

definition push :: "number_t \<Rightarrow> istate \<Rightarrow> istate option" where
  "push t s =
     (if sp s = STACKSIZE then error ESTACK s
      else Some (s\<lparr>stack := (stack s)(unat (sp s) := t), sp := sp s + 1\<rparr>))"

definition pop :: "istate \<Rightarrow> (number_t \<times> istate) option" where
  "pop s =
     (if sp s = 0 then map_option (Pair 0) (error ESTACK s)
      else Some (stack s (unat (sp s - 1)), s\<lparr>sp := sp s - 1\<rparr>))"

section \<open>The lexical analyser (interactive mode)\<close>

text \<open>The keyword table (lines 303--394); the keyword of token \<open>BASEKEYWORD + i\<close> is entry \<open>i\<close>.\<close>

definition keyword :: "string list" where
  "keyword = [''=>'', ''<='', ''<>'', ''PRINT'', ''LET'', ''INPUT'', ''GOTO'', ''GOSUB'', ''RETURN'',
     ''IF'', ''FOR'', ''TO'', ''STEP'', ''NEXT'', ''STOP'', ''LIST'', ''NEW'', ''RUN'', ''ABS'', ''RND'',
     ''SIZE'', ''REM'', ''NOT'', ''AND'', ''OR'', ''LEN'', ''SGN'', ''PEEK'', ''DIM'', ''CLR'', ''LOMEM'',
     ''HIMEM'', ''TAB'', ''THEN'', ''END'', ''POKE'', ''CONT'', ''SQR'', ''FRE'', ''DUMP'', ''BREAK'',
     ''SAVE'', ''LOAD'', ''GET'', ''PUT'', ''SET'', ''CLS'', ''PINM'', ''DWRITE'', ''DREAD'', ''AWRITE'',
     ''AREAD'', ''DELAY'', ''MILLIS'', ''ATONE'', ''PULSEIN'', ''AZERO'', ''CATALOG'', ''DELETE'',
     ''OPEN'', ''CLOSE'', ''USR'', ''CALL'']"

text \<open>
  The scanning loops of the lexer run along the input buffer; one that reaches the end
  of the buffer (\<open>BUFSIZE\<close> characters) without stopping has no defined result.
  \<open>whitespaces\<close> (lines 2685--2687):
\<close>

function whitespaces_from :: "(nat \<Rightarrow> byte) \<Rightarrow> nat \<Rightarrow> nat option" where
  "whitespaces_from b i =
     (if BUFSIZE \<le> i then None
      else if b i = 32 \<or> b i = 9 then whitespaces_from b (Suc i) else Some i)"
  by pat_completeness auto
termination
  by (relation "measure (\<lambda>(b, i). BUFSIZE - i)") auto

definition whitespaces :: "istate \<Rightarrow> istate option" where
  "whitespaces s = map_option (\<lambda>i. s\<lparr>bi := i\<rparr>) (whitespaces_from (ibuffer s) (bi s))"

text \<open>
  \<open>parsenumber\<close> (lines 2457--2466): at most \<open>SBUFSIZE\<close> digits; the result is the number of
  digits and the value, computed in \<open>number_t\<close>.
\<close>

fun parsenumber_loop :: "(nat \<Rightarrow> byte) \<Rightarrow> nat \<Rightarrow> nat \<Rightarrow> number_t \<Rightarrow> nat \<Rightarrow> nat \<times> number_t" where
  "parsenumber_loop b c nd r 0 = (nd, r)"
| "parsenumber_loop b c nd r (Suc k) =
     (if 48 \<le>s b c \<and> b c \<le>s 57 \<and> b c \<noteq> 0
      then parsenumber_loop b (Suc c) (Suc nd) (r * 10 + scast (b c) - 48) k
      else (nd, r))"

definition parsenumber :: "(nat \<Rightarrow> byte) \<Rightarrow> nat \<Rightarrow> nat \<times> number_t" where
  "parsenumber b c = parsenumber_loop b c 0 0 SBUFSIZE"

text \<open>The string scan of lines 2727--2730: the position of the closing quote or of the NUL.\<close>

function string_end :: "(nat \<Rightarrow> byte) \<Rightarrow> nat \<Rightarrow> nat option" where
  "string_end b i =
     (if BUFSIZE \<le> i then None
      else if b i \<noteq> 34 \<and> b i \<noteq> 0 then string_end b (Suc i) else Some i)"
  by pat_completeness auto
termination
  by (relation "measure (\<lambda>(b, i). BUFSIZE - i)") auto

text \<open>
  The word scan of lines 2801--2813: letters are counted and lower case letters are
  replaced by upper case ones in the buffer.  The result is the buffer and the end of the word.
\<close>

function word_scan :: "(nat \<Rightarrow> byte) \<Rightarrow> nat \<Rightarrow> ((nat \<Rightarrow> byte) \<times> nat) option" where
  "word_scan b i =
     (if BUFSIZE \<le> i then None
      else if 97 \<le>s b i \<and> b i \<le>s 122 then word_scan (b(i := b i - 32)) (Suc i)
      else if 64 \<le>s b i \<and> b i \<le>s 90 then word_scan b (Suc i)
      else Some (b, i))"
  by pat_completeness auto
termination
  by (relation "measure (\<lambda>(b, i). BUFSIZE - i)") auto

text \<open>
  The comparison of a keyword with the buffer at \<open>bi\<close> (lines 2830--2837): the number of
  characters compared equal if the whole keyword matches, 0 at the first mismatch.
\<close>

fun kw_match :: "string \<Rightarrow> (nat \<Rightarrow> byte) \<Rightarrow> nat \<Rightarrow> nat \<Rightarrow> nat" where
  "kw_match [] b p n = n"
| "kw_match (c # cs) b p n = (if of_char c \<noteq> b (p + n) then 0 else kw_match cs b p (Suc n))"

text \<open>
  The keyword loop (lines 2826--2849) from table entry \<open>i\<close> on: the entry that matched and
  the length of the match, or \<open>None\<close> when no keyword matches.
\<close>

fun kw_scan :: "string list \<Rightarrow> nat \<Rightarrow> (nat \<Rightarrow> byte) \<Rightarrow> nat \<Rightarrow> (nat \<times> nat) option" where
  "kw_scan [] i b p = None"
| "kw_scan (k # ks) i b p =
     (if kw_match k b p 0 = 0 then kw_scan ks (Suc i) b p else Some (i, kw_match k b p 0))"

text \<open>The variable branch (lines 2858--2883); \<open>n\<close> is the length of the word.\<close>

definition lex_variable :: "nat \<Rightarrow> istate \<Rightarrow> istate option" where
  "lex_variable n s =
     (let c = ibuffer s (bi s);
          s1 = s\<lparr>token := VARIABLE, xc := c, yc := 0, bi := bi s + 1\<rparr>;
          s2 = (if 48 \<le>s ibuffer s1 (bi s1) \<and> ibuffer s1 (bi s1) \<le>s 57
                then s1\<lparr>yc := ibuffer s1 (bi s1), bi := bi s1 + 1\<rparr> else s1);
          s3 = (if xc s2 = 64 \<and> n = 2
                then s2\<lparr>yc := ibuffer s2 (bi s2), bi := bi s2 + 1\<rparr> else s2);
          s4 = (if ibuffer s3 (bi s3) = 36 then s3\<lparr>token := STRINGVAR, bi := bi s3 + 1\<rparr> else s3)
      in case whitespaces s4 of
           None \<Rightarrow> None
         | Some s5 \<Rightarrow>
             Some (if token s5 = VARIABLE \<and> ibuffer s5 (bi s5) = 40
                   then s5\<lparr>token := ARRAYVAR\<rparr> else s5))"

text \<open>Keywords and variables (lines 2799--2891), entered with \<open>bi\<close> at a character that starts
  none of the other tokens.\<close>

definition lex_word :: "istate \<Rightarrow> istate option" where
  "lex_word s =
     (case word_scan (ibuffer s) (bi s) of
        None \<Rightarrow> None
      | Some (b, e) \<Rightarrow>
          (let n = e - bi s;
               s1 = s\<lparr>ibuffer := b, x := of_nat n\<rparr>
           in case kw_scan keyword 0 b (bi s) of
                Some (i, k) \<Rightarrow>
                  (let s2 = s1\<lparr>ir := KwP (BASEKEYWORD + of_nat i), xc := of_nat k, bi := bi s + k\<rparr>
                   in if b (bi s + k) <s 65 \<or> 90 <s b (bi s + k)
                      then Some (s2\<lparr>token := BASEKEYWORD + of_nat i\<rparr>)
                      else Some (s2\<lparr>token := UNKNOWN\<rparr>))
              | None \<Rightarrow>
                  (let s2 = s1\<lparr>ir := KwP (BASEKEYWORD + of_nat (length keyword - 1)), xc := 0,
                               token := BASEKEYWORD + of_nat (length keyword)\<rparr>
                   in if n = 1 \<or> (n = 2 \<and> b (bi s) = 64) then lex_variable n s2
                      else Some (s2\<lparr>token := b (bi s), bi := bi s + 1\<rparr>))))"

text \<open>The relational operators (lines 2749--2792).\<close>

definition lex_relation :: "istate \<Rightarrow> istate option" where
  "lex_relation s =
     (let c = ibuffer s (bi s) in
      case whitespaces (s\<lparr>bi := bi s + 1\<rparr>) of
        None \<Rightarrow> None
      | Some s1 \<Rightarrow>
          (let d = ibuffer s1 (bi s1) in
           Some (if c = 61 then
                   (if d = 62 then s1\<lparr>token := GREATEREQUAL, bi := bi s1 + 1\<rparr>
                    else if d = 60 then s1\<lparr>token := LESSEREQUAL, bi := bi s1 + 1\<rparr>
                    else s1\<lparr>token := 61\<rparr>)
                 else if c = 62 then
                   (if d = 61 then s1\<lparr>token := GREATEREQUAL, bi := bi s1 + 1\<rparr>
                    else s1\<lparr>token := 62\<rparr>)
                 else
                   (if d = 61 then s1\<lparr>token := LESSEREQUAL, bi := bi s1 + 1\<rparr>
                    else if d = 62 then s1\<lparr>token := NOTEQUAL, bi := bi s1 + 1\<rparr>
                    else s1\<lparr>token := 60\<rparr>))))"

text \<open>The interactive branch of \<open>nexttoken\<close> (lines 2697--2892).\<close>

definition lex_token :: "istate \<Rightarrow> istate option" where
  "lex_token s =
     (case whitespaces (if bi s = 0 then s\<lparr>bi := 1\<rparr> else s) of
        None \<Rightarrow> None
      | Some s1 \<Rightarrow>
          (let c = ibuffer s1 (bi s1) in
           if c = 0 then Some (s1\<lparr>token := EOL\<rparr>)
           else if c \<le>s 57 \<and> 48 \<le>s c then
             (case parsenumber (ibuffer s1) (bi s1) of
                (nd, r) \<Rightarrow> Some (s1\<lparr>x := r, bi := bi s1 + nd, token := NUMBER\<rparr>))
           else if c = 34 then
             (case string_end (ibuffer s1) (bi s1 + 1) of
                None \<Rightarrow> None
              | Some e \<Rightarrow>
                  Some (s1\<lparr>x := of_nat (e - (bi s1 + 1)), ir := BufP (bi s1 + 1), bi := e + 1,
                          token := STRING\<rparr>))
           else if c = 43 \<or> c = 45 \<or> c = 42 \<or> c = 47 \<or> c = 37 \<or> c = 92 \<or> c = 58 \<or> c = 44
                   \<or> c = 40 \<or> c = 41 then
             Some (s1\<lparr>token := c, bi := bi s1 + 1\<rparr>)
           else if c = 61 \<or> c = 62 \<or> c = 60 then lex_relation s1
           else lex_word s1))"

text \<open>\<open>nexttoken\<close> (lines 2689--2695).\<close>

definition nexttoken :: "istate \<Rightarrow> istate option" where
  "nexttoken s = (if st s = SRUN \<or> st s = SERUN then Some (gettoken s) else lex_token s)"

section \<open>The program store and the line editor\<close>

text \<open>
  \<open>nomemory\<close> (lines 2923--2925): the comparison is one of \<open>int\<close> values, and
  \<open>himem - b\<close> may be negative.
\<close>

definition nomemory :: "number_t \<Rightarrow> istate \<Rightarrow> bool" where
  "nomemory b s = (uint (himem s) - sint b \<le> uint (top' s))"

text \<open>What a \<open>char *\<close> points at.\<close>

definition deref :: "istate \<Rightarrow> ptr \<Rightarrow> nat \<Rightarrow> byte" where
  "deref s p i =
     (case p of
        MemP a \<Rightarrow> mem s (a + i)
      | BufP a \<Rightarrow> ibuffer s (a + i)
      | KwP t \<Rightarrow> 0
      | Null \<Rightarrow> 0)"

text \<open>The copy loop of \<open>storetoken\<close> (lines 2957--2960).\<close>

fun store_chars :: "nat \<Rightarrow> nat \<Rightarrow> istate \<Rightarrow> istate" where
  "store_chars j 0 s = s"
| "store_chars j (Suc k) s =
     store_chars (Suc j) k (s\<lparr>mem := (mem s)(unat (top' s) := deref s (ir s) j), top' := top' s + 1\<rparr>)"

text \<open>\<open>storetoken\<close> (lines 2928--2968).\<close>

definition storetoken :: "istate \<Rightarrow> istate option" where
  "storetoken s =
     (if token s = LINENUMBER then
        (if nomemory 3 s then error EOUTOFMEMORY s
         else let s1 = s\<lparr>mem := (mem s)(unat (top' s) := token s), top' := top' s + 1\<rparr>;
                  s2 = setnumber (top' s1) addrsize (set_za (ucast (x s1)) s1)
              in Some (s2\<lparr>top' := top' s2 + 2\<rparr>))
      else if token s = NUMBER then
        (if nomemory 5 s then error EOUTOFMEMORY s
         else let s1 = s\<lparr>mem := (mem s)(unat (top' s) := token s), top' := top' s + 1\<rparr>;
                  s2 = setnumber (top' s1) numsize (s1\<lparr>z := x s1\<rparr>)
              in Some (s2\<lparr>top' := top' s2 + 4\<rparr>))
      else if token s = ARRAYVAR \<or> token s = VARIABLE \<or> token s = STRINGVAR then
        (if nomemory 3 s then error EOUTOFMEMORY s
         else Some (s\<lparr>mem := (mem s)(unat (top' s) := token s, unat (top' s + 1) := xc s,
                                      unat (top' s + 2) := yc s),
                      top' := top' s + 3\<rparr>))
      else if token s = STRING then
        (if nomemory (x s + 2) s then error EOUTOFMEMORY s
         else let i = (ucast (x s) :: 16 word);
                  s1 = s\<lparr>mem := (mem s)(unat (top' s) := token s, unat (top' s + 1) := ucast i),
                         top' := top' s + 2\<rparr>;
                  s2 = store_chars 0 (nat (sint i)) s1
              in Some (case ir s2 of
                         MemP a \<Rightarrow> s2\<lparr>ir := MemP (a + nat (sint i))\<rparr>
                       | BufP a \<Rightarrow> s2\<lparr>ir := BufP (a + nat (sint i))\<rparr>
                       | KwP t \<Rightarrow> s2
                       | Null \<Rightarrow> s2))
      else
        (if nomemory 1 s then error EOUTOFMEMORY s
         else Some (s\<lparr>mem := (mem s)(unat (top' s) := token s), top' := top' s + 1\<rparr>)))"

text \<open>\<open>firstline\<close>, \<open>nextline\<close> and \<open>findline\<close> (lines 3033--3063).\<close>

definition firstline :: "istate \<Rightarrow> istate" where
  "firstline s = (if top' s = 0 then s\<lparr>x := 0\<rparr> else gettoken (s\<lparr>here := 0\<rparr>))"

partial_function (option) nextline :: "istate \<Rightarrow> istate option" where
  "nextline s =
     (if here s < top' s then
        (if token (gettoken s) = LINENUMBER then Some (gettoken s)
         else if top' (gettoken s) \<le> here (gettoken s)
              then Some ((gettoken s)\<lparr>here := top' (gettoken s), x := 0\<rparr>)
         else nextline (gettoken s))
      else Some s)"

partial_function (option) findline_loop :: "address_t \<Rightarrow> istate \<Rightarrow> istate option" where
  "findline_loop l s =
     (if here s < top' s then
        (if token (gettoken s) = LINENUMBER \<and> sint (x (gettoken s)) = uint l then Some (gettoken s)
         else findline_loop l (gettoken s))
      else error ELINE s)"

definition findline :: "address_t \<Rightarrow> istate \<Rightarrow> istate option" where
  "findline l s = findline_loop l (s\<lparr>here := 0\<rparr>)"

text \<open>
  \<open>moveblock\<close> (lines 3096--3116).  The two copy loops: \<open>move_down\<close> runs \<open>i\<close> from \<open>l\<close> down
  to 1 and copies \<open>mem[b+i-1]\<close> to \<open>mem[d+i-1]\<close>, \<open>move_up\<close> runs \<open>i\<close> upwards (\<open>k\<close> steps are
  left) and copies \<open>mem[b+i]\<close> to \<open>mem[d+i]\<close>.
\<close>

fun move_down :: "nat \<Rightarrow> nat \<Rightarrow> nat \<Rightarrow> (nat \<Rightarrow> byte) \<Rightarrow> (nat \<Rightarrow> byte)" where
  "move_down b d 0 m = m"
| "move_down b d (Suc i) m = move_down b d i (m(d + Suc i - 1 := m (b + Suc i - 1)))"

fun move_up :: "nat \<Rightarrow> nat \<Rightarrow> nat \<Rightarrow> nat \<Rightarrow> (nat \<Rightarrow> byte) \<Rightarrow> (nat \<Rightarrow> byte)" where
  "move_up b d i 0 m = m"
| "move_up b d i (Suc k) m = move_up b d (Suc i) k (m(d + i := m (b + i)))"

definition moveblock :: "address_t \<Rightarrow> address_t \<Rightarrow> address_t \<Rightarrow> istate \<Rightarrow> istate option" where
  "moveblock b l d s =
     (if unat (himem s) < unat d + unat l then error EOUTOFMEMORY s
      else if l < 1 then Some s
      else if b < d then Some (s\<lparr>mem := move_down (unat b) (unat d) (unat l) (mem s)\<rparr>)
      else Some (s\<lparr>mem := move_up (unat b) (unat d) 0 (unat l) (mem s)\<rparr>))"

text \<open>
  \<open>storeline\<close> (lines 3158--3283).  \<open>sl_append\<close> is the loop of stage 1 (\<open>nl\<close> is the local
  \<open>newline\<close>; the flag tells whether the line was stored), \<open>sl_scan\<close> the loop of stage 3
  with the locals \<open>here2\<close> and \<open>here3\<close>, \<open>sl_delete\<close> is stage 2 and \<open>sl_place\<close> stages 3
  and 4, both with the local \<open>linelength\<close>, a \<open>short\<close>.
\<close>

partial_function (option) sl_append :: "address_t \<Rightarrow> istate \<Rightarrow> (bool \<times> istate) option" where
  "sl_append nl s =
     (case storetoken s of
        None \<Rightarrow> None
      | Some s1 \<Rightarrow>
          if er s1 \<noteq> 0 then Some (False, s1\<lparr>top' := nl, here := 0\<rparr>)
          else (case nexttoken s1 of
                  None \<Rightarrow> None
                | Some s2 \<Rightarrow> if token s2 \<noteq> EOL then sl_append nl s2 else Some (True, s2)))"

partial_function (option) sl_scan ::
  "istate \<Rightarrow> address_t \<Rightarrow> address_t \<Rightarrow> (istate \<times> address_t \<times> address_t) option" where
  "sl_scan s h2 h3 =
     (if here s < top' s then
        (case nextline s of
           None \<Rightarrow> None
         | Some s1 \<Rightarrow> if sint (y s1) < sint (x s1) then Some (s1, here s, h2)
                      else sl_scan s1 (here s) h2)
      else Some (s, h2, h3))"

definition sl_delete :: "istate \<Rightarrow> istate option" where
  "sl_delete s =
     (let s1 = s\<lparr>top' := top' s - 3\<rparr>;
          s2 = s1\<lparr>y := x s1\<rparr>
      in case findline (ucast (y s2)) s2 of
           None \<Rightarrow> None
         | Some s3 \<Rightarrow>
             if er s3 \<noteq> 0 then Some s3
             else
               (case nextline (s3\<lparr>y := ucast (here s3) - 3\<rparr>) of
                  None \<Rightarrow> None
                | Some s5 \<Rightarrow>
                    (let s6 = s5\<lparr>here := here s5 - 3\<rparr> in
                     if x s6 \<noteq> 0 then
                       (case moveblock (here s6) (top' s6 - here s6) (ucast (y s6)) s6 of
                          None \<Rightarrow> None
                        | Some s7 \<Rightarrow> Some (s7\<lparr>top' := top' s7 - (here s7 - ucast (y s7))\<rparr>))
                     else Some (s6\<lparr>top' := ucast (y s6)\<rparr>))))"

definition sl_replace :: "address_t \<Rightarrow> address_t \<Rightarrow> istate \<Rightarrow> istate option" where
  "sl_replace ll here2 s =
     (if sint ll = sint (y s) then
        (case moveblock (top' s - ll) ll here2 s of
           None \<Rightarrow> None
         | Some s1 \<Rightarrow> Some (s1\<lparr>top' := top' s1 - ll\<rparr>))
      else if sint (y s) < sint ll then
        (case moveblock (here s) (top' s - here s) (here s + ll - ucast (y s)) s of
           None \<Rightarrow> None
         | Some s1 \<Rightarrow>
             (let s2 = s1\<lparr>here := here s1 + ll - ucast (y s1)\<rparr>;
                  s3 = s2\<lparr>top' := top' s2 + ll - ucast (y s2)\<rparr>
              in case moveblock (top' s3 - ll) ll here2 s3 of
                   None \<Rightarrow> None
                 | Some s4 \<Rightarrow> Some (s4\<lparr>top' := top' s4 - ll\<rparr>)))
      else
        (case moveblock (top' s - ll) ll here2 s of
           None \<Rightarrow> None
         | Some s1 \<Rightarrow>
             (let s2 = s1\<lparr>top' := top' s1 - ll\<rparr> in
              case moveblock (here s2) (top' s2 - here s2) (here2 + ll) s2 of
                None \<Rightarrow> None
              | Some s3 \<Rightarrow> Some (s3\<lparr>top' := top' s3 - ucast (y s3) + ll\<rparr>))))"

definition sl_place :: "address_t \<Rightarrow> istate \<Rightarrow> istate option" where
  "sl_place ll s =
     (case nextline (s\<lparr>y := x s, here := 3\<rparr>) of
        None \<Rightarrow> None
      | Some s2 \<Rightarrow>
          if x s2 = 0 then Some s2
          else
            (case sl_scan (s2\<lparr>here := 0\<rparr>) 0 0 of
               None \<Rightarrow> None
             | Some (s3, h2, h3) \<Rightarrow>
                 if x s3 = 0 then
                   (let s4 = gettoken (s3\<lparr>here := h3 - 3\<rparr>) in
                    if token s4 = LINENUMBER \<and> x s4 = y s4 then
                      (let s5 = s4\<lparr>here := here s4 - 3\<rparr> in
                       case moveblock (h2 - 3) ll (here s5) s5 of
                         None \<Rightarrow> None
                       | Some s6 \<Rightarrow> Some (s6\<lparr>top' := here s6 + ll\<rparr>))
                    else Some s4)
                 else
                   (let t1 = here s3 - 3;
                        t2 = h2 - 3;
                        s5 = gettoken (s3\<lparr>here := t2\<rparr>)
                    in if x s5 = y s5 then
                         sl_replace ll t2 (s5\<lparr>here := t1, y := ucast t1 - ucast t2\<rparr>)
                       else
                         (let s6 = s5\<lparr>here := t1\<rparr> in
                          case moveblock (here s6) (top' s6 - here s6) (here s6 + ll) s6 of
                            None \<Rightarrow> None
                          | Some s7 \<Rightarrow> moveblock (top' s7) ll (here s7) s7))))"

definition storeline :: "istate \<Rightarrow> istate option" where
  "storeline s =
     (if x s = 0 then error ELINE s
      else
        (case sl_append (top' s) (s\<lparr>here := top' s, token := LINENUMBER\<rparr>) of
           None \<Rightarrow> None
         | Some (stored, s2) \<Rightarrow>
             if \<not> stored then Some s2
             else
               (let s3 = s2\<lparr>x := ucast (ucast (x s) :: 16 word)\<rparr>;
                    ll = top' s3 - here s3
                in if ll = 3 then sl_delete s3 else sl_place ll s3)))"

text \<open>
  Character input (lines 2171--2247): \<open>fileread\<close>, \<open>inch\<close> and \<open>ins\<close>, the latter for the
  input buffer.  \<open>getchar\<close> and \<open>fgetc\<close> return -1 at the end of their input.
\<close>

definition fileread :: "istate \<Rightarrow> byte \<times> istate" where
  "fileread s =
     (case ifd s of
        None \<Rightarrow> (0, s\<lparr>ert := 1\<rparr>)
      | Some [] \<Rightarrow> (- 1, s\<lparr>ert := - 1\<rparr>)
      | Some (c # cs) \<Rightarrow> (c, if c = - 1 then s\<lparr>ifd := Some cs, ert := - 1\<rparr> else s\<lparr>ifd := Some cs\<rparr>))"

definition inch :: "istate \<Rightarrow> byte \<times> istate" where
  "inch s =
     (if id' s = ISERIAL then
        (case sin s of [] \<Rightarrow> (- 1, s) | c # cs \<Rightarrow> (c, s\<lparr>sin := cs\<rparr>))
      else if id' s = IFILE then fileread s
      else (0, s))"

fun ins_loop :: "nat \<Rightarrow> nat \<Rightarrow> istate \<Rightarrow> istate" where
  "ins_loop i 0 s = s"
| "ins_loop i (Suc k) s =
     (case inch s of
        (c, s1) \<Rightarrow>
          if c = 10 \<or> c = 13 then s1\<lparr>ibuffer := (ibuffer s1)(i := 0, 0 := of_nat (i - 1))\<rparr>
          else ins_loop (Suc i) k (s1\<lparr>ibuffer := (ibuffer s1)(i := c)\<rparr>))"

definition ins :: "istate \<Rightarrow> istate" where
  "ins s = ins_loop 1 (BUFSIZE - 2) s"

text \<open>
  One round of the interactive loop (lines 5785--5806) for an input line that starts
  with a line number: prompt, \<open>ins\<close>, the first token, \<open>storeline\<close>, \<open>reseterror\<close>.  (A line
  that does not start with a number is a statement to execute; \<open>statement\<close> is not part of
  this development, and such a line is left unexecuted here.)
\<close>

definition reseterror :: "istate \<Rightarrow> istate" where
  "reseterror s = s\<lparr>er := 0, here := 0, st := SINT\<rparr>"

definition loop_line :: "istate \<Rightarrow> istate option" where
  "loop_line s =
     (case printmessage 1 (iodefaults s) of
        None \<Rightarrow> None
      | Some s0 \<Rightarrow>
          (case nexttoken ((ins s0)\<lparr>bi := 0\<rparr>) of
             None \<Rightarrow> None
           | Some s1 \<Rightarrow>
               (case (if token s1 = NUMBER then storeline s1 else Some (s1\<lparr>st := SINT\<rparr>)) of
                  None \<Rightarrow> None
                | Some s2 \<Rightarrow> Some (if er s2 \<noteq> 0 then reseterror s2 else s2))))"

text \<open>The user types the given lines, each followed by a newline.\<close>

fun enter_lines :: "string list \<Rightarrow> istate \<Rightarrow> istate option" where
  "enter_lines [] s = Some s"
| "enter_lines (l # ls) s =
     (case loop_line (s\<lparr>sin := sin s @ map of_char l @ [10]\<rparr>) of
        None \<Rightarrow> None
      | Some s1 \<Rightarrow> enter_lines ls s1)"

text \<open>
  The enumeration of the stored program with \<open>firstline\<close> and \<open>nextline\<close>: the line
  numbers delivered in \<open>x\<close> until \<open>x\<close> is 0 (at most \<open>n\<close> of them), and the bytes of the
  program region.
\<close>

fun numbers_from :: "nat \<Rightarrow> istate \<Rightarrow> int list option" where
  "numbers_from 0 s = Some []"
| "numbers_from (Suc n) s =
     (if x s = 0 then Some []
      else case nextline s of
             None \<Rightarrow> None
           | Some s1 \<Rightarrow> map_option ((#) (sint (x s))) (numbers_from n s1))"

definition line_numbers :: "istate \<Rightarrow> int list option" where
  "line_numbers s = numbers_from (unat (top' s)) (firstline s)"

definition program_bytes :: "istate \<Rightarrow> byte list" where
  "program_bytes s = map (mem s) [0..<unat (top' s)]"

section \<open>The heap: variables, arrays and strings\<close>

text \<open>
  \<open>bfind\<close> (lines 1417--1446).  \<open>bfind_loop\<close> is the \<open>while\<close> loop with \<open>k\<close> iterations left
  and the local \<open>b\<close>; the result is the address returned and the state (with the length of
  the object last visited in \<open>z.a\<close>).
\<close>

fun bfind_loop :: "byte \<Rightarrow> byte \<Rightarrow> byte \<Rightarrow> nat \<Rightarrow> address_t \<Rightarrow> istate \<Rightarrow> address_t \<times> istate" where
  "bfind_loop t c d 0 b s = (0, s)"
| "bfind_loop t c d (Suc k) b s =
     (let c1 = mem s (unat b);
          d1 = mem s (unat (b - 1));
          t1 = mem s (unat (b - 2));
          s1 = (if t1 = VARIABLE then set_za 4 s else getnumber (b - 3 - 1) addrsize s);
          b1 = (if t1 = VARIABLE then b - 3 else b - 3 - 1 - 1);
          b2 = b1 - za s1
      in if c1 = c \<and> d1 = d \<and> t1 = t then (b2 + 1, s1) else bfind_loop t c d k b2 s1)"

definition bfind :: "byte \<Rightarrow> byte \<Rightarrow> byte \<Rightarrow> istate \<Rightarrow> address_t \<times> istate" where
  "bfind t c d s = bfind_loop t c d (unat (nvars s)) (memsize s) s"

text \<open>\<open>blength\<close> (lines 1449--1452).\<close>

definition blength :: "byte \<Rightarrow> byte \<Rightarrow> byte \<Rightarrow> istate \<Rightarrow> address_t \<times> istate" where
  "blength t c d s = (case bfind t c d s of (a, s1) \<Rightarrow> if a = 0 then (0, s1) else (za s1, s1))"

text \<open>
  \<open>bmalloc\<close> (lines 1361--1412); \<open>l\<close> is a \<open>short\<close>, and the size \<open>vsize\<close> is an
  \<open>address_t\<close>, so it is the size computed in \<open>int\<close> reduced modulo \<open>2^16\<close>.
\<close>

definition bmalloc :: "byte \<Rightarrow> byte \<Rightarrow> byte \<Rightarrow> 16 word \<Rightarrow> istate \<Rightarrow> (address_t \<times> istate) option" where
  "bmalloc t c d l s =
     (case bfind t c d s of
        (b, s1) \<Rightarrow>
          if b \<noteq> 0 then map_option (Pair 0) (error EVARIABLE s1)
          else
            (let vsize = (if t = VARIABLE then 4 + 3
                          else if t = ARRAYVAR then 4 * l + 2 + 3
                          else l + 2 + 3)
             in if uint (himem s1) - uint (top' s1) < uint vsize
                then map_option (Pair 0) (error EOUTOFMEMORY s1)
                else
                  (let b = himem s1;
                       s2 = s1\<lparr>mem := (mem s1)(unat b := c, unat (b - 1) := d, unat (b - 2) := t)\<rparr>;
                       s3 = (if t = ARRAYVAR \<or> t = STRINGVAR
                             then setnumber (b - 3 - 1) addrsize (set_za (vsize - 5) s2) else s2);
                       s4 = s3\<lparr>himem := himem s3 - vsize, nvars := nvars s3 + 1\<rparr>
                   in Some (himem s4 + 1, s4))))"

text \<open>
  The layout of the heap that \<open>bmalloc\<close> builds and \<open>bfind\<close> walks (lines 1361--1446).  The
  object whose name byte is at \<open>b\<close> has its type at \<open>b - 2\<close>; a variable has a header of 3 bytes
  and a payload of \<open>numsize\<close> bytes, any other object a header of \<open>3 + addrsize\<close> bytes with the
  payload length stored at \<open>b - 4\<close> and \<open>b - 3\<close>.  \<open>heap_chain k b s\<close> walks \<open>k\<close> objects downwards
  from \<open>b\<close> as the loop of \<open>bfind\<close> does and gives the address below the last one, or nothing
  when an object would reach below address 0.  \<open>heap_ok\<close> says that the \<open>nvars\<close> objects counted
  from \<open>memsize\<close> end exactly at \<open>himem\<close>: it holds after \<open>clrvars\<close> and is what every
  allocation without overflow keeps.
\<close>

definition obj_type :: "istate \<Rightarrow> address_t \<Rightarrow> byte" where
  "obj_type s b = mem s (unat (b - 2))"

definition obj_size :: "istate \<Rightarrow> address_t \<Rightarrow> address_t" where
  "obj_size s b = (if obj_type s b = VARIABLE then 4 else za (getnumber (b - 3 - 1) addrsize s))"

definition obj_header :: "istate \<Rightarrow> address_t \<Rightarrow> nat" where
  "obj_header s b = (if obj_type s b = VARIABLE then 3 else 3 + addrsize)"

fun heap_chain :: "nat \<Rightarrow> address_t \<Rightarrow> istate \<Rightarrow> address_t option" where
  "heap_chain 0 b s = Some b"
| "heap_chain (Suc k) b s =
     (if unat b < obj_header s b + unat (obj_size s b) then None
      else heap_chain k (b - of_nat (obj_header s b) - obj_size s b) s)"


text \<open>\<open>clrvars\<close> (lines 1564--1568).\<close>

definition clrvars :: "istate \<Rightarrow> istate" where
  "clrvars s = s\<lparr>vars := (\<lambda>i. if i < VARSIZE then 0 else vars s i), nvars := 0, himem := memsize s\<rparr>"

text \<open>
  \<open>getvar\<close> and \<open>setvar\<close> (lines 1462--1561); \<open>checkch\<close> is always true in this build.
  The test \<open>c >= 65 && c <= 91\<close> admits the name \<open>[\<close> (91), whose index 26 lies outside the
  array \<open>vars[26]\<close>: that access has no defined result.
\<close>

definition getvar :: "byte \<Rightarrow> byte \<Rightarrow> istate \<Rightarrow> (number_t \<times> istate) option" where
  "getvar c d s =
     (if 65 \<le>s c \<and> c \<le>s 91 \<and> d = 0
        then (if unat (c - 65) < VARSIZE then Some (vars s (unat (c - 65)), s) else None)
      else if c = 64 \<and> d = 83 then Some (scast (ert s), s)
      else if c = 64 \<and> d = 73 then Some (ucast (id' s), s)
      else if c = 64 \<and> d = 79 then Some (ucast (od s), s)
      else if c = 64 \<and> d = 67 then (case inch s of (ch, s1) \<Rightarrow> Some (scast ch, s1))
      else if c = 64 \<and> d = 82 then Some (ucast (rd s), s)
      else
        (case bfind VARIABLE c d s of
           (a, s1) \<Rightarrow>
             if a = 0 then
               (case bmalloc VARIABLE c d 0 s1 of
                  None \<Rightarrow> None
                | Some (a', s2) \<Rightarrow>
                    if er s2 \<noteq> 0 then Some (0, s2)
                    else Some (z (getnumber a' numsize s2), getnumber a' numsize s2))
             else Some (z (getnumber a numsize s1), getnumber a numsize s1)))"

definition setvar :: "byte \<Rightarrow> byte \<Rightarrow> number_t \<Rightarrow> istate \<Rightarrow> istate option" where
  "setvar c d v s =
     (if 65 \<le>s c \<and> c \<le>s 91 \<and> d = 0
        then (if unat (c - 65) < VARSIZE then Some (s\<lparr>vars := (vars s)(unat (c - 65) := v)\<rparr>) else None)
      else if c = 64 \<and> d = 83 then Some (s\<lparr>ert := ucast v\<rparr>)
      else if c = 64 \<and> d = 73 then Some (s\<lparr>id' := ucast v\<rparr>)
      else if c = 64 \<and> d = 79 then Some (s\<lparr>od := ucast v\<rparr>)
      else if c = 64 \<and> d = 67 then Some (outch (ucast v) s)
      else if c = 64 \<and> d = 82 then Some (s\<lparr>rd := ucast v\<rparr>)
      else
        (case bfind VARIABLE c d s of
           (a, s1) \<Rightarrow>
             if a = 0 then
               (case bmalloc VARIABLE c d 0 s1 of
                  None \<Rightarrow> None
                | Some (a', s2) \<Rightarrow>
                    if er s2 \<noteq> 0 then Some s2
                    else Some (setnumber a' numsize (s2\<lparr>z := v\<rparr>)))
             else Some (setnumber a numsize (s1\<lparr>z := v\<rparr>))))"

text \<open>\<open>createstring\<close> (lines 1732--1739).\<close>

definition createstring :: "byte \<Rightarrow> byte \<Rightarrow> address_t \<Rightarrow> istate \<Rightarrow> istate option" where
  "createstring c d i s =
     (case bfind STRINGVAR c d s of
        (a, s1) \<Rightarrow>
          if a \<noteq> 0 then error EVARIABLE s1
          else map_option snd (bmalloc STRINGVAR c d (i + 2) s1))"

text \<open>\<open>createarray\<close> (lines 1640--1647).\<close>

definition createarray :: "byte \<Rightarrow> byte \<Rightarrow> address_t \<Rightarrow> istate \<Rightarrow> istate option" where
  "createarray c d i s =
     (case bfind ARRAYVAR c d s of
        (a, s1) \<Rightarrow>
          if a \<noteq> 0 then error EVARIABLE s1
          else map_option snd (bmalloc ARRAYVAR c d i s1))"

text \<open>\<open>getstring\<close> (lines 1742--1778): the pointer returned and the state.\<close>

definition getstring :: "byte \<Rightarrow> byte \<Rightarrow> address_t \<Rightarrow> istate \<Rightarrow> (ptr \<times> istate) option" where
  "getstring c d b s =
     (if c = 64 then Some (BufP (unat b), s)
      else
        (case bfind STRINGVAR c d s of
           (a, s1) \<Rightarrow>
             if er s1 \<noteq> 0 then Some (Null, s1)
             else if a = 0 then map_option (Pair Null) (error EVARIABLE s1)
             else if uint b < 1 \<or> uint (za s1) - 2 < uint b
                  then map_option (Pair Null) (error ERANGE s1)
             else Some (MemP (unat (a + b - 1 + 2)), s1)))"

text \<open>\<open>stringdim\<close>, \<open>lenstring\<close> and \<open>setstringlength\<close> (lines 1797--1840).\<close>

definition stringdim :: "byte \<Rightarrow> byte \<Rightarrow> istate \<Rightarrow> number_t \<times> istate" where
  "stringdim c d s =
     (if c = 64 then (91, s)
      else case blength STRINGVAR c d s of (n, s1) \<Rightarrow> (ucast n - 2, s1))"

definition lenstring :: "byte \<Rightarrow> byte \<Rightarrow> istate \<Rightarrow> number_t \<times> istate" where
  "lenstring c d s =
     (if c = 64 then (scast (ibuffer s 0), s)
      else
        (case bfind STRINGVAR c d s of
           (a, s1) \<Rightarrow>
             if er s1 \<noteq> 0 then (0, s1)
             else (ucast (za (getnumber a strindexsize s1)), getnumber a strindexsize s1)))"

definition setstringlength :: "byte \<Rightarrow> byte \<Rightarrow> address_t \<Rightarrow> istate \<Rightarrow> istate option" where
  "setstringlength c d l s =
     (if c = 64 then Some (s\<lparr>ibuffer := (ibuffer s)(0 := ucast l)\<rparr>)
      else
        (case bfind STRINGVAR c d s of
           (a, s1) \<Rightarrow>
             if er s1 \<noteq> 0 then Some s1
             else if a = 0 then error EVARIABLE s1
             else if l < za s1 then Some (setnumber a strindexsize (set_za l s1))
             else error ERANGE s1))"

text \<open>
  The string branch of \<open>assignment\<close> (lines 4053--4091 and 4162), entered after
  \<open>lefthandside\<close> and \<open>stringvalue\<close>: the name of the destination is \<open>xcl\<close>, \<open>ycl\<close>, its
  start index is \<open>i\<close>, \<open>ir2\<close> points at the source, its length is on the evaluation
  stack, and \<open>x\<close> is as \<open>stringvalue\<close> left it.  The two copy loops write through \<open>ir\<close>
  and read through \<open>ir2\<close>; \<open>HASSTEFANSEXT\<close> is defined.
\<close>

definition ptr_write :: "ptr \<Rightarrow> nat \<Rightarrow> byte \<Rightarrow> istate \<Rightarrow> istate" where
  "ptr_write p j v s =
     (case p of
        MemP a \<Rightarrow> s\<lparr>mem := (mem s)(a + j := v)\<rparr>
      | BufP a \<Rightarrow> s\<lparr>ibuffer := (ibuffer s)(a + j := v)\<rparr>
      | KwP t \<Rightarrow> s
      | Null \<Rightarrow> s)"

fun copy_up :: "nat \<Rightarrow> nat \<Rightarrow> istate \<Rightarrow> istate" where
  "copy_up j 0 s = s"
| "copy_up j (Suc k) s = copy_up (Suc j) k (ptr_write (ir s) j (deref s (ir2 s) j) s)"

fun copy_down :: "nat \<Rightarrow> istate \<Rightarrow> istate" where
  "copy_down 0 s = s"
| "copy_down (Suc j) s = copy_down j (ptr_write (ir s) j (deref s (ir2 s) j) s)"

definition assign_string :: "byte \<Rightarrow> byte \<Rightarrow> address_t \<Rightarrow> istate \<Rightarrow> istate option" where
  "assign_string xcl ycl i s =
     (case pop s of
        None \<Rightarrow> None
      | Some (v, s1) \<Rightarrow>
          (let lensource = (ucast v :: address_t) in
           case getstring xcl ycl i s1 of
             None \<Rightarrow> None
           | Some (p, s2) \<Rightarrow>
               if er s2 \<noteq> 0 then Some (s2\<lparr>ir := p\<rparr>)
               else
                 (case lenstring xcl ycl (s2\<lparr>ir := p\<rparr>) of
                    (ld, s3) \<Rightarrow>
                      (let lendest = (ucast ld :: address_t) in
                       case stringdim xcl ycl s3 of
                         (dim, s4) \<Rightarrow>
                           if sint dim < uint i + uint lensource - 1 then error ERANGE s4
                           else
                             (let s5 = (if uint i < sint (x s4) then copy_up 0 (unat lensource) s4
                                        else copy_down (unat lensource) s4);
                                  newlength = (if uint lendest < uint i + uint lensource
                                               then i + lensource - 1 else lendest)
                              in case setstringlength xcl ycl newlength s5 of
                                   None \<Rightarrow> None
                                 | Some s6 \<Rightarrow> nexttoken s6)))))"

section \<open>FOR and NEXT\<close>

text \<open>The FOR stack (lines 2057--2097).\<close>

definition pushforstack :: "istate \<Rightarrow> istate option" where
  "pushforstack s =
     (if forsp s < FORDEPTH then
        Some (s\<lparr>forstack := (forstack s)(forsp s :=
                  \<lparr>varx = xc s, vary = yc s, fhere = here s, fto = x s, fstep = y s\<rparr>),
                forsp := forsp s + 1\<rparr>)
      else error EFOR s)"

definition popforstack :: "istate \<Rightarrow> istate option" where
  "popforstack s =
     (if 0 < forsp s then
        (let r = forstack s (forsp s - 1) in
         Some (s\<lparr>forsp := forsp s - 1, xc := varx r, yc := vary r, here := fhere r,
                 x := fto r, y := fstep r\<rparr>))
      else error EFOR s)"

definition dropforstack :: "istate \<Rightarrow> istate option" where
  "dropforstack s = (if 0 < forsp s then Some (s\<lparr>forsp := forsp s - 1\<rparr>) else error EFOR s)"

text \<open>\<open>termsymbol\<close> (lines 3297--3299).\<close>

definition termsymbol :: "istate \<Rightarrow> bool" where
  "termsymbol s = (token s = LINENUMBER \<or> token s = 58 \<or> token s = EOL)"

text \<open>\<open>findnext\<close> (lines 4363--4376); the error raised at the end of the program is \<open>TFOR\<close>.\<close>

partial_function (option) findnext :: "istate \<Rightarrow> istate option" where
  "findnext s =
     (if token s = TNEXT \<and> fnc s = 0 then Some s
      else if top' s \<le> here s
        then error TFOR (s\<lparr>fnc := (if token s = TNEXT then fnc s - 1
                                   else if token s = TFOR then fnc s + 1 else fnc s)\<rparr>)
      else
        (case nexttoken (s\<lparr>fnc := (if token s = TNEXT then fnc s - 1
                                    else if token s = TFOR then fnc s + 1 else fnc s)\<rparr>) of
           None \<Rightarrow> None
         | Some s1 \<Rightarrow> findnext s1))"

text \<open>
  The body of \<open>xfor\<close> after its header \<open>FOR v = e1 TO e2 [STEP e3]\<close> has been read
  (lines 4432--4450): the variable \<open>xcl\<close>, \<open>ycl\<close> has been set to the initial value, the
  limit is on the evaluation stack, \<open>y\<close> holds the step and the token is the one that
  ends the statement.
\<close>

definition xfor_skip :: "istate \<Rightarrow> istate option" where
  "xfor_skip s =
     (case dropforstack s of
        None \<Rightarrow> None
      | Some s1 \<Rightarrow> (case findnext s1 of None \<Rightarrow> None | Some s2 \<Rightarrow> nexttoken s2))"

definition xfor_body :: "byte \<Rightarrow> byte \<Rightarrow> istate \<Rightarrow> istate option" where
  "xfor_body xcl ycl s =
     (case pop s of
        None \<Rightarrow> None
      | Some (v, s0) \<Rightarrow>
          (let s1 = s0\<lparr>x := v\<rparr>;
               s2 = (if st s1 = SINT then s1\<lparr>here := of_nat (bi s1)\<rparr> else s1)
           in case pushforstack (s2\<lparr>xc := xcl, yc := ycl\<rparr>) of
                None \<Rightarrow> None
              | Some s3 \<Rightarrow>
                  if er s3 \<noteq> 0 then Some s3
                  else if 0 <s y s3 then
                    (case getvar (xc s3) (yc s3) s3 of
                       None \<Rightarrow> None
                     | Some (w, s4) \<Rightarrow> if x s4 <s w then xfor_skip s4 else Some s4)
                  else if y s3 <s 0 then
                    (case getvar (xc s3) (yc s3) s3 of
                       None \<Rightarrow> None
                     | Some (w, s4) \<Rightarrow> if w <s x s4 then xfor_skip s4 else Some s4)
                  else Some s3))"

text \<open>
  \<open>xnext\<close> (lines 4463--4509).  \<open>xnext_head\<close> reads the optional variable: its result is
  the local \<open>xcl\<close> (0 for a plain NEXT) with \<open>ycl\<close>, or nothing after a syntax error.
  \<open>xnext_loop\<close> is the part from the label \<open>plainnext\<close> on.
\<close>

definition xnext_head :: "istate \<Rightarrow> ((byte \<times> byte) option \<times> istate) option" where
  "xnext_head s =
     (case nexttoken s of
        None \<Rightarrow> None
      | Some s1 \<Rightarrow>
          if termsymbol s1 then Some (Some (0, 0), s1)
          else if token s1 = VARIABLE then
            (case nexttoken s1 of
               None \<Rightarrow> None
             | Some s2 \<Rightarrow>
                 if \<not> termsymbol s2 then map_option (Pair None) (error EUNKNOWN s2)
                 else Some (Some (xc s1, yc s1), s2))
          else Some (Some (0, 0), s1))"

definition backtofor :: "istate \<Rightarrow> istate option" where
  "backtofor s =
     (case pushforstack s of
        None \<Rightarrow> None
      | Some s1 \<Rightarrow> nexttoken (if st s1 = SINT then s1\<lparr>bi := unat (here s1)\<rparr> else s1))"

definition xnext_loop :: "byte \<Rightarrow> byte \<Rightarrow> istate \<Rightarrow> istate option" where
  "xnext_loop xcl ycl s =
     (let h = here s in
      case popforstack s of
        None \<Rightarrow> None
      | Some s1 \<Rightarrow>
          if xcl \<noteq> 0 \<and> (xcl \<noteq> xc s1 \<or> ycl \<noteq> yc s1) then error EFOR s1
          else if y s1 = 0 then backtofor s1
          else
            (case getvar (xc s1) (yc s1) s1 of
               None \<Rightarrow> None
             | Some (w, s2) \<Rightarrow>
                 (let t = w + y s2 in
                  case setvar (xc s2) (yc s2) t s2 of
                    None \<Rightarrow> None
                  | Some s3 \<Rightarrow>
                      if 0 <s y s3 \<and> t \<le>s x s3 then backtofor s3
                      else if y s3 <s 0 \<and> x s3 \<le>s t then backtofor s3
                      else nexttoken (s3\<lparr>here := h\<rparr>))))"

definition xnext :: "istate \<Rightarrow> istate option" where
  "xnext s =
     (case xnext_head s of
        None \<Rightarrow> None
      | Some (None, s1) \<Rightarrow> Some s1
      | Some (Some (xcl, ycl), s1) \<Rightarrow> xnext_loop xcl ycl s1)"

text \<open>The condition of the statement loop of \<open>xrun\<close> (line 4639).\<close>

definition run_continues :: "istate \<Rightarrow> bool" where
  "run_continues s = (here s < top' s \<and> (st s = SRUN \<or> st s = SERUN) \<and> er s = 0)"

text \<open>
  \<open>xrun\<close> for \<open>RUN\<close> without an argument, from the point where the (empty) argument list
  has been parsed up to the statement loop (lines 4629--4637): \<open>here\<close> is reset, the mode
  becomes \<open>SRUN\<close>, and \<open>xclr\<close> (lines 4681--4690) clears the variables and the stacks and
  reads the first token.
\<close>

definition xrun_start :: "istate \<Rightarrow> istate option" where
  "xrun_start s =
     nexttoken (clrforstack (clrgosubstack (clrvars
       (s\<lparr>here := 0, st := (if st s = SINT then SRUN else st s)\<rparr>))))"

section \<open>Functions of the expression evaluator\<close>

text \<open>
  \<open>rnd\<close> (lines 3459--3467).  The products are computed in \<open>int\<close> and in \<open>long\<close> and do
  not overflow; \<open>/\<close> is the division of C, which truncates towards zero.
\<close>

definition rnd :: "istate \<Rightarrow> istate option" where
  "rnd s =
     (case pop s of
        None \<Rightarrow> None
      | Some (r, s1) \<Rightarrow>
          (let s2 = s1\<lparr>rd := of_nat ((31421 * unat (rd s1) + 6927) mod 65536)\<rparr> in
           if 0 \<le>s r then push (of_int ((uint (rd s2) * sint r) sdiv 65536)) s2
           else push (of_int ((uint (rd s2) * sint r) sdiv 65536 + 1)) s2))"

text \<open>
  \<open>peek\<close> (lines 3431--3447) and the part of \<open>xpoke\<close> after its two arguments have been
  evaluated (lines 4756--4764).  \<open>memsize\<close> never exceeds \<open>maxnum\<close>, so \<open>amax\<close> is
  \<open>memsize\<close>.  The address \<open>a\<close> is an \<open>address_t\<close>: the comparisons \<open>a >= 0\<close> and \<open>a < 0\<close> are
  made on its value as an unsigned number.
\<close>

definition eupdate :: "address_t \<Rightarrow> byte \<Rightarrow> istate \<Rightarrow> istate" where
  "eupdate i c s = s\<lparr>eeprom := (eeprom s)(unat i := c)\<rparr>"

definition peek :: "istate \<Rightarrow> istate option" where
  "peek s =
     (case pop s of
        None \<Rightarrow> None
      | Some (v, s1) \<Rightarrow>
          (let a = (ucast v :: address_t); amax = memsize s1 in
           if 0 \<le> uint a \<and> a < amax then push (scast (mem s1 (unat a))) s1
           else if uint a < 0 \<and> - uint a < uint (elen s1)
             then push (scast (eread s1 (of_int (- uint a - 1)))) s1
           else error ERANGE s1))"

definition xpoke_body :: "istate \<Rightarrow> istate option" where
  "xpoke_body s =
     (case pop s of
        None \<Rightarrow> None
      | Some (v, s0) \<Rightarrow>
          (case pop (s0\<lparr>y := v\<rparr>) of
             None \<Rightarrow> None
           | Some (w, s1) \<Rightarrow>
               (let a = (ucast w :: address_t); amax = memsize s1 in
                if 0 \<le> uint a \<and> a < amax then Some (s1\<lparr>mem := (mem s1)(unat a := ucast (y s1))\<rparr>)
                else if uint a < 0 \<and> - uint (elen s1) \<le> uint a
                  then Some (eupdate (of_int (- uint a - 1)) (ucast (y s1)) s1)
                else error ERANGE s1)))"

text \<open>
  The state after \<open>setup\<close> (lines 5752--5782) with a memory of \<open>m + 1\<close> bytes: \<open>xnew\<close> has
  zeroed the memory, every other variable has its static initial value.
\<close>

definition boot :: "address_t \<Rightarrow> istate" where
  "boot m = \<lparr> mem = (\<lambda>a. 0), memsize = m, himem = m, top' = 0, here = 0, nvars = 0,
     stack = (\<lambda>i. 0), sp = 0,
     forstack = (\<lambda>i. \<lparr>varx = 0, vary = 0, fhere = 0, fto = 0, fstep = 0\<rparr>), forsp = 0, fnc = 0,
     gosubstack = (\<lambda>i. 0), gosubsp = 0, x = 0, y = 0, xc = 0, yc = 0, z = 0,
     ir = Null, ir2 = Null, token = 0, er = 0, ert = 0, st = SINT, rd = 0,
     id' = ISERIAL, od = OSERIAL, idd = ISERIAL, odd' = OSERIAL, form = 0, vars = (\<lambda>i. 0),
     ibuffer = (\<lambda>i. 0), bi = 0,
     sout = [], sin = [], ofd = None, ifd = None, elen = 0, eeprom = (\<lambda>a. 0) \<rparr>"

text \<open>The value at the head of the evaluation stack of a result state, and its generator state.\<close>

definition pushed :: "istate option \<Rightarrow> int option" where
  "pushed r = (case r of None \<Rightarrow> None | Some s \<Rightarrow> Some (sint (stack s (unat (sp s - 1)))))"

definition rd_of :: "istate option \<Rightarrow> int option" where
  "rd_of r = (case r of None \<Rightarrow> None | Some s \<Rightarrow> Some (uint (rd s)))"

text \<open>The state without its token registers (used to state what a token read leaves unchanged).\<close>

definition core :: "istate \<Rightarrow> istate" where
  "core s = s\<lparr>token := 0, here := 0, x := 0, xc := 0, yc := 0, z := 0, ir := Null\<rparr>"

text \<open>The loops of the line editor are evaluated by their recursion equations.\<close>

declare nextline.simps [code] sl_append.simps [code] sl_scan.simps [code] findline_loop.simps [code]

section \<open>Properties\<close>

subsection \<open>Arithmetic of machine integers\<close>

lemma sdiv_nonneg: "0 \<le> (k::int) \<Longrightarrow> k sdiv 65536 = k div 65536"
  by (simp add: signed_divide_int_def sgn_if)

lemma sdiv_neg: "(k::int) \<le> 0 \<Longrightarrow> k sdiv 65536 = - ((- k) div 65536)"
  by (simp add: signed_divide_int_def sgn_if)

lemma sint_of_int_32: "- (2 ^ 31) \<le> k \<Longrightarrow> k < 2 ^ 31 \<Longrightarrow> sint (of_int k :: 32 word) = k"
  by (simp add: sint_sbintrunc' signed_take_bit_int_eq_self)

lemma uint_rd: "uint (of_nat (n mod 65536) :: 16 word) = int n mod 65536"
  by (simp add: uint_nat unat_of_nat zmod_int)

lemma scale_bound:
  assumes "0 \<le> r" "r < 65536" "0 \<le> (b::int)"
  shows "0 \<le> (r * b) div 65536" and "(r * b) div 65536 \<le> b"
proof -
  show "0 \<le> (r * b) div 65536" using assms by (simp add: pos_imp_zdiv_nonneg_iff)
  have "r * b \<le> 65536 * b" using assms by (simp add: mult_right_mono)
  then have "(r * b) div 65536 \<le> (65536 * b) div 65536" by (rule zdiv_mono1) simp
  then show "(r * b) div 65536 \<le> b" by simp
qed

subsection \<open>The token registers\<close>

text \<open>
  Reading a token changes the registers \<open>token\<close>, \<open>here\<close>, \<open>x\<close>, \<open>xc\<close>, \<open>yc\<close>, \<open>z\<close> and
  \<open>ir\<close> only: two states with the same \<open>core\<close> agree on everything else.
\<close>

lemma getbytes_z: "\<exists>v. getbytes i m k s = s\<lparr>z := v\<rparr>"
proof (induction k arbitrary: i m s)
  case 0
  have "getbytes i m 0 s = s\<lparr>z := z s\<rparr>" by simp
  then show ?case by blast
next
  case (Suc k)
  obtain v where "getbytes (Suc i) (m + 1) k (set_zc i (mem s (unat m)) s)
      = (set_zc i (mem s (unat m)) s)\<lparr>z := v\<rparr>"
    using Suc by blast
  then have "getbytes i m (Suc k) s = s\<lparr>z := v\<rparr>" by (simp add: set_zc_def)
  then show ?case by blast
qed

lemma getnumber_z: "\<exists>v. getnumber m n s = s\<lparr>z := v\<rparr>"
proof -
  obtain v where v: "getbytes 0 m n (s\<lparr>z := 0\<rparr>) = s\<lparr>z := 0\<rparr>\<lparr>z := v\<rparr>" using getbytes_z by blast
  show ?thesis
  proof (cases "n = 1")
    case True
    then have "getnumber m n s = s\<lparr>z := scast (mem s (unat m))\<rparr>" by (simp add: getnumber_def)
    then show ?thesis by blast
  next
    case False
    show ?thesis
    proof (cases "n = 2")
      case True
      then have "getnumber m n s = s\<lparr>z := z (getnumber m n s)\<rparr>"
        by (simp add: getnumber_def set_zc_def)
      then show ?thesis by blast
    next
      case False
      with \<open>n \<noteq> 1\<close> v have "getnumber m n s = s\<lparr>z := v\<rparr>" by (simp add: getnumber_def)
      then show ?thesis by blast
    qed
  qed
qed

lemma egetbytes_z: "\<exists>v. egetbytes i m k s = s\<lparr>z := v\<rparr>"
proof (induction k arbitrary: i m s)
  case 0
  have "egetbytes i m 0 s = s\<lparr>z := z s\<rparr>" by simp
  then show ?case by blast
next
  case (Suc k)
  obtain v where "egetbytes (Suc i) (m + 1) k (set_zc i (eread s m) s)
      = (set_zc i (eread s m) s)\<lparr>z := v\<rparr>"
    using Suc by blast
  then have "egetbytes i m (Suc k) s = s\<lparr>z := v\<rparr>" by (simp add: set_zc_def eread_def)
  then show ?case by blast
qed

lemma egetnumber_z: "\<exists>v. egetnumber m n s = s\<lparr>z := v\<rparr>"
proof -
  obtain v where v: "egetbytes 0 m n (s\<lparr>z := 0\<rparr>) = s\<lparr>z := 0\<rparr>\<lparr>z := v\<rparr>" using egetbytes_z by blast
  show ?thesis
  proof (cases "n = 1")
    case True
    then have "egetnumber m n s = s\<lparr>z := scast (eread s m)\<rparr>" by (simp add: egetnumber_def)
    then show ?thesis by blast
  next
    case False
    show ?thesis
    proof (cases "n = 2")
      case True
      then have "egetnumber m n s = s\<lparr>z := z (egetnumber m n s)\<rparr>"
        by (simp add: egetnumber_def set_zc_def)
      then show ?thesis by blast
    next
      case False
      with \<open>n \<noteq> 1\<close> v have "egetnumber m n s = s\<lparr>z := v\<rparr>" by (simp add: egetnumber_def)
      then show ?thesis by blast
    qed
  qed
qed

lemma core_upd [simp]:
  "core (s\<lparr>z := v\<rparr>) = core s"
  "core (s\<lparr>token := t\<rparr>) = core s"
  "core (s\<lparr>here := h\<rparr>) = core s"
  "core (s\<lparr>x := n\<rparr>) = core s"
  "core (s\<lparr>xc := c\<rparr>) = core s"
  "core (s\<lparr>yc := c\<rparr>) = core s"
  "core (s\<lparr>ir := p\<rparr>) = core s"
  by (simp_all add: core_def)

lemma core_getnumber [simp]: "core (getnumber m n s) = core s"
  using getnumber_z [of m n s] by (elim exE) simp

lemma core_egetnumber [simp]: "core (egetnumber m n s) = core s"
  using egetnumber_z [of m n s] by (elim exE) simp

lemma core_gettoken [simp]: "core (gettoken s) = core s"
  by (simp add: gettoken_def Let_def)

lemma core_fields:
  "mem (core s) = mem s" "top' (core s) = top' s" "himem (core s) = himem s"
  "memsize (core s) = memsize s" "nvars (core s) = nvars s" "st (core s) = st s"
  "er (core s) = er s" "od (core s) = od s" "id' (core s) = id' s" "sout (core s) = sout s"
  "form (core s) = form s" "eeprom (core s) = eeprom s" "elen (core s) = elen s"
  "sp (core s) = sp s" "stack (core s) = stack s" "forsp (core s) = forsp s"
  "forstack (core s) = forstack s" "gosubsp (core s) = gosubsp s" "fnc (core s) = fnc s"
  "ert (core s) = ert s" "ofd (core s) = ofd s" "ibuffer (core s) = ibuffer s" "bi (core s) = bi s"
  "rd (core s) = rd s" "vars (core s) = vars s" "y (core s) = y s" "ir2 (core s) = ir2 s"
  "sin (core s) = sin s" "ifd (core s) = ifd s" "gosubstack (core s) = gosubstack s"
  "odd' (core s) = odd' s" "idd (core s) = idd s"
  by (simp_all add: core_def)

lemma getnumber_here [simp]: "here (getnumber m n s) = here s"
  using getnumber_z [of m n s] by (elim exE) simp

lemma egetnumber_here [simp]: "here (egetnumber m n s) = here s"
  using egetnumber_z [of m n s] by (elim exE) simp

lemma word_adv:
  fixes h :: "16 word"
  assumes "unat h < 65278" and "k \<le> 257"
  shows "unat (h + of_nat k) = unat h + k"
proof -
  have "unat (of_nat k :: 16 word) = k" using assms by (simp add: unat_of_nat)
  moreover have "unat h + k < 2 ^ 16" using assms by simp
  ultimately show ?thesis using unat_add_lem [of h "of_nat k"] by simp
qed

lemma gettoken_here_cases:
  assumes "here s < top' s"
  shows "\<exists>k. 1 \<le> k \<and> k \<le> 257 \<and> here (gettoken s) = here s + of_nat k"
proof -
  have nt: "\<not> top' s \<le> here s" using assms by simp
  let ?t = "memread s (here s)"
  let ?n = "memread (s\<lparr>token := ?t, here := here s + 1\<rparr>) (here s + 1)"
  have n: "unat ?n < 256" using unsigned_less [of ?n, where ?'a = nat] by simp
  consider (ln) "?t = LINENUMBER" | (num) "?t = NUMBER"
    | (var) "?t = ARRAYVAR \<or> ?t = VARIABLE \<or> ?t = STRINGVAR" | (str) "?t = STRING"
    | (other) "?t \<noteq> LINENUMBER" "?t \<noteq> NUMBER" "?t \<noteq> ARRAYVAR" "?t \<noteq> VARIABLE"
        "?t \<noteq> STRINGVAR" "?t \<noteq> STRING"
    by blast
  then show ?thesis
  proof cases
    case ln
    then have "here (gettoken s) = here s + of_nat 3" using nt by (simp add: gettoken_def Let_def)
    then show ?thesis by (intro exI [of _ 3]) simp
  next
    case num
    then have "here (gettoken s) = here s + of_nat 5" using nt by (simp add: gettoken_def Let_def)
    then show ?thesis by (intro exI [of _ 5]) simp
  next
    case var
    then have "here (gettoken s) = here s + of_nat 3" using nt
      by (auto simp add: gettoken_def Let_def)
    then show ?thesis by (intro exI [of _ 3]) simp
  next
    case str
    then have "here (gettoken s) = here s + of_nat (2 + unat ?n)" using nt
      by (simp add: gettoken_def Let_def)
    then show ?thesis using n by (intro exI [of _ "2 + unat ?n"]) simp
  next
    case other
    then have "here (gettoken s) = here s + of_nat 1" using nt by (simp add: gettoken_def Let_def)
    then show ?thesis by (intro exI [of _ 1]) simp
  qed
qed

lemma gettoken_progress:
  assumes "here s < top' s" and "unat (top' s) \<le> 65278"
  shows "unat (here s) < unat (here (gettoken s))"
proof -
  have h: "unat (here s) < 65278" using assms by (simp add: word_less_nat_alt)
  obtain k where k: "1 \<le> k" "k \<le> 257" "here (gettoken s) = here s + of_nat k"
    using gettoken_here_cases [OF assms(1)] by blast
  then show ?thesis using word_adv [OF h k(2)] by simp
qed

lemma core_eqD:
  assumes "core a = core b"
  shows "mem a = mem b" "top' a = top' b" "himem a = himem b" "memsize a = memsize b"
    "nvars a = nvars b" "st a = st b" "er a = er b" "od a = od b" "id' a = id' b"
    "sout a = sout b" "form a = form b" "eeprom a = eeprom b" "elen a = elen b"
    "sp a = sp b" "stack a = stack b" "forsp a = forsp b" "forstack a = forstack b"
    "gosubsp a = gosubsp b" "fnc a = fnc b" "ert a = ert b" "ofd a = ofd b"
    "ibuffer a = ibuffer b" "bi a = bi b" "rd a = rd b" "vars a = vars b" "y a = y b"
    "ir2 a = ir2 b" "sin a = sin b" "ifd a = ifd b" "gosubstack a = gosubstack b"
    "odd' a = odd' b" "idd a = idd b"
  using arg_cong [OF assms, of mem] arg_cong [OF assms, of top'] arg_cong [OF assms, of himem]
    arg_cong [OF assms, of memsize] arg_cong [OF assms, of nvars] arg_cong [OF assms, of st]
    arg_cong [OF assms, of er] arg_cong [OF assms, of od] arg_cong [OF assms, of id']
    arg_cong [OF assms, of sout] arg_cong [OF assms, of form] arg_cong [OF assms, of eeprom]
    arg_cong [OF assms, of elen] arg_cong [OF assms, of sp] arg_cong [OF assms, of stack]
    arg_cong [OF assms, of forsp] arg_cong [OF assms, of forstack] arg_cong [OF assms, of gosubsp]
    arg_cong [OF assms, of fnc] arg_cong [OF assms, of ert] arg_cong [OF assms, of ofd]
    arg_cong [OF assms, of ibuffer] arg_cong [OF assms, of bi] arg_cong [OF assms, of rd]
    arg_cong [OF assms, of vars] arg_cong [OF assms, of y] arg_cong [OF assms, of ir2]
    arg_cong [OF assms, of sin] arg_cong [OF assms, of ifd] arg_cong [OF assms, of gosubstack]
    arg_cong [OF assms, of odd'] arg_cong [OF assms, of idd]
  by (simp_all only: core_fields)

lemma gettoken_top: "top' (gettoken s) = top' s"
  by (rule core_eqD [OF core_gettoken])

subsection \<open>The error routine returns\<close>

lemma myline_loop_terminates:
  assumes "unat (top' s) \<le> 65278"
  shows "\<exists>s' l' l1'. myline_loop h s l l1 = Some (s', l', l1') \<and> core s' = core s"
  using assms
proof (induction "unat (top' s) - unat (here s)" arbitrary: s l l1 rule: less_induct)
  case less
  show ?case
  proof (cases "here s < top' s")
    case False
    then have "myline_loop h s l l1 = Some (s, l, l1)" by (subst myline_loop.simps) simp
    then show ?thesis by simp
  next
    case True
    show ?thesis
    proof (cases "h \<le> here s")
      case h: True
      with True have "myline_loop h s l l1
          = Some (s, if token s = LINENUMBER then (ucast (x s), l) else (l, l1))"
        by (subst myline_loop.simps) simp
      then show ?thesis by (cases "token s = LINENUMBER") simp_all
    next
      case h: False
      let ?s = "gettoken s"
      let ?l = "if token s = LINENUMBER then ucast (x s) else l"
      let ?l1 = "if token s = LINENUMBER then l else l1"
      have step: "myline_loop h s l l1 = myline_loop h ?s ?l ?l1"
        using True h by (subst myline_loop.simps) simp
      have "unat (here s) < unat (top' s)" using True by (simp add: word_less_nat_alt)
      moreover have "unat (here s) < unat (here ?s)"
        using gettoken_progress [OF True less.prems] .
      ultimately have dec: "unat (top' ?s) - unat (here ?s) < unat (top' s) - unat (here s)"
        by (simp add: gettoken_top)
      have "unat (top' ?s) \<le> 65278" using less.prems by (simp add: gettoken_top)
      from less.hyps [OF dec this, of ?l ?l1] obtain s' l' l1' where
        "myline_loop h ?s ?l ?l1 = Some (s', l', l1')" "core s' = core ?s" by blast
      then show ?thesis using step by simp
    qed
  qed
qed

lemma myline_terminates:
  assumes "unat (top' s) \<le> 65278"
  shows "\<exists>ln s'. myline h s = Some (ln, s') \<and> core s' = core s \<and> here s' = here s"
proof -
  let ?s0 = "gettoken (s\<lparr>here := 0\<rparr>)"
  have "unat (top' ?s0) \<le> 65278" using assms by (simp add: gettoken_top)
  from myline_loop_terminates [OF this, of h 0 0] obtain s1 l l1 where
    r: "myline_loop h ?s0 0 0 = Some (s1, l, l1)" and c: "core s1 = core ?s0" by blast
  have "myline h s = Some (if token s1 = LINENUMBER then l1 else l, s1\<lparr>here := here s\<rparr>)"
    by (simp add: myline_def r)
  moreover have "core (s1\<lparr>here := here s\<rparr>) = core s" using c by simp
  ultimately show ?thesis by simp
qed

text \<open>
  What \<open>outsc\<close> does depends on the stream selected by \<open>od\<close>: the serial stream and the
  file receive the text, the display and the printer of this configuration nothing.
\<close>

lemma outsc_append: "outsc (a @ b) s = outsc b (outsc a s)"
  by (induction a arbitrary: s) simp_all

lemma outch_od [simp]: "od (outch c s) = od s"
  by (simp add: outch_def serialwrite_def filewrite_def split: option.splits)

lemma outsc_od [simp]: "od (outsc m s) = od s"
  by (induction m arbitrary: s) simp_all

lemma outsc_serial: "od s = OSERIAL \<Longrightarrow> outsc m s = s\<lparr>sout := sout s @ m\<rparr>"
proof (induction m arbitrary: s)
  case Nil
  then show ?case by simp
next
  case (Cons c m)
  have "od (outch c s) = OSERIAL" using Cons.prems by simp
  from Cons.IH [OF this] show ?case using Cons.prems by (simp add: outch_def serialwrite_def)
qed

lemma outsc_sout: "sout (outsc m s) = (if od s = OSERIAL then sout s @ m else sout s)"
proof (induction m arbitrary: s)
  case Nil
  then show ?case by simp
next
  case (Cons c m)
  have "sout (outch c s) = (if od s = OSERIAL then sout s @ [c] else sout s)"
    by (simp add: outch_def serialwrite_def filewrite_def split: option.splits)
  then show ?case by (simp add: Cons.IH)
qed

lemma outsc_ofd:
  "ofd (outsc m s) = (if od s = OFILE then map_option (\<lambda>f. f @ m) (ofd s) else ofd s)"
proof (induction m arbitrary: s)
  case Nil
  then show ?case by (cases "ofd s") simp_all
next
  case (Cons c m)
  have "ofd (outch c s) = (if od s = OFILE then map_option (\<lambda>f. f @ [c]) (ofd s) else ofd s)"
    by (simp add: outch_def serialwrite_def filewrite_def split: option.splits)
  then show ?case by (cases "ofd s") (simp_all add: Cons.IH)
qed

lemma outch_frame:
  "\<exists>so f r. outch c s = s\<lparr>sout := so, ofd := f, ert := r\<rparr>"
proof -
  have "s = s\<lparr>sout := sout s, ofd := ofd s, ert := ert s\<rparr>" by simp
  moreover have "serialwrite c s = s\<lparr>sout := sout s @ [c], ofd := ofd s, ert := ert s\<rparr>"
    by (simp add: serialwrite_def)
  moreover have "filewrite c s = s\<lparr>sout := sout s, ofd := ofd (filewrite c s), ert := ert (filewrite c s)\<rparr>"
    by (simp add: filewrite_def split: option.splits)
  ultimately show ?thesis unfolding outch_def by metis
qed

lemma outsc_frame:
  "\<exists>so f r. outsc m s = s\<lparr>sout := so, ofd := f, ert := r\<rparr>"
proof (induction m arbitrary: s)
  case Nil
  have "outsc [] s = s\<lparr>sout := sout s, ofd := ofd s, ert := ert s\<rparr>" by simp
  then show ?case by blast
next
  case (Cons c m)
  obtain so f r where a: "outch c s = s\<lparr>sout := so, ofd := f, ert := r\<rparr>"
    using outch_frame by blast
  obtain so' f' r' where "outsc m (outch c s) = (outch c s)\<lparr>sout := so', ofd := f', ert := r'\<rparr>"
    using Cons by blast
  then have "outsc (c # m) s = s\<lparr>sout := so', ofd := f', ert := r'\<rparr>" by (simp add: a)
  then show ?case by blast
qed

lemma outsc_fields [simp]:
  "mem (outsc m s) = mem s" "top' (outsc m s) = top' s" "himem (outsc m s) = himem s"
  "memsize (outsc m s) = memsize s" "nvars (outsc m s) = nvars s" "st (outsc m s) = st s"
  "er (outsc m s) = er s" "id' (outsc m s) = id' s" "odd' (outsc m s) = odd' s"
  "idd (outsc m s) = idd s" "form (outsc m s) = form s" "sp (outsc m s) = sp s"
  "forsp (outsc m s) = forsp s" "gosubsp (outsc m s) = gosubsp s" "vars (outsc m s) = vars s"
  "here (outsc m s) = here s" "stack (outsc m s) = stack s" "eeprom (outsc m s) = eeprom s"
  using outsc_frame [of m s] by (elim exE, simp)+

lemma core_outsc: "core (outsc m s) = outsc m (core s)"
proof (induction m arbitrary: s)
  case Nil
  then show ?case by simp
next
  case (Cons c m)
  have "core (outch c s) = outch c (core s)"
    by (simp add: outch_def serialwrite_def filewrite_def core_def split: option.splits)
  then show ?case by (simp add: Cons.IH)
qed

lemma getmessage_valid:
  assumes "0 \<le>s e" and "unat e < 23"
  shows "getmessage e = Some (map of_char (message ! unat e))"
  using assms by (simp add: getmessage_def message_def)

lemma printmessage_valid:
  assumes "0 \<le>s e" and "unat e < 23"
  shows "printmessage e s = Some (outsc (map of_char (message ! unat e)) s)"
  using assms by (simp add: printmessage_def getmessage_valid)

lemma error_tail:
  assumes e: "0 \<le>s e" "unat e < 23"
  shows "(case printmessage e s1 of
        None \<Rightarrow> None
      | Some s2 \<Rightarrow>
          (case printmessage EGENERAL (outspc s2) of
             None \<Rightarrow> None
           | Some s3 \<Rightarrow> Some (iodefaults (clrgosubstack (clrforstack (clearst (outcr s3))))))) =
    Some ((outsc (error_text e) s1)\<lparr>sp := 0, forsp := 0, fnc := 0, gosubsp := 0,
            od := odd' s1, id' := idd s1\<rparr>)"
proof -
  have g: "(0::byte) \<le>s EGENERAL" "unat EGENERAL < 23" by (simp_all add: word_sle_eq)
  have m3: "map of_char (message ! 3) = (map of_char ''Error'' :: byte list)"
    by (simp add: message_def)
  have sp: "outspc t = outsc [32] t" and cr: "outcr t = outsc [10] t" for t
    by (simp_all add: outspc_def outcr_def)
  have "outcr (outsc (map of_char ''Error'') (outspc (outsc (map of_char (message ! unat e)) s1)))
      = outsc (error_text e) s1"
    unfolding sp cr error_text_def outsc_append ..
  then show ?thesis
    by (simp add: printmessage_valid [OF e] printmessage_valid [OF g] m3
        iodefaults_def clrgosubstack_def clrforstack_def clearst_def)
qed

text \<open>
  The result of \<open>error\<close>, up to the token registers (which the search for the line number
  uses): the text \<open>pre\<close> and the message have gone to the default output stream, and the
  stacks are empty.
\<close>

lemma error_result:
  assumes e: "0 \<le>s e" "unat e < 23" and t: "st s = SINT \<or> unat (top' s) \<le> 65278"
  shows "\<exists>s' pre. error e s = Some s' \<and> here s' = here s
    \<and> core s' = core ((outsc (pre @ error_text e) (s\<lparr>er := e, od := odd' s, id' := idd s\<rparr>))
          \<lparr>sp := 0, forsp := 0, fnc := 0, gosubsp := 0\<rparr>)
    \<and> (if st s = SINT then pre = []
        else \<exists>ln s1. myline (here s) (s\<lparr>er := e, od := odd' s, id' := idd s\<rparr>) = Some (ln, s1)
               \<and> pre = number_text (form s) (ucast ln) @ [58, 32])"
proof (cases "st s = SINT")
  case True
  let ?s0 = "s\<lparr>er := e, od := odd' s, id' := idd s\<rparr>"
  let ?r = "(outsc (error_text e) ?s0)\<lparr>sp := 0, forsp := 0, fnc := 0, gosubsp := 0\<rparr>"
  have p: "error_prefix ?s0 = Some ?s0" using True by (simp add: error_prefix_def)
  have "error e s = Some ((outsc (error_text e) ?s0)\<lparr>sp := 0, forsp := 0, fnc := 0, gosubsp := 0,
      od := odd' ?s0, id' := idd ?s0\<rparr>)"
    unfolding error_def p option.case by (rule error_tail [OF e])
  moreover have "(outsc (error_text e) ?s0)\<lparr>sp := 0, forsp := 0, fnc := 0, gosubsp := 0,
      od := odd' ?s0, id' := idd ?s0\<rparr> = ?r"
    using outsc_frame [of "error_text e" ?s0] by (elim exE) simp
  ultimately have "error e s = Some ?r" by simp
  then show ?thesis using True
    by (intro exI [of _ ?r] exI [of _ "[]"]) simp
next
  case False
  let ?s0 = "s\<lparr>er := e, od := odd' s, id' := idd s\<rparr>"
  have "unat (top' ?s0) \<le> 65278" using t False by simp
  from myline_terminates [OF this, of "here ?s0"] obtain ln s1 where
    m: "myline (here s) ?s0 = Some (ln, s1)" and c: "core s1 = core ?s0" and h: "here s1 = here s"
    by auto
  have f1: "form s1 = form s" "odd' s1 = odd' s" "idd s1 = idd s"
    using core_eqD [OF c] by simp_all
  let ?pre = "number_text (form s) (ucast ln) @ [58, 32]"
  let ?r = "(outsc (?pre @ error_text e) s1)\<lparr>sp := 0, forsp := 0, fnc := 0, gosubsp := 0,
      od := odd' s, id' := idd s\<rparr>"
  have "outspc (outch 58 (outnumber (ucast ln) s1)) = outsc ?pre s1"
    by (simp add: outnumber_def outsc_append outspc_def f1)
  then have p: "error_prefix ?s0 = Some (outsc ?pre s1)"
    using False by (simp add: error_prefix_def m)
  have "error e s = Some ((outsc (error_text e) (outsc ?pre s1))\<lparr>sp := 0, forsp := 0, fnc := 0,
      gosubsp := 0, od := odd' (outsc ?pre s1), id' := idd (outsc ?pre s1)\<rparr>)"
    unfolding error_def p option.case by (rule error_tail [OF e])
  moreover have "odd' (outsc ?pre s1) = odd' s" "idd (outsc ?pre s1) = idd s"
    by (simp_all only: outsc_fields f1)
  moreover have "outsc (error_text e) (outsc ?pre s1) = outsc (?pre @ error_text e) s1"
    by (simp only: outsc_append)
  ultimately have r: "error e s = Some ?r" by (simp only:)
  have cr: "core (a\<lparr>sp := 0, forsp := 0, fnc := 0, gosubsp := 0, od := odd' s, id' := idd s\<rparr>)
      = (core a)\<lparr>sp := 0, forsp := 0, fnc := 0, gosubsp := 0, od := odd' s, id' := idd s\<rparr>" for a
    by (simp add: core_def)
  have "core (outsc (?pre @ error_text e) s1) = core (outsc (?pre @ error_text e) ?s0)"
    by (simp only: core_outsc c)
  then have "core ?r = core ((outsc (?pre @ error_text e) ?s0)\<lparr>sp := 0, forsp := 0, fnc := 0,
      gosubsp := 0, od := odd' s, id' := idd s\<rparr>)"
    by (simp only: cr)
  moreover have "(outsc (?pre @ error_text e) ?s0)\<lparr>sp := 0, forsp := 0, fnc := 0,
      gosubsp := 0, od := odd' s, id' := idd s\<rparr>
    = (outsc (?pre @ error_text e) ?s0)\<lparr>sp := 0, forsp := 0, fnc := 0, gosubsp := 0\<rparr>"
    using outsc_frame [of "?pre @ error_text e" ?s0] by (elim exE) simp
  ultimately have c': "core ?r = core ((outsc (?pre @ error_text e) ?s0)\<lparr>sp := 0, forsp := 0,
      fnc := 0, gosubsp := 0\<rparr>)" by (simp only:)
  have "here ?r = here s" using h by simp
  with r c' False m show ?thesis
    by (intro exI [of _ ?r] exI [of _ ?pre]) simp
qed

text \<open>What the result of \<open>error\<close> holds in the variables that are no token registers.\<close>

lemma error_fields:
  assumes "core s' = core ((outsc m (s\<lparr>er := e, od := odd' s, id' := idd s\<rparr>))
          \<lparr>sp := 0, forsp := 0, fnc := 0, gosubsp := 0\<rparr>)"
  shows "er s' = e" "sp s' = 0" "forsp s' = 0" "gosubsp s' = 0" "od s' = odd' s" "id' s' = idd s"
    "odd' s' = odd' s" "idd s' = idd s" "mem s' = mem s" "vars s' = vars s" "top' s' = top' s"
    "himem s' = himem s" "memsize s' = memsize s" "st s' = st s" "nvars s' = nvars s"
    "sout s' = (if odd' s = OSERIAL then sout s @ m else sout s)"
    "ofd s' = (if odd' s = OFILE then map_option (\<lambda>f. f @ m) (ofd s) else ofd s)"
  using core_eqD [OF assms] by (simp_all add: outsc_sout outsc_ofd)

text \<open>The definitions that a token read unfolds to.\<close>

lemmas run_defs = gettoken_def memread_def getnumber_def egetnumber_def eread_def set_zc_def
  set_za_def za_def zc_def Let_def

subsection \<open>C8: the error routine\<close>

text \<open>
  C8.  For every error number \<open>e\<close> (an index of the message table), \<open>error e\<close> returns
  with \<open>er = e\<close>, the evaluation stack, the FOR stack and the GOSUB stack empty and the
  input and output streams reset to the defaults \<open>idd\<close> and \<open>odd\<close>, and it has sent to the
  default output stream the message, " Error" and a newline, preceded by the line number
  \<open>myline(here)\<close>, a colon and a space exactly when the interpreter is not in interactive
  mode: the text is appended to the serial output when \<open>odd\<close> is \<open>OSERIAL\<close> and to the open
  file when \<open>odd\<close> is \<open>OFILE\<close>; the display and the printer are absent in this
  configuration.  (In run mode \<open>myline\<close> scans the program store: this returns when \<open>top\<close>
  is at most 65278, as it is in a memory of at most 60000 bytes, so that no token wraps
  around the 16-bit address space.  \<open>error\<close> is also called with the token codes \<open>TFOR\<close> and
  \<open>UNKNOWN\<close>, which are no indices of the table.)
\<close>

theorem error_resets:
  assumes "0 \<le>s e" and "unat e < length message"
    and "st s = SINT \<or> unat (top' s) \<le> 65278"
  shows "\<exists>s' pre. error e s = Some s' \<and> er s' = e \<and> sp s' = 0 \<and> forsp s' = 0 \<and> gosubsp s' = 0
      \<and> od s' = odd' s \<and> id' s' = idd s
      \<and> sout s' = (if odd' s = OSERIAL then sout s @ pre @ error_text e else sout s)
      \<and> ofd s' = (if odd' s = OFILE then map_option (\<lambda>f. f @ pre @ error_text e) (ofd s) else ofd s)
      \<and> (if st s = SINT then pre = []
          else \<exists>ln s1. myline (here s) (s\<lparr>er := e, od := odd' s, id' := idd s\<rparr>) = Some (ln, s1)
                 \<and> pre = number_text (form s) (ucast ln) @ [58, 32])"
proof -
  have e: "unat e < 23" using assms(2) by (simp add: message_def)
  from error_result [OF assms(1) e assms(3)] obtain s' pre where
    r: "error e s = Some s'"
    and c: "core s' = core ((outsc (pre @ error_text e) (s\<lparr>er := e, od := odd' s, id' := idd s\<rparr>))
          \<lparr>sp := 0, forsp := 0, fnc := 0, gosubsp := 0\<rparr>)"
    and p: "if st s = SINT then pre = []
        else \<exists>ln s1. myline (here s) (s\<lparr>er := e, od := odd' s, id' := idd s\<rparr>) = Some (ln, s1)
               \<and> pre = number_text (form s) (ucast ln) @ [58, 32]"
    by blast
  from r error_fields [OF c] p show ?thesis by blast
qed

text \<open>
  The theorem for a division by zero in line 10 of a running program whose output had been
  redirected to a file.
\<close>

theorem error_resets_witness:
  "(0::byte) \<le>s 6 \<and> unat (6::byte) < length message
   \<and> (st (boot 127\<lparr>mem := (mem (boot 127))(0 := LINENUMBER, 1 := 10, 2 := 0, 3 := - 118),
            top' := 4, here := 4, st := SRUN, sp := 3, forsp := 2, gosubsp := 1, od := OFILE\<rparr>) = SINT
        \<or> unat (top' (boot 127\<lparr>mem := (mem (boot 127))(0 := LINENUMBER, 1 := 10, 2 := 0, 3 := - 118),
            top' := 4, here := 4, st := SRUN, sp := 3, forsp := 2, gosubsp := 1, od := OFILE\<rparr>)) \<le> 65278)
   \<and> (\<exists>s'. error 6 (boot 127\<lparr>mem := (mem (boot 127))(0 := LINENUMBER, 1 := 10, 2 := 0, 3 := - 118),
            top' := 4, here := 4, st := SRUN, sp := 3, forsp := 2, gosubsp := 1, od := OFILE\<rparr>) = Some s'
        \<and> er s' = 6 \<and> sp s' = 0 \<and> forsp s' = 0 \<and> gosubsp s' = 0 \<and> od s' = OSERIAL \<and> id' s' = ISERIAL
        \<and> sout s' = map of_char ''10: Div by 0 Error'' @ [10])"
proof -
  let ?w = "boot 127\<lparr>mem := (mem (boot 127))(0 := LINENUMBER, 1 := 10, 2 := 0, 3 := - 118),
            top' := 4, here := 4, st := SRUN, sp := 3, forsp := 2, gosubsp := 1, od := OFILE\<rparr>"
  have h1: "(0::byte) \<le>s 6" by (simp add: word_sle_eq)
  have h2: "unat (6::byte) < length message" by (simp add: message_def)
  have h3: "st ?w = SINT \<or> unat (top' ?w) \<le> 65278" by simp
  have d: "odd' ?w = OSERIAL" "idd ?w = ISERIAL" by (simp_all add: boot_def)
  have ml: "map_option fst (myline (here ?w) (?w\<lparr>er := 6, od := odd' ?w, id' := idd ?w\<rparr>)) = Some 10"
    by (simp add: myline_def boot_def run_defs myline_loop.simps)
  from error_resets [OF h1 h2 h3] obtain s' pre where
    r: "error 6 ?w = Some s'" "er s' = 6" "sp s' = 0" "forsp s' = 0" "gosubsp s' = 0"
      "od s' = odd' ?w" "id' s' = idd ?w"
    and o: "sout s' = (if odd' ?w = OSERIAL then sout ?w @ pre @ error_text 6 else sout ?w)"
    and q: "if st ?w = SINT then pre = []
          else \<exists>ln s1. myline (here ?w) (?w\<lparr>er := 6, od := odd' ?w, id' := idd ?w\<rparr>) = Some (ln, s1)
                 \<and> pre = number_text (form ?w) (ucast ln) @ [58, 32]"
    by blast
  have "st ?w \<noteq> SINT" by simp
  with q obtain ln s1 where
    m: "myline (here ?w) (?w\<lparr>er := 6, od := odd' ?w, id' := idd ?w\<rparr>) = Some (ln, s1)"
    and p: "pre = number_text (form ?w) (ucast ln) @ [58, 32]"
    by (simp only: if_False) blast
  have "ln = 10" using ml m by simp
  then have "sout s' = map of_char ''10: Div by 0 Error'' @ [10]"
    using o p d by (simp add: boot_def number_text_def writenumber_def error_text_def message_def)
  with r d h1 h2 h3 show ?thesis by (simp only:) blast
qed

subsection \<open>C9: the random number generator\<close>

text \<open>
  C9 (as the code has it).  A call of \<open>rnd\<close> with its argument \<open>a\<close> on the evaluation
  stack replaces the generator state \<open>rd\<close> by \<open>(31421 * rd + 6927) mod 2^16\<close> and the
  argument by \<open>\<lfloor>rd * a / 2^16\<rfloor>\<close> for \<open>a \<ge> 0\<close>; for a negative \<open>a\<close> the quotient is the
  one of C, truncated towards zero, plus 1, that is \<open>- \<lfloor>rd * (- a) / 2^16\<rfloor> + 1\<close>
  (\<open>rd\<close> being the new generator state).
\<close>

theorem rnd_update:
  assumes "sp s \<noteq> 0" and "sp s \<le> STACKSIZE"
  shows "\<exists>s'. rnd s = Some s' \<and> sp s' = sp s
     \<and> uint (rd s') = (31421 * uint (rd s) + 6927) mod 2 ^ 16
     \<and> sint (stack s' (unat (sp s - 1))) =
        (let a = sint (stack s (unat (sp s - 1))) in
         if 0 \<le> a then (uint (rd s') * a) div 2 ^ 16
         else - ((uint (rd s') * (- a)) div 2 ^ 16) + 1)"
proof -
  define a where "a = sint (stack s (unat (sp s - 1)))"
  define r where "r = (31421 * uint (rd s) + 6927) mod 65536"
  define s2 where "s2 = s\<lparr>sp := sp s - 1, rd := of_nat ((31421 * unat (rd s) + 6927) mod 65536)\<rparr>"
  have r0: "0 \<le> r" and r1: "r < 65536" by (simp_all add: r_def)
  have rd': "uint (rd s2) = r"
    unfolding r_def s2_def by (simp add: uint_rd)
  have a0: "- (2 ^ 31) \<le> a" and a1: "a < 2 ^ 31"
    using sint_ge [of "stack s (unat (sp s - 1))"] sint_lt [of "stack s (unat (sp s - 1))"]
    by (simp_all add: a_def)
  have ne: "sp s - 1 \<noteq> STACKSIZE" using assms by unat_arith
  have popeq: "pop s = Some (stack s (unat (sp s - 1)), s\<lparr>sp := sp s - 1\<rparr>)"
    using assms by (simp add: pop_def)
  show ?thesis
  proof (cases "0 \<le> a")
    case True
    have v: "(r * a) sdiv 65536 = (r * a) div 65536" using True r0 by (simp add: sdiv_nonneg)
    have b: "0 \<le> (r * a) div 65536" "(r * a) div 65536 \<le> a"
      using scale_bound [OF r0 r1 True] by simp_all
    have sv: "sint (of_int ((r * a) div 65536) :: 32 word) = (r * a) div 65536"
      using b a1 by (intro sint_of_int_32) simp_all
    have "rnd s = push (of_int ((r * a) div 65536)) s2"
      using True v rd' by (simp add: rnd_def popeq Let_def word_sle_eq a_def s2_def)
    then show ?thesis using ne sv rd' True
      by (simp add: push_def s2_def a_def r_def Let_def)
  next
    case False
    then have neg: "r * a \<le> 0" using r0 by (simp add: mult_nonneg_nonpos)
    have v: "(r * a) sdiv 65536 = - ((r * (- a)) div 65536)" using neg by (simp add: sdiv_neg)
    have b: "0 \<le> (r * (- a)) div 65536" "(r * (- a)) div 65536 \<le> - a"
      using scale_bound [OF r0 r1, of "- a"] False by simp_all
    have sv: "sint (of_int (- ((r * (- a)) div 65536) + 1) :: 32 word)
        = - ((r * (- a)) div 65536) + 1"
      using b a0 by (intro sint_of_int_32) simp_all
    have "rnd s = push (of_int (- ((r * (- a)) div 65536) + 1)) s2"
      using False v rd' by (simp add: rnd_def popeq Let_def word_sle_eq a_def s2_def)
    then show ?thesis using ne sv rd' False
      by (simp add: push_def s2_def a_def r_def Let_def)
  qed
qed

text \<open>The theorem at \<open>RND(-5)\<close> with the generator state 1.\<close>

theorem rnd_update_witness:
  "sp (boot 127\<lparr>stack := (stack (boot 127))(0 := - 5), sp := 1, rd := 1\<rparr>) \<noteq> 0
   \<and> sp (boot 127\<lparr>stack := (stack (boot 127))(0 := - 5), sp := 1, rd := 1\<rparr>) \<le> STACKSIZE
   \<and> (\<exists>s'. rnd (boot 127\<lparr>stack := (stack (boot 127))(0 := - 5), sp := 1, rd := 1\<rparr>) = Some s'
        \<and> uint (rd s') = 38348 \<and> sint (stack s' 0) = - 1)"
proof -
  let ?w = "boot 127\<lparr>stack := (stack (boot 127))(0 := - 5), sp := 1, rd := 1\<rparr>"
  have h1: "sp ?w \<noteq> 0" by simp
  have h2: "sp ?w \<le> STACKSIZE" by simp
  from rnd_update [OF h1 h2] obtain s' where
    "rnd ?w = Some s'" and "uint (rd s') = (31421 * uint (rd ?w) + 6927) mod 2 ^ 16"
    and "sint (stack s' (unat (sp ?w - 1))) =
        (let a = sint (stack ?w (unat (sp ?w - 1))) in
         if 0 \<le> a then (uint (rd s') * a) div 2 ^ 16
         else - ((uint (rd s') * (- a)) div 2 ^ 16) + 1)"
    by blast
  then have "rnd ?w = Some s' \<and> uint (rd s') = 38348 \<and> sint (stack s' 0) = - 1"
    by simp
  with h1 h2 show ?thesis by blast
qed

text \<open>
  C9 as stated fails for a negative argument: with the generator state 0, \<open>RND(-1)\<close>
  advances the state to 6927 and pushes 1, where \<open>\<lfloor>6927 * (-1) / 2^16\<rfloor> + 1\<close> is 0.
\<close>

theorem rnd_floor_counterexample:
  "rd_of (rnd (boot 127\<lparr>stack := (stack (boot 127))(0 := - 1), sp := 1\<rparr>)) = Some 6927
   \<and> pushed (rnd (boot 127\<lparr>stack := (stack (boot 127))(0 := - 1), sp := 1\<rparr>)) = Some 1
   \<and> pushed (rnd (boot 127\<lparr>stack := (stack (boot 127))(0 := - 1), sp := 1\<rparr>))
       \<noteq> Some ((6927 * (- 1)) div 2 ^ 16 + 1)"
  by (simp add: rnd_def pop_def push_def boot_def pushed_def rd_of_def word_sle_eq
      signed_divide_int_def)

subsection \<open>C2: moving a block of memory\<close>

lemma move_down_outside: "a < d \<or> d + i \<le> a \<Longrightarrow> move_down b d i m a = m a"
  by (induction i arbitrary: m) auto

lemma move_down_copies:
  "b < d \<Longrightarrow> j < i \<Longrightarrow> move_down b d i m (d + j) = m (b + j)"
proof (induction i arbitrary: m)
  case 0
  then show ?case by simp
next
  case (Suc i)
  show ?case
  proof (cases "j = i")
    case True
    then show ?thesis by (simp add: move_down_outside)
  next
    case False
    with Suc.prems have "j < i" by simp
    from Suc.IH [OF Suc.prems(1) this] show ?thesis using Suc.prems \<open>j < i\<close> by simp
  qed
qed

lemma move_up_outside: "a < d + i \<or> d + i + k \<le> a \<Longrightarrow> move_up b d i k m a = m a"
  by (induction k arbitrary: i m) auto

lemma move_up_copies:
  "d \<le> b \<Longrightarrow> i \<le> j \<Longrightarrow> j < i + k \<Longrightarrow> move_up b d i k m (d + j) = m (b + j)"
proof (induction k arbitrary: i m)
  case 0
  then show ?case by simp
next
  case (Suc k)
  show ?case
  proof (cases "j = i")
    case True
    then show ?thesis by (simp add: move_up_outside)
  next
    case False
    with Suc.prems have "Suc i \<le> j" "j < Suc i + k" by simp_all
    from Suc.IH [OF Suc.prems(1) this] show ?thesis using Suc.prems \<open>Suc i \<le> j\<close> by simp
  qed
qed

lemma moveblock_fits:
  assumes "unat d + unat l \<le> unat (himem s)"
  shows "\<exists>m'. moveblock b l d s = Some (s\<lparr>mem := m'\<rparr>)
           \<and> (\<forall>j<unat l. m' (unat d + j) = mem s (unat b + j))
           \<and> (\<forall>a. a < unat d \<or> unat d + unat l \<le> a \<longrightarrow> m' a = mem s a)"
proof (cases "l < 1")
  case True
  then have "unat l = 0" by (simp add: word_less_nat_alt)
  with assms True show ?thesis by (auto simp add: moveblock_def intro!: exI [of _ "mem s"])
next
  case False
  show ?thesis
  proof (cases "b < d")
    case True
    with assms False show ?thesis
      by (auto simp add: moveblock_def move_down_copies move_down_outside word_less_nat_alt
          intro!: exI [of _ "move_down (unat b) (unat d) (unat l) (mem s)"])
  next
    case nlt: False
    then have "unat d \<le> unat b" by (simp add: word_less_nat_alt)
    with assms False nlt show ?thesis
      using move_up_copies [of "unat d" "unat b" 0 _ "unat l" "mem s"]
        move_up_outside [of _ "unat d" 0 "unat l" "unat b" "mem s"]
      by (auto simp add: moveblock_def
          intro!: exI [of _ "move_up (unat b) (unat d) 0 (unat l) (mem s)"])
  qed
qed

lemma moveblock_full:
  assumes "unat (himem s) < unat d + unat l" and "st s = SINT \<or> unat (top' s) \<le> 65278"
  shows "\<exists>s'. moveblock b l d s = Some s' \<and> er s' = EOUTOFMEMORY \<and> mem s' = mem s
              \<and> memsize s' = memsize s \<and> himem s' = himem s \<and> top' s' = top' s"
proof -
  have h1: "(0::byte) \<le>s EOUTOFMEMORY" by (simp add: word_sle_eq)
  have h2: "unat (EOUTOFMEMORY::byte) < 23" by simp
  from error_result [OF h1 h2 assms(2)] obtain s' pre where
    e: "error EOUTOFMEMORY s = Some s'" and
    c: "core s' = core ((outsc (pre @ error_text EOUTOFMEMORY)
          (s\<lparr>er := EOUTOFMEMORY, od := odd' s, id' := idd s\<rparr>))
          \<lparr>sp := 0, forsp := 0, fnc := 0, gosubsp := 0\<rparr>)"
    by blast
  from error_fields [OF c] have "er s' = EOUTOFMEMORY" "mem s' = mem s" "memsize s' = memsize s"
    "himem s' = himem s" "top' s' = top' s"
    by simp_all
  with e assms(1) show ?thesis by (simp add: moveblock_def)
qed

text \<open>
  C2.  When \<open>d + l \<le> himem\<close>, \<open>moveblock b l d\<close> returns, and afterwards the bytes at
  \<open>[d, d + l)\<close> are the bytes that were at \<open>[b, b + l)\<close> before the call, whether the two
  ranges overlap or not; every byte outside \<open>[d, d + l)\<close> and every other variable is
  unchanged.  When \<open>d + l > himem\<close>, it returns with the error \<open>EOUTOFMEMORY\<close> and the
  memory unchanged (\<open>error\<close> searches the current line when a program runs; this returns
  when \<open>top\<close> is at most 65278).  The sum \<open>d + l\<close> is one of \<open>int\<close> values and does not
  wrap.
\<close>

theorem moveblock_copies:
  "(unat d + unat l \<le> unat (himem s) \<longrightarrow>
      (\<exists>m'. moveblock b l d s = Some (s\<lparr>mem := m'\<rparr>)
         \<and> (\<forall>j<unat l. m' (unat d + j) = mem s (unat b + j))
         \<and> (\<forall>a. a < unat d \<or> unat d + unat l \<le> a \<longrightarrow> m' a = mem s a)))
   \<and> (unat (himem s) < unat d + unat l \<and> (st s = SINT \<or> unat (top' s) \<le> 65278) \<longrightarrow>
      (\<exists>s'. moveblock b l d s = Some s' \<and> er s' = EOUTOFMEMORY \<and> mem s' = mem s))"
  using moveblock_fits [of d l s b] moveblock_full [of s d l b] by blast

text \<open>
  The theorem for a block of four bytes moved up by two, onto itself, and for a
  destination that does not fit, in a memory of 128 bytes.
\<close>

theorem moveblock_copies_witness:
  "unat (2::address_t) + unat (4::address_t)
     \<le> unat (himem (boot 127\<lparr>mem := (mem (boot 127))(0 := 11, 1 := 12, 2 := 13, 3 := 14)\<rparr>))
   \<and> (\<exists>s'. moveblock 0 4 2 (boot 127\<lparr>mem := (mem (boot 127))(0 := 11, 1 := 12, 2 := 13, 3 := 14)\<rparr>)
           = Some s'
         \<and> map (mem s') [0, 1, 2, 3, 4, 5, 6] = [11, 12, 11, 12, 13, 14, 0])
   \<and> unat (himem (boot 127\<lparr>mem := (mem (boot 127))(0 := 11, 1 := 12, 2 := 13, 3 := 14)\<rparr>))
       < unat (125::address_t) + unat (4::address_t)
   \<and> (\<exists>s'. moveblock 0 4 125 (boot 127\<lparr>mem := (mem (boot 127))(0 := 11, 1 := 12, 2 := 13, 3 := 14)\<rparr>)
           = Some s'
         \<and> er s' = EOUTOFMEMORY
         \<and> mem s' = mem (boot 127\<lparr>mem := (mem (boot 127))(0 := 11, 1 := 12, 2 := 13, 3 := 14)\<rparr>))"
proof -
  let ?w = "boot 127\<lparr>mem := (mem (boot 127))(0 := 11, 1 := 12, 2 := 13, 3 := 14)\<rparr>"
  have h1: "unat (2::address_t) + unat (4::address_t) \<le> unat (himem ?w)" by (simp add: boot_def)
  have h2: "unat (himem ?w) < unat (125::address_t) + unat (4::address_t)" by (simp add: boot_def)
  have h3: "st ?w = SINT \<or> unat (top' ?w) \<le> 65278" by (simp add: boot_def)
  from moveblock_copies [of 2 4 ?w 0] h1 obtain m' where
    a: "moveblock 0 4 2 ?w = Some (?w\<lparr>mem := m'\<rparr>)"
    and c: "\<forall>j<unat (4::address_t). m' (unat (2::address_t) + j) = mem ?w (unat (0::address_t) + j)"
    and o: "\<forall>a. a < unat (2::address_t) \<or> unat (2::address_t) + unat (4::address_t) \<le> a \<longrightarrow> m' a = mem ?w a"
    by blast
  have cj: "j < 4 \<Longrightarrow> m' (2 + j) = mem ?w j" for j using c [THEN spec, of j] by simp
  have oj: "a < 2 \<or> 6 \<le> a \<Longrightarrow> m' a = mem ?w a" for a using o [THEN spec, of a] by simp
  from cj [of 0] cj [of 1] cj [of 2] cj [of 3] oj [of 0] oj [of 1] oj [of 6] have "map m' [0, 1, 2, 3, 4, 5, 6] = [11, 12, 11, 12, 13, 14, 0]"
    by (simp add: boot_def)
  with a have p1: "\<exists>s'. moveblock 0 4 2 ?w = Some s' \<and> map (mem s') [0, 1, 2, 3, 4, 5, 6] = [11, 12, 11, 12, 13, 14, 0]"
    by simp
  from moveblock_copies [of 125 4 ?w 0] h2 h3
  have p2: "\<exists>s'. moveblock 0 4 125 ?w = Some s' \<and> er s' = EOUTOFMEMORY \<and> mem s' = mem ?w"
    by blast
  from h1 p1 h2 p2 show ?thesis by blast
qed

subsection \<open>C10: token reads and the end of the program\<close>

lemma token_len_pos: "1 \<le> token_len s a"
  by (simp add: token_len_def Let_def)

lemma gettoken_here_len:
  assumes "here s < top' s"
  shows "here (gettoken s) = here s + of_nat (token_len s (here s))"
proof -
  have nt: "\<not> top' s \<le> here s" using assms by simp
  let ?t = "memread s (here s)"
  consider (ln) "?t = LINENUMBER" | (num) "?t = NUMBER"
    | (var) "?t = ARRAYVAR \<or> ?t = VARIABLE \<or> ?t = STRINGVAR" | (str) "?t = STRING"
    | (other) "?t \<noteq> LINENUMBER" "?t \<noteq> NUMBER" "?t \<noteq> ARRAYVAR" "?t \<noteq> VARIABLE"
        "?t \<noteq> STRINGVAR" "?t \<noteq> STRING"
    by blast
  then show ?thesis
  proof cases
    case ln
    then show ?thesis using nt by (simp add: gettoken_def token_len_def Let_def)
  next
    case num
    then show ?thesis using nt by (simp add: gettoken_def token_len_def Let_def)
  next
    case var
    then show ?thesis using nt by (auto simp add: gettoken_def token_len_def Let_def)
  next
    case str
    then show ?thesis using nt by (simp add: gettoken_def token_len_def memread_def eread_def Let_def)
  next
    case other
    then show ?thesis using nt by (simp add: gettoken_def token_len_def Let_def)
  qed
qed

lemma memread_core:
  assumes "core a = core b"
  shows "memread a = memread b"
proof (rule ext)
  fix i
  have "mem a = mem b" "st a = st b" "eeprom a = eeprom b" using core_eqD [OF assms] by simp_all
  then show "memread a i = memread b i" by (simp add: memread_def eread_def)
qed

lemma token_len_cong:
  assumes "memread a = memread b"
  shows "token_len a h = token_len b h"
  unfolding token_len_def assms ..

lemma complete_cong:
  assumes "memread a = memread b" and "top' a = top' b"
  shows "complete n a h = complete n b h"
proof (induction n arbitrary: h)
  case 0
  show ?case using assms(2) by simp
next
  case (Suc n)
  show ?case using assms(2) Suc [of "h + of_nat (token_len b h)"]
    by (simp add: token_len_cong [OF assms(1)])
qed

lemma complete_at_top: "complete n s (top' s)"
  by (cases n) simp_all

lemma complete_le: "complete n s a \<Longrightarrow> a \<le> top' s"
proof (cases n)
  case 0
  assume "complete n s a"
  with 0 show ?thesis by simp
next
  case (Suc k)
  assume c: "complete n s a"
  show ?thesis
  proof (cases "a = top' s")
    case True
    then show ?thesis by simp
  next
    case False
    with c Suc have "unat a + token_len s a \<le> unat (top' s)" by simp
    then have "unat a \<le> unat (top' s)" by simp
    then show ?thesis by (simp add: word_le_nat_alt)
  qed
qed

lemma within:
  fixes h t :: address_t
  assumes "unat h + n \<le> unat t" and "k < n"
  shows "unat (h + of_nat k) = unat h + k" and "h + of_nat k < t"
proof -
  have t: "unat t < 2 ^ 16" using unsigned_less [of t, where ?'a = nat] by simp
  have k: "unat (of_nat k :: address_t) = k" using assms t by (simp add: unat_of_nat)
  have "unat h + unat (of_nat k :: address_t) < 2 ^ LENGTH(16)" using assms t k by simp
  then have "unat (h + of_nat k) = unat h + unat (of_nat k :: address_t)"
    using unat_add_lem [of h "of_nat k"] by simp
  then show u: "unat (h + of_nat k) = unat h + k" using k by simp
  show "h + of_nat k < t" using u assms by (simp add: word_less_nat_alt)
qed

lemma gettoken_step:
  assumes "here s < top' s" and "complete (Suc n) s (here s)"
  shows "unat (here (gettoken s)) = unat (here s) + token_len s (here s)"
    and "here (gettoken s) \<le> top' (gettoken s)"
    and "complete n (gettoken s) (here (gettoken s))"
proof -
  let ?l = "token_len s (here s)"
  have ne: "here s \<noteq> top' s" using assms(1) by simp
  with assms(2) have b: "unat (here s) + ?l \<le> unat (top' s)"
    and c: "complete n s (here s + of_nat ?l)" by simp_all
  have h: "here (gettoken s) = here s + of_nat ?l" by (rule gettoken_here_len [OF assms(1)])
  have t: "unat (top' s) < 2 ^ 16" using unsigned_less [of "top' s", where ?'a = nat] by simp
  have l: "unat (of_nat ?l :: address_t) = ?l" using b t by (simp add: unat_of_nat)
  have "unat (here s) + unat (of_nat ?l :: address_t) < 2 ^ LENGTH(16)" using b t l by simp
  then have "unat (here s + of_nat ?l) = unat (here s) + unat (of_nat ?l :: address_t)"
    using unat_add_lem [of "here s" "of_nat ?l"] by simp
  then show u: "unat (here (gettoken s)) = unat (here s) + ?l" using h l by simp
  have m: "memread (gettoken s) = memread s" by (rule memread_core) simp
  show "here (gettoken s) \<le> top' (gettoken s)"
    using u b by (simp add: word_le_nat_alt gettoken_top)
  show "complete n (gettoken s) (here (gettoken s))"
    using c h complete_cong [OF m gettoken_top] by simp
qed

lemma getbytes_upd:
  assumes "\<And>k. k < n \<Longrightarrow> M (unat (a + of_nat k)) = mem s (unat (a + of_nat k))"
  shows "getbytes i a n (s\<lparr>mem := M, eeprom := E\<rparr>) = (getbytes i a n s)\<lparr>mem := M, eeprom := E\<rparr>"
  using assms
proof (induction n arbitrary: i a s)
  case 0
  show ?case by simp
next
  case (Suc n)
  let ?v = "mem s (unat a)"
  have v: "M (unat a) = ?v" using Suc.prems [of 0] by simp
  have p: "M (unat (a + 1 + of_nat k)) = mem (set_zc i ?v s) (unat (a + 1 + of_nat k))" if "k < n" for k
    using Suc.prems [of "Suc k"] that by (simp add: set_zc_def add.assoc)
  have e: "set_zc i ?v (s\<lparr>mem := M, eeprom := E\<rparr>) = (set_zc i ?v s)\<lparr>mem := M, eeprom := E\<rparr>"
    by (simp add: set_zc_def)
  have "getbytes i a (Suc n) (s\<lparr>mem := M, eeprom := E\<rparr>)
      = getbytes (Suc i) (a + 1) n (set_zc i ?v (s\<lparr>mem := M, eeprom := E\<rparr>))"
    by (simp add: v)
  also have "\<dots> = getbytes (Suc i) (a + 1) n ((set_zc i ?v s)\<lparr>mem := M, eeprom := E\<rparr>)"
    by (simp only: e)
  also have "\<dots> = (getbytes (Suc i) (a + 1) n (set_zc i ?v s))\<lparr>mem := M, eeprom := E\<rparr>"
    by (rule Suc.IH [OF p])
  also have "\<dots> = (getbytes i a (Suc n) s)\<lparr>mem := M, eeprom := E\<rparr>" by simp
  finally show ?case .
qed

lemma egetbytes_upd:
  assumes "\<And>k. k < n \<Longrightarrow> E (unat (a + of_nat k)) = eeprom s (unat (a + of_nat k))"
  shows "egetbytes i a n (s\<lparr>mem := M, eeprom := E\<rparr>) = (egetbytes i a n s)\<lparr>mem := M, eeprom := E\<rparr>"
  using assms
proof (induction n arbitrary: i a s)
  case 0
  show ?case by simp
next
  case (Suc n)
  let ?v = "eread s a"
  have v: "eread (s\<lparr>mem := M, eeprom := E\<rparr>) a = ?v" using Suc.prems [of 0] by (simp add: eread_def)
  have p: "E (unat (a + 1 + of_nat k)) = eeprom (set_zc i ?v s) (unat (a + 1 + of_nat k))" if "k < n" for k
    using Suc.prems [of "Suc k"] that by (simp add: set_zc_def add.assoc)
  have e: "set_zc i ?v (s\<lparr>mem := M, eeprom := E\<rparr>) = (set_zc i ?v s)\<lparr>mem := M, eeprom := E\<rparr>"
    by (simp add: set_zc_def)
  have "egetbytes i a (Suc n) (s\<lparr>mem := M, eeprom := E\<rparr>)
      = egetbytes (Suc i) (a + 1) n (set_zc i ?v (s\<lparr>mem := M, eeprom := E\<rparr>))"
    by (simp add: v)
  also have "\<dots> = egetbytes (Suc i) (a + 1) n ((set_zc i ?v s)\<lparr>mem := M, eeprom := E\<rparr>)"
    by (simp only: e)
  also have "\<dots> = (egetbytes (Suc i) (a + 1) n (set_zc i ?v s))\<lparr>mem := M, eeprom := E\<rparr>"
    by (rule Suc.IH [OF p])
  also have "\<dots> = (egetbytes i a (Suc n) s)\<lparr>mem := M, eeprom := E\<rparr>" by simp
  finally show ?case .
qed

lemma getnumber_upd:
  assumes "\<And>k. k < n \<Longrightarrow> M (unat (a + of_nat k)) = mem s (unat (a + of_nat k))"
    and "n = addrsize \<or> n = numsize"
  shows "getnumber a n (s\<lparr>mem := M, eeprom := E\<rparr>) = (getnumber a n s)\<lparr>mem := M, eeprom := E\<rparr>"
proof (cases "n = addrsize")
  case True
  have "M (unat a) = mem s (unat a)" "M (unat (a + 1)) = mem s (unat (a + 1))"
    using assms(1) [of 0] assms(1) [of 1] True by simp_all
  then show ?thesis using True by (simp add: getnumber_def set_zc_def)
next
  case False
  then have n: "n = numsize" using assms(2) by simp
  have r: "(s\<lparr>mem := M, eeprom := E\<rparr>)\<lparr>z := 0\<rparr> = (s\<lparr>z := 0\<rparr>)\<lparr>mem := M, eeprom := E\<rparr>" by simp
  have "getnumber a n (s\<lparr>mem := M, eeprom := E\<rparr>) = getbytes 0 a n ((s\<lparr>mem := M, eeprom := E\<rparr>)\<lparr>z := 0\<rparr>)"
    using n by (simp add: getnumber_def)
  also have "\<dots> = getbytes 0 a n ((s\<lparr>z := 0\<rparr>)\<lparr>mem := M, eeprom := E\<rparr>)" by (simp only: r)
  also have "\<dots> = (getbytes 0 a n (s\<lparr>z := 0\<rparr>))\<lparr>mem := M, eeprom := E\<rparr>"
    by (rule getbytes_upd) (simp add: assms(1))
  also have "\<dots> = (getnumber a n s)\<lparr>mem := M, eeprom := E\<rparr>" using n by (simp add: getnumber_def)
  finally show ?thesis .
qed

lemma egetnumber_upd:
  assumes "\<And>k. k < n \<Longrightarrow> E (unat (a + of_nat k)) = eeprom s (unat (a + of_nat k))"
    and "n = addrsize \<or> n = numsize"
  shows "egetnumber a n (s\<lparr>mem := M, eeprom := E\<rparr>) = (egetnumber a n s)\<lparr>mem := M, eeprom := E\<rparr>"
proof (cases "n = addrsize")
  case True
  have "E (unat a) = eeprom s (unat a)" "E (unat (a + 1)) = eeprom s (unat (a + 1))"
    using assms(1) [of 0] assms(1) [of 1] True by simp_all
  then show ?thesis using True by (simp add: egetnumber_def eread_def set_zc_def)
next
  case False
  then have n: "n = numsize" using assms(2) by simp
  have r: "(s\<lparr>mem := M, eeprom := E\<rparr>)\<lparr>z := 0\<rparr> = (s\<lparr>z := 0\<rparr>)\<lparr>mem := M, eeprom := E\<rparr>" by simp
  have "egetnumber a n (s\<lparr>mem := M, eeprom := E\<rparr>) = egetbytes 0 a n ((s\<lparr>mem := M, eeprom := E\<rparr>)\<lparr>z := 0\<rparr>)"
    using n by (simp add: egetnumber_def)
  also have "\<dots> = egetbytes 0 a n ((s\<lparr>z := 0\<rparr>)\<lparr>mem := M, eeprom := E\<rparr>)" by (simp only: r)
  also have "\<dots> = (egetbytes 0 a n (s\<lparr>z := 0\<rparr>))\<lparr>mem := M, eeprom := E\<rparr>"
    by (rule egetbytes_upd) (simp add: assms(1))
  also have "\<dots> = (egetnumber a n s)\<lparr>mem := M, eeprom := E\<rparr>" using n by (simp add: egetnumber_def)
  finally show ?thesis .
qed

lemma gettoken_args_eq:
  "gettoken s = (if top' s \<le> here s then s\<lparr>token := EOL\<rparr>
                 else gettoken_args (s\<lparr>token := memread s (here s), here := here s + 1\<rparr>))"
  by (simp add: gettoken_def gettoken_args_def Let_def memread_def eread_def)

lemma gettoken_args_upd:
  assumes r: "\<And>k. k < args_len u \<Longrightarrow>
      memread (u\<lparr>mem := M, eeprom := E\<rparr>) (here u + of_nat k) = memread u (here u + of_nat k)"
  shows "gettoken_args (u\<lparr>mem := M, eeprom := E\<rparr>) = (gettoken_args u)\<lparr>mem := M, eeprom := E\<rparr>"
proof -
  let ?u = "u\<lparr>mem := M, eeprom := E\<rparr>"
  have ma: "M (unat (here u + of_nat k)) = mem u (unat (here u + of_nat k))"
    if "k < args_len u" "st u \<noteq> SERUN" for k
    using r [OF that(1)] that(2) by (simp add: memread_def)
  have mb: "E (unat (here u + eheadersize + of_nat k)) = eeprom u (unat (here u + eheadersize + of_nat k))"
    if "k < args_len u" "st u = SERUN" for k
    using r [OF that(1)] that(2) by (simp add: memread_def eread_def ac_simps)
  consider (ln) "token u = LINENUMBER" | (num) "token u = NUMBER"
    | (var) "token u = ARRAYVAR \<or> token u = VARIABLE \<or> token u = STRINGVAR" | (str) "token u = STRING"
    | (other) "token u \<noteq> LINENUMBER" "token u \<noteq> NUMBER" "token u \<noteq> ARRAYVAR" "token u \<noteq> VARIABLE"
        "token u \<noteq> STRINGVAR" "token u \<noteq> STRING"
    by blast
  then show ?thesis
  proof cases
    case ln
    then have l: "args_len u = addrsize" by (simp add: args_len_def)
    show ?thesis
    proof (cases "st u = SERUN")
      case False
      have "getnumber (here u) addrsize ?u = (getnumber (here u) addrsize u)\<lparr>mem := M, eeprom := E\<rparr>"
        by (rule getnumber_upd) (simp_all add: ma l False)
      then show ?thesis using ln False by (simp add: gettoken_args_def Let_def za_def)
    next
      case True
      have "egetnumber (here u + eheadersize) addrsize ?u
          = (egetnumber (here u + eheadersize) addrsize u)\<lparr>mem := M, eeprom := E\<rparr>"
        by (rule egetnumber_upd) (simp_all add: mb l True)
      then show ?thesis using ln True by (simp add: gettoken_args_def Let_def za_def)
    qed
  next
    case num
    then have l: "args_len u = numsize" by (simp add: args_len_def)
    show ?thesis
    proof (cases "st u = SERUN")
      case False
      have "getnumber (here u) numsize ?u = (getnumber (here u) numsize u)\<lparr>mem := M, eeprom := E\<rparr>"
        by (rule getnumber_upd) (simp_all add: ma l False)
      then show ?thesis using num False by (simp add: gettoken_args_def Let_def)
    next
      case True
      have "egetnumber (here u + eheadersize) numsize ?u
          = (egetnumber (here u + eheadersize) numsize u)\<lparr>mem := M, eeprom := E\<rparr>"
        by (rule egetnumber_upd) (simp_all add: mb l True)
      then show ?thesis using num True by (simp add: gettoken_args_def Let_def)
    qed
  next
    case var
    then have l: "args_len u = 2" by (auto simp add: args_len_def)
    have "memread ?u (here u) = memread u (here u)" "memread ?u (here u + 1) = memread u (here u + 1)"
      using r [of 0] r [of 1] l by simp_all
    then show ?thesis using var by (auto simp add: gettoken_args_def)
  next
    case str
    then have l: "args_len u = 1" by (simp add: args_len_def)
    have "memread ?u (here u) = memread u (here u)" using r [of 0] l by simp
    then show ?thesis using str by (simp add: gettoken_args_def Let_def)
  next
    case other
    then show ?thesis by (simp add: gettoken_args_def)
  qed
qed

lemma token_len_args:
  "token_len s (here s) = 1 + (if memread s (here s) = STRING then 1 + unat (memread s (here s + 1))
      else args_len (s\<lparr>token := memread s (here s), here := here s + 1\<rparr>))"
  by (simp add: token_len_def args_len_def Let_def)

lemma gettoken_upd:
  assumes h: "here s < top' s" and b: "unat (here s) + token_len s (here s) \<le> unat (top' s)"
    and ag: "\<And>a. a < top' s \<Longrightarrow> memread (s\<lparr>mem := M, eeprom := E\<rparr>) a = memread s a"
  shows "gettoken (s\<lparr>mem := M, eeprom := E\<rparr>) = (gettoken s)\<lparr>mem := M, eeprom := E\<rparr>"
proof -
  let ?t = "memread s (here s)"
  let ?u = "s\<lparr>token := ?t, here := here s + 1\<rparr>"
  have nt: "\<not> top' s \<le> here s" using h by simp
  have t: "memread (s\<lparr>mem := M, eeprom := E\<rparr>) (here s) = ?t" by (rule ag [OF h])
  have al: "1 + args_len ?u \<le> token_len s (here s)"
    by (simp add: token_len_args args_len_def)
  have rd: "memread (?u\<lparr>mem := M, eeprom := E\<rparr>) (here ?u + of_nat k) = memread ?u (here ?u + of_nat k)"
    if "k < args_len ?u" for k
  proof -
    have "Suc k < token_len s (here s)" using that al by simp
    from within(2) [OF b this] have "here s + of_nat (Suc k) < top' s" .
    from ag [OF this] have
      "memread (s\<lparr>mem := M, eeprom := E\<rparr>) (here s + of_nat (Suc k)) = memread s (here s + of_nat (Suc k))" .
    moreover have "here ?u + of_nat k = here s + of_nat (Suc k)" by simp
    moreover have "memread (?u\<lparr>mem := M, eeprom := E\<rparr>) = memread (s\<lparr>mem := M, eeprom := E\<rparr>)"
      by (rule ext) (simp add: memread_def eread_def)
    moreover have "memread ?u = memread s" by (rule ext) (simp add: memread_def eread_def)
    ultimately show ?thesis by (simp only:)
  qed
  have e: "(s\<lparr>mem := M, eeprom := E\<rparr>)\<lparr>token := ?t, here := here s + 1\<rparr> = ?u\<lparr>mem := M, eeprom := E\<rparr>"
    by simp
  have "gettoken (s\<lparr>mem := M, eeprom := E\<rparr>)
      = gettoken_args ((s\<lparr>mem := M, eeprom := E\<rparr>)\<lparr>token := ?t, here := here s + 1\<rparr>)"
    using nt t by (simp add: gettoken_args_eq)
  also have "\<dots> = gettoken_args (?u\<lparr>mem := M, eeprom := E\<rparr>)" by (simp only: e)
  also have "\<dots> = (gettoken_args ?u)\<lparr>mem := M, eeprom := E\<rparr>" by (rule gettoken_args_upd [OF rd])
  also have "gettoken_args ?u = gettoken s" using nt by (simp add: gettoken_args_eq)
  finally show ?thesis .
qed

lemma funpow_gettoken_top: "top' ((gettoken ^^ k) s) = top' s"
  by (induction k) (simp_all add: gettoken_top)

lemma complete_step:
  assumes "complete (Suc n) s (here s)"
  shows "complete n (gettoken s) (here (gettoken s))"
proof (cases "here s = top' s")
  case True
  then have g: "gettoken s = s\<lparr>token := EOL\<rparr>" by (simp add: gettoken_def)
  have "complete n (s\<lparr>token := EOL\<rparr>) (top' (s\<lparr>token := EOL\<rparr>))" by (rule complete_at_top)
  then show ?thesis using True g by simp
next
  case False
  moreover have "here s \<le> top' s" using complete_le [OF assms] .
  ultimately have "here s < top' s" by simp
  from gettoken_step(3) [OF this assms] show ?thesis .
qed

lemma complete_mono: "complete n s a \<Longrightarrow> complete (Suc n) s a"
proof (induction n arbitrary: a)
  case 0
  then show ?case by simp
next
  case (Suc n)
  then show ?case by auto
qed

lemma complete_run:
  assumes "complete n s (here s)"
  shows "here ((gettoken ^^ n) s) = top' s"
  using assms
proof (induction n arbitrary: s)
  case 0
  then show ?case by simp
next
  case (Suc n)
  from complete_step [OF Suc.prems] have "complete n (gettoken s) (here (gettoken s))" .
  from Suc.IH [OF this] show ?case by (simp add: funpow_swap1 gettoken_top)
qed

lemma complete_always:
  assumes "complete n s (here s)"
  shows "complete n ((gettoken ^^ k) s) (here ((gettoken ^^ k) s))"
  using assms
proof (induction k arbitrary: s)
  case 0
  then show ?case by simp
next
  case (Suc k)
  have "complete (Suc n) s (here s)" using Suc.prems by (rule complete_mono)
  from complete_step [OF this] have "complete n (gettoken s) (here (gettoken s))" .
  from Suc.IH [OF this] show ?case by (simp add: funpow_swap1)
qed

text \<open>
  C10.  In run mode:
  (1) in a state whose cursor \<open>here\<close> is at or beyond \<open>top\<close>, reading the next token sets
  the token to \<open>EOL\<close> and changes nothing else, so \<open>here\<close> does not advance; the result is
  the same whatever the program memory and the EEPROM image hold, so no byte of them is
  read; and the condition of the statement loop of \<open>xrun\<close> is false afterwards;
  (2) when \<open>here\<close> is below \<open>top\<close> and the program from \<open>here\<close> to \<open>top\<close> consists of whole
  tokens, reading the next token advances \<open>here\<close> by the length of the token at \<open>here\<close> and
  not beyond \<open>top\<close>, the rest of the program still consists of whole tokens, and the read
  depends on no byte at or beyond \<open>top\<close>: the result is the same for every content of the
  program memory and of the EEPROM image that delivers the same program bytes below \<open>top\<close>;
  (3) hence, when the program from \<open>here\<close> consists of at most \<open>n\<close> whole tokens, successive
  token reads never take \<open>here\<close> beyond \<open>top\<close>, and after \<open>n\<close> of them \<open>here\<close> is \<open>top\<close>, where
  by (1) the token delivered is \<open>EOL\<close>.
\<close>

theorem token_reads_in_program:
  assumes "st s = SRUN \<or> st s = SERUN"
  shows "(top' s \<le> here s \<longrightarrow>
            nexttoken s = Some (s\<lparr>token := EOL\<rparr>)
          \<and> (\<forall>m e. nexttoken (s\<lparr>mem := m, eeprom := e\<rparr>) = Some (s\<lparr>mem := m, eeprom := e, token := EOL\<rparr>))
          \<and> \<not> run_continues (s\<lparr>token := EOL\<rparr>))
     \<and> (here s < top' s \<and> complete (Suc n) s (here s) \<longrightarrow>
          (\<exists>s1. nexttoken s = Some s1
             \<and> unat (here s1) = unat (here s) + token_len s (here s)
             \<and> here s1 \<le> top' s1 \<and> top' s1 = top' s \<and> complete n s1 (here s1)
             \<and> (\<forall>m e. (\<forall>a. a < top' s \<longrightarrow> memread (s\<lparr>mem := m, eeprom := e\<rparr>) a = memread s a)
                   \<longrightarrow> nexttoken (s\<lparr>mem := m, eeprom := e\<rparr>) = Some (s1\<lparr>mem := m, eeprom := e\<rparr>))))
     \<and> (complete n s (here s) \<longrightarrow>
          here ((gettoken ^^ n) s) = top' s \<and> (\<forall>k. here ((gettoken ^^ k) s) \<le> top' s))"
proof (intro conjI impI)
  assume "top' s \<le> here s"
  then show "nexttoken s = Some (s\<lparr>token := EOL\<rparr>)"
    using assms by (auto simp add: nexttoken_def gettoken_def)
  show "\<forall>m e. nexttoken (s\<lparr>mem := m, eeprom := e\<rparr>) = Some (s\<lparr>mem := m, eeprom := e, token := EOL\<rparr>)"
    using assms \<open>top' s \<le> here s\<close> by (auto simp add: nexttoken_def gettoken_def)
  show "\<not> run_continues (s\<lparr>token := EOL\<rparr>)"
    using \<open>top' s \<le> here s\<close> by (auto simp add: run_continues_def)
next
  assume a: "here s < top' s \<and> complete (Suc n) s (here s)"
  then have h: "here s < top' s" and c: "complete (Suc n) s (here s)" by simp_all
  have b: "unat (here s) + token_len s (here s) \<le> unat (top' s)" using h c by auto
  have n: "nexttoken u = Some (gettoken u)" if "st u = st s" for u
    using assms that by (auto simp add: nexttoken_def)
  have "\<forall>m e. (\<forall>a. a < top' s \<longrightarrow> memread (s\<lparr>mem := m, eeprom := e\<rparr>) a = memread s a)
      \<longrightarrow> nexttoken (s\<lparr>mem := m, eeprom := e\<rparr>) = Some ((gettoken s)\<lparr>mem := m, eeprom := e\<rparr>)"
  proof (intro allI impI)
    fix m e
    assume "\<forall>a. a < top' s \<longrightarrow> memread (s\<lparr>mem := m, eeprom := e\<rparr>) a = memread s a"
    then have "gettoken (s\<lparr>mem := m, eeprom := e\<rparr>) = (gettoken s)\<lparr>mem := m, eeprom := e\<rparr>"
      using gettoken_upd [OF h b, of e m] by blast
    then show "nexttoken (s\<lparr>mem := m, eeprom := e\<rparr>) = Some ((gettoken s)\<lparr>mem := m, eeprom := e\<rparr>)"
      using n [of "s\<lparr>mem := m, eeprom := e\<rparr>"] by simp
  qed
  then show "\<exists>s1. nexttoken s = Some s1
             \<and> unat (here s1) = unat (here s) + token_len s (here s)
             \<and> here s1 \<le> top' s1 \<and> top' s1 = top' s \<and> complete n s1 (here s1)
             \<and> (\<forall>m e. (\<forall>a. a < top' s \<longrightarrow> memread (s\<lparr>mem := m, eeprom := e\<rparr>) a = memread s a)
                   \<longrightarrow> nexttoken (s\<lparr>mem := m, eeprom := e\<rparr>) = Some (s1\<lparr>mem := m, eeprom := e\<rparr>))"
    using n [of s] gettoken_step [OF h c] gettoken_top [of s]
    by (intro exI [of _ "gettoken s"]) simp
next
  assume c: "complete n s (here s)"
  show "here ((gettoken ^^ n) s) = top' s" by (rule complete_run [OF c])
  show "\<forall>k. here ((gettoken ^^ k) s) \<le> top' s"
  proof
    fix k
    from complete_le [OF complete_always [OF c, of k]] show "here ((gettoken ^^ k) s) \<le> top' s"
      by (simp add: funpow_gettoken_top)
  qed
qed

text \<open>
  The theorem for the stored program \<open>10 END\<close> in run mode, at its start and at its end.
\<close>

theorem token_reads_in_program_witness:
  "st (boot 127\<lparr>mem := (mem (boot 127))(0 := LINENUMBER, 1 := 10, 3 := - 87),
         top' := 4, st := SRUN\<rparr>) = SRUN
   \<and> here (boot 127\<lparr>mem := (mem (boot 127))(0 := LINENUMBER, 1 := 10, 3 := - 87),
         top' := 4, st := SRUN\<rparr>)
       < top' (boot 127\<lparr>mem := (mem (boot 127))(0 := LINENUMBER, 1 := 10, 3 := - 87),
         top' := 4, st := SRUN\<rparr>)
   \<and> complete 2 (boot 127\<lparr>mem := (mem (boot 127))(0 := LINENUMBER, 1 := 10, 3 := - 87),
         top' := 4, st := SRUN\<rparr>)
       (here (boot 127\<lparr>mem := (mem (boot 127))(0 := LINENUMBER, 1 := 10, 3 := - 87),
         top' := 4, st := SRUN\<rparr>))
   \<and> map_option token (nexttoken (boot 127\<lparr>mem := (mem (boot 127))(0 := LINENUMBER, 1 := 10, 3 := - 87),
         top' := 4, st := SRUN\<rparr>))
       = Some LINENUMBER
   \<and> map_option here (nexttoken (boot 127\<lparr>mem := (mem (boot 127))(0 := LINENUMBER, 1 := 10, 3 := - 87),
         top' := 4, st := SRUN\<rparr>))
       = Some 3
   \<and> here ((gettoken ^^ 2) (boot 127\<lparr>mem := (mem (boot 127))(0 := LINENUMBER, 1 := 10, 3 := - 87),
         top' := 4, st := SRUN\<rparr>)) = 4
   \<and> top' (boot 127\<lparr>mem := (mem (boot 127))(0 := LINENUMBER, 1 := 10, 3 := - 87),
         top' := 4, here := 4, st := SRUN\<rparr>)
       \<le> here (boot 127\<lparr>mem := (mem (boot 127))(0 := LINENUMBER, 1 := 10, 3 := - 87),
         top' := 4, here := 4, st := SRUN\<rparr>)
   \<and> nexttoken (boot 127\<lparr>mem := (mem (boot 127))(0 := LINENUMBER, 1 := 10, 3 := - 87),
         top' := 4, here := 4, st := SRUN\<rparr>)
       = Some (boot 127\<lparr>mem := (mem (boot 127))(0 := LINENUMBER, 1 := 10, 3 := - 87),
         top' := 4, here := 4, st := SRUN, token := EOL\<rparr>)"
proof -
  let ?w = "boot 127\<lparr>mem := (mem (boot 127))(0 := LINENUMBER, 1 := 10, 3 := - 87),
         top' := 4, st := SRUN\<rparr>"
  let ?v = "boot 127\<lparr>mem := (mem (boot 127))(0 := LINENUMBER, 1 := 10, 3 := - 87),
         top' := 4, here := 4, st := SRUN\<rparr>"
  have s: "st ?w = SRUN \<or> st ?w = SERUN" "st ?v = SRUN \<or> st ?v = SERUN" by simp_all
  have s1: "st ?w = SRUN" by simp
  have h: "here ?w < top' ?w" by (simp add: boot_def)
  have c: "complete (Suc 1) ?w (here ?w)"
    by (simp add: boot_def token_len_def memread_def)
  have c2: "complete 2 ?w (here ?w)" using c by (simp add: numeral_2_eq_2)
  have l: "token_len ?w (here ?w) = 3" by (simp add: boot_def token_len_def memread_def)
  from token_reads_in_program [OF s(1), of 1] h c obtain s1 where
    n: "nexttoken ?w = Some s1" and u: "unat (here s1) = unat (here ?w) + token_len ?w (here ?w)"
    by blast
  have "unat (here s1) = 3" using u l by (simp add: boot_def)
  then have h3: "here s1 = 3" by (simp add: word_unat_eq_iff)
  have tk: "map_option token (nexttoken ?w) = Some LINENUMBER"
    by (simp add: nexttoken_def boot_def run_defs)
  from token_reads_in_program [OF s(1), of 2] c2 have r: "here ((gettoken ^^ 2) ?w) = top' ?w"
    by blast
  have v: "top' ?v \<le> here ?v" by simp
  from token_reads_in_program [OF s(2), of 0] v have e: "nexttoken ?v = Some (?v\<lparr>token := EOL\<rparr>)"
    by blast
  from s1 h c2 tk n h3 r v e show ?thesis by simp
qed

text \<open>
  The guard of \<open>gettoken\<close> covers the first byte of a token only, and C10 fails without the
  condition of whole tokens.  After the lines \<open>10 END\<close>, \<open>20 A=1\<close> and \<open>20\<close> (which deletes
  line 20 and leaves its bytes above \<open>top = 4\<close>) and the statement \<open>POKE 3,-124\<close>, the byte
  3, the last of the program, is the token \<open>VARIABLE\<close>.  \<open>RUN\<close> reads the line number, and
  the next token read, started at \<open>here = 3 < top\<close>, takes the name of the variable from the
  bytes 4 and 5, which hold the line number token and the number 20 of the deleted line,
  and leaves \<open>here = 6\<close>, beyond \<open>top\<close>.
\<close>

theorem poked_token_counterexample:
  "map_option program_bytes
     (Option.bind (Option.bind (Option.bind (enter_lines [''10 END'', ''20 A=1'', ''20''] (boot 127))
        (push 3)) (push (- 124))) xpoke_body)
     = Some [LINENUMBER, 10, 0, VARIABLE]
   \<and> map_option token
     (Option.bind (Option.bind (Option.bind (Option.bind (Option.bind
        (enter_lines [''10 END'', ''20 A=1'', ''20''] (boot 127))
        (push 3)) (push (- 124))) xpoke_body) xrun_start) nexttoken) = Some VARIABLE
   \<and> map_option xc
     (Option.bind (Option.bind (Option.bind (Option.bind (Option.bind
        (enter_lines [''10 END'', ''20 A=1'', ''20''] (boot 127))
        (push 3)) (push (- 124))) xpoke_body) xrun_start) nexttoken) = Some LINENUMBER
   \<and> map_option yc
     (Option.bind (Option.bind (Option.bind (Option.bind (Option.bind
        (enter_lines [''10 END'', ''20 A=1'', ''20''] (boot 127))
        (push 3)) (push (- 124))) xpoke_body) xrun_start) nexttoken) = Some 20
   \<and> map_option here
     (Option.bind (Option.bind (Option.bind (Option.bind (Option.bind
        (enter_lines [''10 END'', ''20 A=1'', ''20''] (boot 127))
        (push 3)) (push (- 124))) xpoke_body) xrun_start) nexttoken) = Some 6
   \<and> map_option top'
     (Option.bind (Option.bind (Option.bind (Option.bind (Option.bind
        (enter_lines [''10 END'', ''20 A=1'', ''20''] (boot 127))
        (push 3)) (push (- 124))) xpoke_body) xrun_start) nexttoken) = Some 4"
  by code_simp

subsection \<open>C6: NEXT with a variable\<close>

text \<open>Reading a number of \<open>numsize\<close> bytes, one byte at a time.\<close>

lemma getbytes_numeral:
  "getbytes i m (numeral k) s = getbytes (Suc i) (m + 1) (pred_numeral k) (set_zc i (mem s (unat m)) s)"
  by (simp add: numeral_eq_Suc)

lemma egetbytes_numeral:
  "egetbytes i m (numeral k) s = egetbytes (Suc i) (m + 1) (pred_numeral k) (set_zc i (eread s m) s)"
  by (simp add: numeral_eq_Suc)

lemma xnext_named:
  assumes "nexttoken s = Some s1" and "token s1 = VARIABLE"
    and "nexttoken s1 = Some s2" and "termsymbol s2"
    and "0 < forsp s2"
    and "xc s1 \<noteq> 0"
    and "xc s1 \<noteq> varx (forstack s2 (forsp s2 - 1)) \<or> yc s1 \<noteq> vary (forstack s2 (forsp s2 - 1))"
  shows "xnext s = error EFOR (s2\<lparr>forsp := forsp s2 - 1, xc := varx (forstack s2 (forsp s2 - 1)),
      yc := vary (forstack s2 (forsp s2 - 1)), here := fhere (forstack s2 (forsp s2 - 1)),
      x := fto (forstack s2 (forsp s2 - 1)), y := fstep (forstack s2 (forsp s2 - 1))\<rparr>)"
proof -
  let ?r = "forstack s2 (forsp s2 - 1)"
  let ?s3 = "s2\<lparr>forsp := forsp s2 - 1, xc := varx ?r, yc := vary ?r, here := fhere ?r,
                 x := fto ?r, y := fstep ?r\<rparr>"
  have nt: "\<not> termsymbol s1" using assms(2) by (simp add: termsymbol_def)
  have hd: "xnext_head s = Some (Some (xc s1, yc s1), s2)"
    using assms(1-4) nt by (simp add: xnext_head_def)
  have pp: "popforstack s2 = Some ?s3" using assms(5) by (simp add: popforstack_def Let_def)
  have lp: "xnext_loop (xc s1) (yc s1) s2 = error EFOR ?s3"
    using assms(6,7) by (auto simp add: xnext_loop_def pp Let_def)
  show ?thesis using hd lp by (simp add: xnext_def)
qed

lemma error_efor:
  assumes "st s = SINT \<or> unat (top' s) \<le> 65278"
  shows "\<exists>s' pre. error EFOR s = Some s' \<and> er s' = EFOR
      \<and> sout s' = (if odd' s = OSERIAL then sout s @ pre @ error_text EFOR else sout s)
      \<and> sp s' = 0 \<and> forsp s' = 0 \<and> gosubsp s' = 0 \<and> vars s' = vars s \<and> mem s' = mem s
      \<and> (if st s = SINT then pre = []
          else \<exists>ln s1. myline (here s) (s\<lparr>er := EFOR, od := odd' s, id' := idd s\<rparr>) = Some (ln, s1)
                 \<and> pre = number_text (form s) (ucast ln) @ [58, 32])"
proof -
  have h1: "(0::byte) \<le>s EFOR" by (simp add: word_sle_eq)
  have h2: "unat (EFOR::byte) < 23" by simp
  from error_result [OF h1 h2 assms] obtain s' pre where
    e: "error EFOR s = Some s'" and
    c: "core s' = core ((outsc (pre @ error_text EFOR) (s\<lparr>er := EFOR, od := odd' s, id' := idd s\<rparr>))
          \<lparr>sp := 0, forsp := 0, fnc := 0, gosubsp := 0\<rparr>)" and
    p: "if st s = SINT then pre = []
        else \<exists>ln s1. myline (here s) (s\<lparr>er := EFOR, od := odd' s, id' := idd s\<rparr>) = Some (ln, s1)
               \<and> pre = number_text (form s) (ucast ln) @ [58, 32]"
    by blast
  from e error_fields [OF c] p show ?thesis by blast
qed

text \<open>
  C6.  When a \<open>NEXT\<close> statement names a variable (the token after \<open>NEXT\<close> is a variable
  and the one after it ends the statement), the FOR stack is not empty and the name
  differs from the name in the record on top of the FOR stack, \<open>xnext\<close> returns with the
  error \<open>EFOR\<close> (number 11, printed as "FOR Error"): the record has been popped, \<open>error\<close>
  has emptied the three stacks and sent its message to the default output stream (it is
  appended to the serial output when that stream is the serial one), and no variable and
  no byte of the memory has changed.  The error number \<open>ENEXT\<close> (9, "Next Error") is not the
  one raised.  (The last hypothesis is the one under which the line search of \<open>error\<close>
  returns.)
\<close>

theorem xnext_mismatch:
  assumes "nexttoken s = Some s1" and "token s1 = VARIABLE"
    and "nexttoken s1 = Some s2" and "termsymbol s2"
    and "0 < forsp s2"
    and "xc s1 \<noteq> 0"
    and "xc s1 \<noteq> varx (forstack s2 (forsp s2 - 1)) \<or> yc s1 \<noteq> vary (forstack s2 (forsp s2 - 1))"
    and "st s2 = SINT \<or> unat (top' s2) \<le> 65278"
  shows "\<exists>s' pre. xnext s = Some s' \<and> er s' = EFOR \<and> er s' \<noteq> ENEXT
      \<and> sout s' = (if odd' s2 = OSERIAL then sout s2 @ pre @ error_text EFOR else sout s2)
      \<and> sp s' = 0 \<and> forsp s' = 0 \<and> gosubsp s' = 0 \<and> vars s' = vars s2 \<and> mem s' = mem s2"
proof -
  let ?r = "forstack s2 (forsp s2 - 1)"
  let ?s3 = "s2\<lparr>forsp := forsp s2 - 1, xc := varx ?r, yc := vary ?r, here := fhere ?r,
                 x := fto ?r, y := fstep ?r\<rparr>"
  have h: "st ?s3 = SINT \<or> unat (top' ?s3) \<le> 65278" using assms(8) by simp
  from error_efor [OF h] obtain s' pre where
    "error EFOR ?s3 = Some s'" "er s' = EFOR"
    "sout s' = (if odd' ?s3 = OSERIAL then sout ?s3 @ pre @ error_text EFOR else sout ?s3)"
    "sp s' = 0" "forsp s' = 0" "gosubsp s' = 0" "vars s' = vars ?s3" "mem s' = mem ?s3"
    by blast
  then show ?thesis using xnext_named [OF assms(1-7)] by simp
qed

text \<open>
  The theorem for the program \<open>10 FOR I=1 TO 3\<close>, \<open>20 NEXT J\<close> at its \<open>NEXT\<close> statement: the
  state, and the states after the first and the second token read.
\<close>

theorem xnext_mismatch_witness:
  "nexttoken (boot 127\<lparr>mem := (mem (boot 127))(0 := LINENUMBER, 1 := 10, 3 := TFOR,
              4 := VARIABLE, 5 := 73, 7 := 61, 8 := NUMBER, 9 := 1, 13 := - 110, 14 := NUMBER, 15 := 3,
              19 := LINENUMBER, 20 := 20, 22 := TNEXT, 23 := VARIABLE, 24 := 74),
            top' := 26, here := 23, token := TNEXT, st := SRUN, vars := (vars (boot 127))(8 := 1),
            forstack := (forstack (boot 127))(0 := \<lparr>varx = 73, vary = 0, fhere = 22, fto = 3, fstep = 1\<rparr>),
            forsp := 1\<rparr>)
     = Some (boot 127\<lparr>mem := (mem (boot 127))(0 := LINENUMBER, 1 := 10, 3 := TFOR,
              4 := VARIABLE, 5 := 73, 7 := 61, 8 := NUMBER, 9 := 1, 13 := - 110, 14 := NUMBER, 15 := 3,
              19 := LINENUMBER, 20 := 20, 22 := TNEXT, 23 := VARIABLE, 24 := 74),
            top' := 26, here := 26, token := VARIABLE, xc := 74, yc := 0, st := SRUN,
            vars := (vars (boot 127))(8 := 1),
            forstack := (forstack (boot 127))(0 := \<lparr>varx = 73, vary = 0, fhere = 22, fto = 3, fstep = 1\<rparr>),
            forsp := 1\<rparr>)
   \<and> token (boot 127\<lparr>mem := (mem (boot 127))(0 := LINENUMBER, 1 := 10, 3 := TFOR,
              4 := VARIABLE, 5 := 73, 7 := 61, 8 := NUMBER, 9 := 1, 13 := - 110, 14 := NUMBER, 15 := 3,
              19 := LINENUMBER, 20 := 20, 22 := TNEXT, 23 := VARIABLE, 24 := 74),
            top' := 26, here := 26, token := VARIABLE, xc := 74, yc := 0, st := SRUN,
            vars := (vars (boot 127))(8 := 1),
            forstack := (forstack (boot 127))(0 := \<lparr>varx = 73, vary = 0, fhere = 22, fto = 3, fstep = 1\<rparr>),
            forsp := 1\<rparr>) = VARIABLE
   \<and> nexttoken (boot 127\<lparr>mem := (mem (boot 127))(0 := LINENUMBER, 1 := 10, 3 := TFOR,
              4 := VARIABLE, 5 := 73, 7 := 61, 8 := NUMBER, 9 := 1, 13 := - 110, 14 := NUMBER, 15 := 3,
              19 := LINENUMBER, 20 := 20, 22 := TNEXT, 23 := VARIABLE, 24 := 74),
            top' := 26, here := 26, token := VARIABLE, xc := 74, yc := 0, st := SRUN,
            vars := (vars (boot 127))(8 := 1),
            forstack := (forstack (boot 127))(0 := \<lparr>varx = 73, vary = 0, fhere = 22, fto = 3, fstep = 1\<rparr>),
            forsp := 1\<rparr>)
     = Some (boot 127\<lparr>mem := (mem (boot 127))(0 := LINENUMBER, 1 := 10, 3 := TFOR,
              4 := VARIABLE, 5 := 73, 7 := 61, 8 := NUMBER, 9 := 1, 13 := - 110, 14 := NUMBER, 15 := 3,
              19 := LINENUMBER, 20 := 20, 22 := TNEXT, 23 := VARIABLE, 24 := 74),
            top' := 26, here := 26, token := EOL, xc := 74, yc := 0, st := SRUN,
            vars := (vars (boot 127))(8 := 1),
            forstack := (forstack (boot 127))(0 := \<lparr>varx = 73, vary = 0, fhere = 22, fto = 3, fstep = 1\<rparr>),
            forsp := 1\<rparr>)
   \<and> termsymbol (boot 127\<lparr>mem := (mem (boot 127))(0 := LINENUMBER, 1 := 10, 3 := TFOR,
              4 := VARIABLE, 5 := 73, 7 := 61, 8 := NUMBER, 9 := 1, 13 := - 110, 14 := NUMBER, 15 := 3,
              19 := LINENUMBER, 20 := 20, 22 := TNEXT, 23 := VARIABLE, 24 := 74),
            top' := 26, here := 26, token := EOL, xc := 74, yc := 0, st := SRUN,
            vars := (vars (boot 127))(8 := 1),
            forstack := (forstack (boot 127))(0 := \<lparr>varx = 73, vary = 0, fhere = 22, fto = 3, fstep = 1\<rparr>),
            forsp := 1\<rparr>)
   \<and> 0 < forsp (boot 127\<lparr>mem := (mem (boot 127))(0 := LINENUMBER, 1 := 10, 3 := TFOR,
              4 := VARIABLE, 5 := 73, 7 := 61, 8 := NUMBER, 9 := 1, 13 := - 110, 14 := NUMBER, 15 := 3,
              19 := LINENUMBER, 20 := 20, 22 := TNEXT, 23 := VARIABLE, 24 := 74),
            top' := 26, here := 26, token := EOL, xc := 74, yc := 0, st := SRUN,
            vars := (vars (boot 127))(8 := 1),
            forstack := (forstack (boot 127))(0 := \<lparr>varx = 73, vary = 0, fhere = 22, fto = 3, fstep = 1\<rparr>),
            forsp := 1\<rparr>)
   \<and> xc (boot 127\<lparr>mem := (mem (boot 127))(0 := LINENUMBER, 1 := 10, 3 := TFOR,
              4 := VARIABLE, 5 := 73, 7 := 61, 8 := NUMBER, 9 := 1, 13 := - 110, 14 := NUMBER, 15 := 3,
              19 := LINENUMBER, 20 := 20, 22 := TNEXT, 23 := VARIABLE, 24 := 74),
            top' := 26, here := 26, token := VARIABLE, xc := 74, yc := 0, st := SRUN,
            vars := (vars (boot 127))(8 := 1),
            forstack := (forstack (boot 127))(0 := \<lparr>varx = 73, vary = 0, fhere = 22, fto = 3, fstep = 1\<rparr>),
            forsp := 1\<rparr>) = 74
   \<and> varx (forstack (boot 127\<lparr>mem := (mem (boot 127))(0 := LINENUMBER, 1 := 10, 3 := TFOR,
              4 := VARIABLE, 5 := 73, 7 := 61, 8 := NUMBER, 9 := 1, 13 := - 110, 14 := NUMBER, 15 := 3,
              19 := LINENUMBER, 20 := 20, 22 := TNEXT, 23 := VARIABLE, 24 := 74),
            top' := 26, here := 26, token := EOL, xc := 74, yc := 0, st := SRUN,
            vars := (vars (boot 127))(8 := 1),
            forstack := (forstack (boot 127))(0 := \<lparr>varx = 73, vary = 0, fhere = 22, fto = 3, fstep = 1\<rparr>),
            forsp := 1\<rparr>) 0) = 73
   \<and> unat (top' (boot 127\<lparr>mem := (mem (boot 127))(0 := LINENUMBER, 1 := 10, 3 := TFOR,
              4 := VARIABLE, 5 := 73, 7 := 61, 8 := NUMBER, 9 := 1, 13 := - 110, 14 := NUMBER, 15 := 3,
              19 := LINENUMBER, 20 := 20, 22 := TNEXT, 23 := VARIABLE, 24 := 74),
            top' := 26, here := 26, token := EOL, xc := 74, yc := 0, st := SRUN,
            vars := (vars (boot 127))(8 := 1),
            forstack := (forstack (boot 127))(0 := \<lparr>varx = 73, vary = 0, fhere = 22, fto = 3, fstep = 1\<rparr>),
            forsp := 1\<rparr>)) \<le> 65278
   \<and> (\<exists>s'. xnext (boot 127\<lparr>mem := (mem (boot 127))(0 := LINENUMBER, 1 := 10, 3 := TFOR,
              4 := VARIABLE, 5 := 73, 7 := 61, 8 := NUMBER, 9 := 1, 13 := - 110, 14 := NUMBER, 15 := 3,
              19 := LINENUMBER, 20 := 20, 22 := TNEXT, 23 := VARIABLE, 24 := 74),
            top' := 26, here := 23, token := TNEXT, st := SRUN, vars := (vars (boot 127))(8 := 1),
            forstack := (forstack (boot 127))(0 := \<lparr>varx = 73, vary = 0, fhere = 22, fto = 3, fstep = 1\<rparr>),
            forsp := 1\<rparr>) = Some s'
         \<and> er s' = EFOR \<and> sp s' = 0 \<and> forsp s' = 0 \<and> gosubsp s' = 0)"
proof -
  let ?w = "boot 127\<lparr>mem := (mem (boot 127))(0 := LINENUMBER, 1 := 10, 3 := TFOR,
              4 := VARIABLE, 5 := 73, 7 := 61, 8 := NUMBER, 9 := 1, 13 := - 110, 14 := NUMBER, 15 := 3,
              19 := LINENUMBER, 20 := 20, 22 := TNEXT, 23 := VARIABLE, 24 := 74),
            top' := 26, here := 23, token := TNEXT, st := SRUN, vars := (vars (boot 127))(8 := 1),
            forstack := (forstack (boot 127))(0 := \<lparr>varx = 73, vary = 0, fhere = 22, fto = 3, fstep = 1\<rparr>),
            forsp := 1\<rparr>"
  let ?w1 = "boot 127\<lparr>mem := (mem (boot 127))(0 := LINENUMBER, 1 := 10, 3 := TFOR,
              4 := VARIABLE, 5 := 73, 7 := 61, 8 := NUMBER, 9 := 1, 13 := - 110, 14 := NUMBER, 15 := 3,
              19 := LINENUMBER, 20 := 20, 22 := TNEXT, 23 := VARIABLE, 24 := 74),
            top' := 26, here := 26, token := VARIABLE, xc := 74, yc := 0, st := SRUN,
            vars := (vars (boot 127))(8 := 1),
            forstack := (forstack (boot 127))(0 := \<lparr>varx = 73, vary = 0, fhere = 22, fto = 3, fstep = 1\<rparr>),
            forsp := 1\<rparr>"
  let ?w2 = "boot 127\<lparr>mem := (mem (boot 127))(0 := LINENUMBER, 1 := 10, 3 := TFOR,
              4 := VARIABLE, 5 := 73, 7 := 61, 8 := NUMBER, 9 := 1, 13 := - 110, 14 := NUMBER, 15 := 3,
              19 := LINENUMBER, 20 := 20, 22 := TNEXT, 23 := VARIABLE, 24 := 74),
            top' := 26, here := 26, token := EOL, xc := 74, yc := 0, st := SRUN,
            vars := (vars (boot 127))(8 := 1),
            forstack := (forstack (boot 127))(0 := \<lparr>varx = 73, vary = 0, fhere = 22, fto = 3, fstep = 1\<rparr>),
            forsp := 1\<rparr>"
  have t1: "nexttoken ?w = Some ?w1"
    by (simp add: nexttoken_def gettoken_def memread_def boot_def Let_def)
  have t2: "nexttoken ?w1 = Some ?w2"
    by (simp add: nexttoken_def gettoken_def boot_def)
  have h2: "token ?w1 = VARIABLE" by simp
  have h4: "termsymbol ?w2" by (simp add: termsymbol_def)
  have h5: "0 < forsp ?w2" by simp
  have h6: "xc ?w1 \<noteq> 0" by simp
  have v: "xc ?w1 = 74" "varx (forstack ?w2 0) = 73" by (simp_all add: boot_def)
  then have h7: "xc ?w1 \<noteq> varx (forstack ?w2 (forsp ?w2 - 1)) \<or> yc ?w1 \<noteq> vary (forstack ?w2 (forsp ?w2 - 1))"
    by simp
  have h8': "unat (top' ?w2) \<le> 65278" by simp
  then have h8: "st ?w2 = SINT \<or> unat (top' ?w2) \<le> 65278" by blast
  from xnext_mismatch [OF t1 h2 t2 h4 h5 h6 h7 h8]
  have "\<exists>s'. xnext ?w = Some s' \<and> er s' = EFOR \<and> sp s' = 0 \<and> forsp s' = 0 \<and> gosubsp s' = 0"
    by blast
  with t1 h2 t2 h4 h5 v h8' show ?thesis by blast
qed

text \<open>
  In the same state the error number after \<open>NEXT J\<close> is 11, not 9, and the text printed is
  "10: FOR Error": the line number is that of the \<open>FOR\<close> statement, whose position
  \<open>popforstack\<close> has put into \<open>here\<close>.
\<close>

theorem xnext_raises_for_counterexample:
  "map_option er (xnext (boot 127\<lparr>mem := (mem (boot 127))(0 := LINENUMBER, 1 := 10, 3 := TFOR,
              4 := VARIABLE, 5 := 73, 7 := 61, 8 := NUMBER, 9 := 1, 13 := - 110, 14 := NUMBER, 15 := 3,
              19 := LINENUMBER, 20 := 20, 22 := TNEXT, 23 := VARIABLE, 24 := 74),
            top' := 26, here := 23, token := TNEXT, st := SRUN, vars := (vars (boot 127))(8 := 1),
            forstack := (forstack (boot 127))(0 := \<lparr>varx = 73, vary = 0, fhere = 22, fto = 3, fstep = 1\<rparr>),
            forsp := 1\<rparr>)) = Some EFOR
   \<and> (EFOR :: byte) \<noteq> ENEXT
   \<and> map_option sout (xnext (boot 127\<lparr>mem := (mem (boot 127))(0 := LINENUMBER, 1 := 10, 3 := TFOR,
              4 := VARIABLE, 5 := 73, 7 := 61, 8 := NUMBER, 9 := 1, 13 := - 110, 14 := NUMBER, 15 := 3,
              19 := LINENUMBER, 20 := 20, 22 := TNEXT, 23 := VARIABLE, 24 := 74),
            top' := 26, here := 23, token := TNEXT, st := SRUN, vars := (vars (boot 127))(8 := 1),
            forstack := (forstack (boot 127))(0 := \<lparr>varx = 73, vary = 0, fhere = 22, fto = 3, fstep = 1\<rparr>),
            forsp := 1\<rparr>)) = Some (map of_char ''10: FOR Error'' @ [10])"
proof -
  let ?w = "boot 127\<lparr>mem := (mem (boot 127))(0 := LINENUMBER, 1 := 10, 3 := TFOR,
              4 := VARIABLE, 5 := 73, 7 := 61, 8 := NUMBER, 9 := 1, 13 := - 110, 14 := NUMBER, 15 := 3,
              19 := LINENUMBER, 20 := 20, 22 := TNEXT, 23 := VARIABLE, 24 := 74),
            top' := 26, here := 23, token := TNEXT, st := SRUN, vars := (vars (boot 127))(8 := 1),
            forstack := (forstack (boot 127))(0 := \<lparr>varx = 73, vary = 0, fhere = 22, fto = 3, fstep = 1\<rparr>),
            forsp := 1\<rparr>"
  let ?w1 = "?w\<lparr>token := VARIABLE, here := 26, xc := 74, yc := 0\<rparr>"
  let ?w2 = "?w1\<lparr>token := EOL\<rparr>"
  let ?w3 = "?w2\<lparr>forsp := 0, xc := 73, yc := 0, here := 22, x := 3, y := 1\<rparr>"
  have t1: "nexttoken ?w = Some ?w1"
    by (simp add: nexttoken_def gettoken_def memread_def boot_def Let_def)
  have t2: "nexttoken ?w1 = Some ?w2"
    by (simp add: nexttoken_def gettoken_def boot_def)
  have x: "xnext ?w = error EFOR ?w3"
    using xnext_named [OF t1 _ t2] by (simp add: termsymbol_def boot_def)
  have h: "st ?w3 = SINT \<or> unat (top' ?w3) \<le> 65278" by simp
  have d: "odd' ?w3 = OSERIAL" by (simp add: boot_def)
  have ml: "map_option fst (myline (here ?w3) (?w3\<lparr>er := EFOR, od := odd' ?w3, id' := idd ?w3\<rparr>))
      = Some 10"
    by (simp add: myline_def boot_def run_defs myline_loop.simps getbytes_numeral)
  from error_efor [OF h] obtain s' pre where
    r: "error EFOR ?w3 = Some s'" "er s' = EFOR"
    and o: "sout s' = (if odd' ?w3 = OSERIAL then sout ?w3 @ pre @ error_text EFOR else sout ?w3)"
    and q: "if st ?w3 = SINT then pre = []
          else \<exists>ln s1. myline (here ?w3) (?w3\<lparr>er := EFOR, od := odd' ?w3, id' := idd ?w3\<rparr>)
                   = Some (ln, s1)
                 \<and> pre = number_text (form ?w3) (ucast ln) @ [58, 32]"
    by blast
  have "st ?w3 \<noteq> SINT" by simp
  with q obtain ln s1 where
    m: "myline (here ?w3) (?w3\<lparr>er := EFOR, od := odd' ?w3, id' := idd ?w3\<rparr>) = Some (ln, s1)"
    and p: "pre = number_text (form ?w3) (ucast ln) @ [58, 32]"
    by (simp only: if_False) blast
  have "ln = 10" using ml m by simp
  then have "sout s' = map of_char ''10: FOR Error'' @ [10]"
    using o p d by (simp add: boot_def number_text_def writenumber_def error_text_def message_def)
  with r x show ?thesis by simp
qed

subsection \<open>C7: PEEK and POKE\<close>

text \<open>
  \<open>error\<close> in interactive mode prints no line number; the result when the default output is
  the serial stream.
\<close>

lemma error_interactive:
  assumes "0 \<le>s e" and "unat e < 23" and "st s = SINT"
    and "odd' s = OSERIAL"
  shows "error e s = Some (s\<lparr>er := e, sout := sout s @ error_text e, sp := 0, forsp := 0,
      fnc := 0, gosubsp := 0, od := OSERIAL, id' := idd s\<rparr>)"
proof -
  let ?s0 = "s\<lparr>er := e, od := odd' s, id' := idd s\<rparr>"
  have p: "error_prefix ?s0 = Some ?s0" using assms(3) by (simp add: error_prefix_def)
  have "error e s = Some ((outsc (error_text e) ?s0)\<lparr>sp := 0, forsp := 0, fnc := 0, gosubsp := 0,
      od := odd' ?s0, id' := idd ?s0\<rparr>)"
    unfolding error_def p option.case by (rule error_tail [OF assms(1,2)])
  then show ?thesis using assms(4) by (simp add: outsc_serial)
qed

text \<open>
  C7.  \<open>peek\<close> and \<open>xpoke\<close> hold the address in the unsigned 16-bit variable \<open>a\<close>, so their
  tests \<open>a >= 0\<close> always hold and their tests \<open>a < 0\<close> never do: the argument is taken modulo
  \<open>2^16\<close>, an address below \<open>memsize\<close> reads or writes the program memory, and every other
  one raises \<open>ERANGE\<close>.  The branches that read and write the EEPROM are never taken.
\<close>

theorem peek_poke_unsigned:
  "peek s =
     (case pop s of
        None \<Rightarrow> None
      | Some (v, s1) \<Rightarrow>
          if (ucast v :: address_t) < memsize s1 then push (scast (mem s1 (unat (ucast v :: address_t)))) s1
          else error ERANGE s1)
   \<and> xpoke_body s =
     (case pop s of
        None \<Rightarrow> None
      | Some (v, s0) \<Rightarrow>
          (case pop (s0\<lparr>y := v\<rparr>) of
             None \<Rightarrow> None
           | Some (w, s1) \<Rightarrow>
               if (ucast w :: address_t) < memsize s1
               then Some (s1\<lparr>mem := (mem s1)(unat (ucast w :: address_t) := ucast (y s1))\<rparr>)
               else error ERANGE s1))"
  by (simp add: peek_def xpoke_body_def Let_def split: option.splits)

text \<open>
  With an EEPROM of 1024 bytes whose byte 0 is 42, \<open>PEEK(-1)\<close> raises the range error
  instead of returning 42, and \<open>POKE -1, 7\<close> raises it and leaves the byte as it is;
  \<open>PEEK(65539)\<close> returns the byte at address 3 of the program memory.
\<close>

theorem peek_poke_unsigned_witness:
  "map_option er (peek (boot 127\<lparr>elen := 1024, eeprom := (eeprom (boot 127))(0 := 42),
       stack := (stack (boot 127))(0 := - 1), sp := 1\<rparr>)) = Some ERANGE
   \<and> map_option sout (peek (boot 127\<lparr>elen := 1024, eeprom := (eeprom (boot 127))(0 := 42),
       stack := (stack (boot 127))(0 := - 1), sp := 1\<rparr>)) = Some (map of_char ''Range Error'' @ [10])
   \<and> map_option er (xpoke_body (boot 127\<lparr>elen := 1024, eeprom := (eeprom (boot 127))(0 := 42),
       stack := (stack (boot 127))(0 := - 1, 1 := 7), sp := 2\<rparr>)) = Some ERANGE
   \<and> map_option (\<lambda>s'. eeprom s' 0) (xpoke_body (boot 127\<lparr>elen := 1024, eeprom := (eeprom (boot 127))(0 := 42),
       stack := (stack (boot 127))(0 := - 1, 1 := 7), sp := 2\<rparr>)) = Some 42
   \<and> pushed (peek (boot 127\<lparr>mem := (mem (boot 127))(3 := 9),
       stack := (stack (boot 127))(0 := 65539), sp := 1\<rparr>)) = Some 9"
proof -
  let ?w = "boot 127\<lparr>elen := 1024, eeprom := (eeprom (boot 127))(0 := 42),
       stack := (stack (boot 127))(0 := - 1), sp := 1\<rparr>"
  let ?v = "boot 127\<lparr>elen := 1024, eeprom := (eeprom (boot 127))(0 := 42),
       stack := (stack (boot 127))(0 := - 1, 1 := 7), sp := 2\<rparr>"
  let ?u = "boot 127\<lparr>mem := (mem (boot 127))(3 := 9),
       stack := (stack (boot 127))(0 := 65539), sp := 1\<rparr>"
  have c: "(ucast (- 1 :: number_t) :: address_t) = 65535" by code_simp
  have d: "(ucast (65539 :: number_t) :: address_t) = 3" by code_simp
  have e: "(0::byte) \<le>s ERANGE" "unat (ERANGE::byte) < 23" by (simp_all add: word_sle_eq)
  have t: "error_text ERANGE = map of_char ''Range Error'' @ [10]"
    by (simp add: error_text_def message_def)
  have p: "peek ?w = error ERANGE (?w\<lparr>sp := 0\<rparr>)"
    using peek_poke_unsigned [of ?w] by (simp add: pop_def c boot_def)
  have q: "xpoke_body ?v = error ERANGE (?v\<lparr>y := 7, sp := 0\<rparr>)"
    using peek_poke_unsigned [of ?v] by (simp add: pop_def c boot_def)
  have r: "peek ?u = push 9 (?u\<lparr>sp := 0\<rparr>)"
    using peek_poke_unsigned [of ?u] by (simp add: pop_def d boot_def)
  have p': "map_option er (peek ?w) = Some ERANGE"
    "map_option sout (peek ?w) = Some (map of_char ''Range Error'' @ [10])"
    unfolding p by (simp_all add: error_interactive [OF e] boot_def t)
  have q': "map_option er (xpoke_body ?v) = Some ERANGE"
    "map_option (\<lambda>s'. eeprom s' 0) (xpoke_body ?v) = Some 42"
    unfolding q by (simp_all add: error_interactive [OF e] boot_def)
  have r': "pushed (peek ?u) = Some 9"
    unfolding r by (simp add: push_def pushed_def boot_def)
  from p' q' r' show ?thesis by blast
qed

subsection \<open>C5: skipping a FOR loop\<close>

lemma getmessage_tfor: "getmessage TFOR = None"
  by (simp add: getmessage_def word_sle_eq)

lemma error_tfor: "error TFOR s = None"
  by (simp add: error_def printmessage_def getmessage_tfor split: option.splits)

text \<open>
  C5.  \<open>findnext\<close> scans for the matching \<open>NEXT\<close> only while \<open>here < top\<close>.  Called on a token
  other than \<open>NEXT\<close> with \<open>here\<close> at or beyond \<open>top\<close>, it reads no token and calls \<open>error\<close> with
  the token code \<open>TFOR\<close> (-111) as the error number; \<open>getmessage\<close> then indexes the message
  table at -111, outside the table, so the call has no defined result.  In interactive
  mode \<open>xfor\<close> has set \<open>here\<close> to the offset in the input buffer, and \<open>top\<close> is the end of
  the stored program: with no stored program every skipped loop ends this way.
\<close>

theorem findnext_past_top:
  assumes "token s \<noteq> TNEXT" and "top' s \<le> here s"
  shows "findnext s = error TFOR (s\<lparr>fnc := (if token s = TFOR then fnc s + 1 else fnc s)\<rparr>)
         \<and> getmessage TFOR = None \<and> findnext s = None"
proof -
  have "findnext s = error TFOR (s\<lparr>fnc := (if token s = TFOR then fnc s + 1 else fnc s)\<rparr>)"
    using assms by (subst findnext.simps) simp
  then show ?thesis by (simp add: error_tfor getmessage_tfor)
qed

text \<open>
  The interactive line \<open>FOR I=5 TO 1: PRINT I: NEXT\<close> with no stored program (the input
  buffer holds the length of the line and then the line): the state in which \<open>xfor\<close> calls
  \<open>findnext\<close> (the token is the colon, \<open>here\<close> is 14 and \<open>top\<close> is 0), and the body of \<open>xfor\<close>
  from the state after the header has been read.
\<close>

theorem findnext_past_top_witness:
  "token (boot 127\<lparr>vars := (vars (boot 127))(8 := 5), stack := (stack (boot 127))(0 := 1),
       x := 1, y := 1, xc := 73, token := 58, here := 14, bi := 14,
       forstack := (forstack (boot 127))(0 := \<lparr>varx = 73, vary = 0, fhere = 14, fto = 1, fstep = 1\<rparr>),
       ibuffer := (\<lambda>i. if i = 0 then 27
                     else if i < 28 then map of_char ''FOR I=5 TO 1: PRINT I: NEXT'' ! (i - 1) else 0)\<rparr>) = 58
   \<and> top' (boot 127\<lparr>vars := (vars (boot 127))(8 := 5), stack := (stack (boot 127))(0 := 1),
       x := 1, y := 1, xc := 73, token := 58, here := 14, bi := 14,
       forstack := (forstack (boot 127))(0 := \<lparr>varx = 73, vary = 0, fhere = 14, fto = 1, fstep = 1\<rparr>),
       ibuffer := (\<lambda>i. if i = 0 then 27
                     else if i < 28 then map of_char ''FOR I=5 TO 1: PRINT I: NEXT'' ! (i - 1) else 0)\<rparr>) = 0
   \<and> xfor_body 73 0 (boot 127\<lparr>vars := (vars (boot 127))(8 := 5), stack := (stack (boot 127))(0 := 1),
       sp := 1, y := 1, token := 58, bi := 14,
       ibuffer := (\<lambda>i. if i = 0 then 27
                     else if i < 28 then map of_char ''FOR I=5 TO 1: PRINT I: NEXT'' ! (i - 1) else 0)\<rparr>) = None"
proof -
  let ?b = "\<lambda>i. if i = 0 then 27 else if i < 28 then map of_char ''FOR I=5 TO 1: PRINT I: NEXT'' ! (i - 1)
            else (0::byte)"
  let ?w = "boot 127\<lparr>vars := (vars (boot 127))(8 := 5), stack := (stack (boot 127))(0 := 1),
       sp := 1, y := 1, token := 58, bi := 14, ibuffer := ?b\<rparr>"
  let ?f = "boot 127\<lparr>vars := (vars (boot 127))(8 := 5), stack := (stack (boot 127))(0 := 1),
       x := 1, y := 1, xc := 73, token := 58, here := 14, bi := 14,
       forstack := (forstack (boot 127))(0 := \<lparr>varx = 73, vary = 0, fhere = 14, fto = 1, fstep = 1\<rparr>),
       ibuffer := ?b\<rparr>"
  have h: "token ?f \<noteq> TNEXT" "top' ?f \<le> here ?f" by (simp_all add: boot_def)
  have v: "token ?f = 58" "top' ?f = 0" by (simp_all add: boot_def)
  from findnext_past_top [OF h] have n: "findnext ?f = None" by blast
  have "xfor_body 73 0 ?w = (case findnext ?f of None \<Rightarrow> None | Some s2 \<Rightarrow> nexttoken s2)"
    by (simp add: xfor_body_def pop_def pushforstack_def getvar_def xfor_skip_def dropforstack_def
        boot_def word_sle_eq word_sless_alt Let_def)
  with n have "xfor_body 73 0 ?w = None" by simp
  with v show ?thesis by blast
qed

text \<open>
  In run mode the scan finds the matching \<open>NEXT\<close>, and \<open>xfor\<close> reads one token more.  For
  the program \<open>10 FOR I=5 TO 1\<close>, \<open>20 NEXT I\<close>, \<open>30 END\<close> this token is the variable of
  \<open>NEXT I\<close>: \<open>xfor\<close> returns with the token \<open>VARIABLE\<close>, the name \<open>I\<close> and \<open>here\<close> at the line
  number of line 30.
\<close>

lemma xfor_skip_named_next:
  "map_option (\<lambda>s. (token s, xc s, here s))
     (xfor_body 73 0 (boot 127\<lparr>mem := (mem (boot 127))(0 := LINENUMBER, 1 := 10, 3 := TFOR,
              4 := VARIABLE, 5 := 73, 7 := 61, 8 := NUMBER, 9 := 5, 13 := - 110, 14 := NUMBER, 15 := 1,
              19 := LINENUMBER, 20 := 20, 22 := TNEXT, 23 := VARIABLE, 24 := 73,
              26 := LINENUMBER, 27 := 30, 29 := - 87),
            top' := 30, here := 22, token := LINENUMBER, x := 20, st := SRUN,
            vars := (vars (boot 127))(8 := 5), stack := (stack (boot 127))(0 := 1), sp := 1, y := 1\<rparr>))
   = Some (VARIABLE, 73, 26)"
proof -
  let ?w = "boot 127\<lparr>mem := (mem (boot 127))(0 := LINENUMBER, 1 := 10, 3 := TFOR,
              4 := VARIABLE, 5 := 73, 7 := 61, 8 := NUMBER, 9 := 5, 13 := - 110, 14 := NUMBER, 15 := 1,
              19 := LINENUMBER, 20 := 20, 22 := TNEXT, 23 := VARIABLE, 24 := 73,
              26 := LINENUMBER, 27 := 30, 29 := - 87),
            top' := 30, here := 22, token := LINENUMBER, x := 20, st := SRUN,
            vars := (vars (boot 127))(8 := 5), stack := (stack (boot 127))(0 := 1), sp := 1, y := 1\<rparr>"
  let ?f = "?w\<lparr>sp := 0, x := 1, xc := 73, yc := 0,
       forstack := (forstack (boot 127))(0 := \<lparr>varx = 73, vary = 0, fhere = 22, fto = 1, fstep = 1\<rparr>)\<rparr>"
  have f: "findnext ?f = Some (?f\<lparr>token := TNEXT, here := 23\<rparr>)"
    apply (subst findnext.simps)
    apply (simp add: boot_def nexttoken_def gettoken_def memread_def Let_def)
    apply (subst findnext.simps)
    apply simp
    done
  have "xfor_body 73 0 ?w = (case findnext ?f of None \<Rightarrow> None | Some s2 \<Rightarrow> nexttoken s2)"
    by (simp add: xfor_body_def pop_def pushforstack_def getvar_def xfor_skip_def dropforstack_def
        boot_def word_sle_eq word_sless_alt Let_def)
  then show ?thesis
    unfolding f by (simp add: boot_def nexttoken_def gettoken_def memread_def Let_def)
qed

subsection \<open>C1: the line editor when the memory is full\<close>

text \<open>
  C1.  \<open>storeline\<close> appends the new line at \<open>top\<close> and then moves it into place with
  \<open>moveblock\<close>, whose error it does not test.  In a memory of 46 bytes, after \<open>DIM A(2)\<close> has
  taken 13 bytes (\<open>himem = 32\<close>), the line \<open>20 A=1\<close> is stored in the bytes 0 to 11.  The
  line \<open>10 B=2\<close> is appended at the bytes 12 to 23; to insert it before line 20,
  \<open>moveblock(0, 24, 12)\<close> would need the bytes up to 35, raises the memory error and moves
  nothing, and \<open>moveblock(24, 12, 0)\<close> then copies the twelve bytes above \<open>top\<close>, which are
  zero, over line 20.  The program region afterwards is twelve zero bytes followed by
  line 10: line 20 is lost, and the region no longer starts with a line.
\<close>

theorem storeline_memory_full:
  "map_option (\<lambda>s. (himem s, top' s, program_bytes s))
       (Option.bind (createarray 65 0 2 (boot 45)) (enter_lines [''20 A=1'']))
     = Some (32, 12, [LINENUMBER, 20, 0, VARIABLE, 65, 0, 61, NUMBER, 1, 0, 0, 0])
   \<and> map_option (\<lambda>s. (himem s, top' s, program_bytes s, sout s))
       (Option.bind (createarray 65 0 2 (boot 45)) (enter_lines [''20 A=1'', ''10 B=2'']))
     = Some (32, 24, [0, 0, 0, 0, 0, 0, 0, 0, 0, 0, 0, 0,
                  LINENUMBER, 10, 0, VARIABLE, 66, 0, 61, NUMBER, 2, 0, 0, 0],
             map of_char ''> > Memory Error'' @ [10])"
  by code_simp

subsection \<open>C3: allocation and lookup on the heap\<close>





lemma getnumber2_mem:
  assumes "mem a (unat m) = mem b (unat m)" and "mem a (unat (m + 1)) = mem b (unat (m + 1))"
  shows "za (getnumber m addrsize a) = za (getnumber m addrsize b)"
  using assms by (simp add: getnumber_def set_zc_def za_def)





lemma obj_agree:
  assumes "mem a (unat (b - 2)) = mem a' (unat (b - 2))"
    and "obj_type a b \<noteq> VARIABLE \<Longrightarrow> mem a (unat (b - 3 - 1)) = mem a' (unat (b - 3 - 1))"
    and "obj_type a b \<noteq> VARIABLE \<Longrightarrow> mem a (unat (b - 3 - 1 + 1)) = mem a' (unat (b - 3 - 1 + 1))"
  shows "obj_type a b = obj_type a' b" "obj_size a b = obj_size a' b" "obj_header a b = obj_header a' b"
proof -
  show t: "obj_type a b = obj_type a' b" using assms(1) by (simp add: obj_type_def)
  show "obj_header a b = obj_header a' b" using t by (simp add: obj_header_def)
  show "obj_size a b = obj_size a' b"
  proof (cases "obj_type a b = VARIABLE")
    case True
    then show ?thesis using t by (simp add: obj_size_def)
  next
    case False
    from getnumber2_mem [OF assms(2) [OF False] assms(3) [OF False]] show ?thesis
      using t False by (simp add: obj_size_def)
  qed
qed

lemma obj_z [simp]:
  "obj_type (s\<lparr>z := v\<rparr>) b = obj_type s b" "obj_size (s\<lparr>z := v\<rparr>) b = obj_size s b"
  "obj_header (s\<lparr>z := v\<rparr>) b = obj_header s b"
  by (rule obj_agree; simp)+

lemma heap_chain_z [simp]: "heap_chain k b (s\<lparr>z := v\<rparr>) = heap_chain k b s"
  by (induction k arbitrary: b) simp_all
















end
